(* ===== verification/Prelude.thy ===== *)
theory Prelude
  imports Main "HOL-Library.Word" "HOL-Library.Monad_Syntax"
begin

text \<open>
  What every theory of the development shares: the machine integers, the reading of the
  option monad as "the C code has a defined result", the blocks that the C library's
  allocator hands out, and generic facts on lists of linked nodes.

  A C function is a HOL function into \<open>'a option\<close>. The value \<open>None\<close> stands for an
  execution that the language gives no result: a null or dangling pointer is read, an index
  leaves its block, an uninitialised variable is used, or a loop never ends. Every
  ordinary outcome of the code, error codes included, is a value under \<open>Some\<close>.
\<close>

section \<open>Machine integers\<close>

type_synonym u32 = "32 word"

text \<open>The conversion from a (signed) \<open>char\<close> to \<open>unsigned int\<close>: it extends the sign.\<close>

definition char_to_uint :: "char \<Rightarrow> u32" where
  "char_to_uint c = scast (of_char c :: 8 word)"

section \<open>Defined results\<close>

named_theorems run_simps "equations that run straight-line code in the option monad"

definition require :: "bool \<Rightarrow> unit option" where
  "require b = (if b then Some () else None)"

definition nth_opt :: "'a list \<Rightarrow> nat \<Rightarrow> 'a option" where
  "nth_opt xs i = (if i < length xs then Some (xs ! i) else None)"

lemma require_simps [simp, run_simps]:
  "require True = Some ()" "require False = None"
  by (simp_all add: require_def)

lemma require_eq_Some [simp]: "require b = Some u \<longleftrightarrow> b"
  by (simp add: require_def)

lemma require_bind [run_simps]: "(require b \<bind> f) = (if b then f () else None)"
  by (simp add: require_def)

lemma nth_opt_in [simp, run_simps]: "i < length xs \<Longrightarrow> nth_opt xs i = Some (xs ! i)"
  by (simp add: nth_opt_def)

lemma nth_opt_out [simp]: "length xs \<le> i \<Longrightarrow> nth_opt xs i = None"
  by (simp add: nth_opt_def)

lemma nth_opt_eq_Some: "nth_opt xs i = Some x \<longleftrightarrow> i < length xs \<and> x = xs ! i"
  by (auto simp: nth_opt_def)

lemma option_eqI: "(\<And>v. x = Some v \<longleftrightarrow> y = Some v) \<Longrightarrow> x = y"
  by (cases x; cases y) auto

lemma ex_map_upd:
  assumes "a \<notin> dom m"
  shows "(\<exists>n p. (m(a \<mapsto> q)) n = Some p \<and> P p) \<longleftrightarrow> P q \<or> (\<exists>n p. m n = Some p \<and> P p)"
proof
  assume "\<exists>n p. (m(a \<mapsto> q)) n = Some p \<and> P p"
  then show "P q \<or> (\<exists>n p. m n = Some p \<and> P p)"
    by (auto split: if_splits)
next
  assume "P q \<or> (\<exists>n p. m n = Some p \<and> P p)"
  then show "\<exists>n p. (m(a \<mapsto> q)) n = Some p \<and> P p"
  proof
    assume "P q"
    then show ?thesis by (intro exI [of _ a]) simp
  next
    assume "\<exists>n p. m n = Some p \<and> P p"
    then obtain n p where "m n = Some p" "P p" by blast
    moreover have "n \<noteq> a"
      using calculation(1) assms by auto
    ultimately show ?thesis by (intro exI [of _ n]) simp
  qed
qed

section \<open>Blocks of the allocator\<close>

text \<open>
  \<open>malloc (n)\<close> gives a block of at least \<open>n\<close> bytes. How many of them may be written
  without running into the next block is a matter of the C library: an allocator is a
  function from the requested to the usable size. The C standard grants exactly the
  requested size; the GNU C library on a 64-bit machine rounds a request up to a chunk of
  a multiple of 16 bytes, at least 32, of which 8 hold the chunk's size.
\<close>

type_synonym allocator = "nat \<Rightarrow> nat"

definition strict_alloc :: allocator where
  "strict_alloc n = n"

definition glibc_alloc :: allocator where
  "glibc_alloc n = max 24 ((n + 23) div 16 * 16 - 8)"

lemma glibc_alloc_ge: "n \<le> glibc_alloc n"
  by (simp add: glibc_alloc_def)

lemma glibc_alloc_min: "24 \<le> glibc_alloc n"
  by (simp add: glibc_alloc_def)

lemma glibc_alloc_128: "128 * k < glibc_alloc (128 * k)"
proof -
  have "(128 * k + 23) div 16 = 8 * k + 1"
    by presburger
  then show ?thesis
    by (simp add: glibc_alloc_def)
qed

section \<open>Doubly linked nodes\<close>

text \<open>
  \<open>links nx pv ps\<close>: each node of \<open>ps\<close> points to its successor by \<open>nx\<close>, and is pointed
  back to by \<open>pv\<close>. The list may start and end with the same node, as a ring does.
\<close>

fun links :: "('p \<Rightarrow> 'p) \<Rightarrow> ('p \<Rightarrow> 'p) \<Rightarrow> 'p list \<Rightarrow> bool" where
  "links nx pv [] = True"
| "links nx pv [x] = True"
| "links nx pv (x # y # ps) = (nx x = y \<and> pv y = x \<and> links nx pv (y # ps))"

lemma links_split: "links nx pv (xs @ y # ys) \<longleftrightarrow> links nx pv (xs @ [y]) \<and> links nx pv (y # ys)"
proof (induction xs)
  case Nil
  then show ?case by simp
next
  case (Cons x xs)
  then show ?case by (cases xs) auto
qed

lemma links_split2:
  "links nx pv (xs @ q # p # ys) \<longleftrightarrow>
     links nx pv (xs @ [q]) \<and> nx q = p \<and> pv p = q \<and> links nx pv (p # ys)"
  using links_split [of nx pv xs q "p # ys"] by auto

lemma links_frame:
  assumes "\<And>x. x \<in> set (butlast ps) \<Longrightarrow> nx' x = nx x"
    and "\<And>x. x \<in> set (tl ps) \<Longrightarrow> pv' x = pv x"
  shows "links nx' pv' ps = links nx pv ps"
  using assms
proof (induction nx pv ps rule: links.induct)
  case (3 nx pv x y ps)
  then show ?case
    by (cases ps) auto
qed auto

lemma distinct_joint:
  assumes "distinct (butlast (xs @ q # p # ys))" and "distinct (tl (xs @ q # p # ys))"
  shows "q \<notin> set xs" "q \<notin> set (butlast (p # ys))" "p \<notin> set (tl (xs @ [q]))" "p \<notin> set ys"
  using assms by (cases xs; auto simp: butlast_append)+

lemma links_insert:
  assumes l: "links nx pv (xs @ q # p # ys)"
    and d1: "distinct (butlast (xs @ q # p # ys))" and d2: "distinct (tl (xs @ q # p # ys))"
    and n: "n \<notin> set (xs @ q # p # ys)"
  shows "links ((nx(n := p))(q := n)) ((pv(n := q))(p := n)) (xs @ q # n # p # ys)"
proof -
  let ?nx = "(nx(n := p))(q := n)" and ?pv = "(pv(n := q))(p := n)"
  have q: "q \<notin> set xs" "q \<notin> set (butlast (p # ys))" and p: "p \<notin> set (tl (xs @ [q]))" "p \<notin> set ys"
    using distinct_joint [OF d1 d2] by auto
  have nn: "n \<notin> set xs" "n \<notin> set (tl (xs @ [q]))" "n \<notin> set (butlast (p # ys))" "n \<notin> set ys"
    using n by (cases xs; auto dest: in_set_butlastD split: if_splits)+
  have left: "links ?nx ?pv (xs @ [q]) = links nx pv (xs @ [q])"
    by (rule links_frame) (use q p nn in \<open>auto simp: fun_upd_apply\<close>)
  have right: "links ?nx ?pv (p # ys) = links nx pv (p # ys)"
    by (rule links_frame) (use q p nn in \<open>auto simp: fun_upd_apply\<close>)
  have "links ?nx ?pv (xs @ [q])" and "links ?nx ?pv (p # ys)"
    using l left right by (simp_all add: links_split2)
  moreover have "n \<noteq> p" and "n \<noteq> q"
    using n by auto
  ultimately show ?thesis
    by (simp add: links_split2)
qed

lemma links_remove:
  assumes l: "links nx pv (xs @ q # n # p # ys)"
    and d1: "distinct (butlast (xs @ q # n # p # ys))" and d2: "distinct (tl (xs @ q # n # p # ys))"
  shows "links (nx(q := p)) (pv(p := q)) (xs @ q # p # ys)"
proof -
  have q: "q \<notin> set xs" "q \<notin> set (butlast (p # ys))" and p: "p \<notin> set (tl (xs @ [q]))" "p \<notin> set ys"
    using d1 d2 by (cases xs; auto simp: butlast_append)+
  have left: "links (nx(q := p)) (pv(p := q)) (xs @ [q]) = links nx pv (xs @ [q])"
    by (rule links_frame) (use q p in \<open>auto simp: fun_upd_apply\<close>)
  have right: "links (nx(q := p)) (pv(p := q)) (p # ys) = links nx pv (p # ys)"
    by (rule links_frame) (use q p in \<open>auto simp: fun_upd_apply\<close>)
  have "links (nx(q := p)) (pv(p := q)) (xs @ [q])" and "links (nx(q := p)) (pv(p := q)) (p # ys)"
    using l left right by (simp_all add: links_split2)
  then show ?thesis
    by (simp add: links_split2)
qed

end
