(* ===== verification/Hashtable.thy ===== *)
theory Hashtable
  imports Prelude
begin

text \<open>
  The chained hash table of \<open>src/hashtable.c\<close>, on its own data structure: one circular,
  doubly linked, intrusive list of all pairs, whose head sits in the table, and an array of
  buckets that delimit segments of that list by their first and last node. Pointers to
  list nodes are values of \<open>ptr\<close>; the fields \<open>next\<close> and \<open>prev\<close> of all nodes are two
  functions in the table's record, and \<open>ht_pairs\<close> holds the pairs that are allocated. A
  read or write through a node that is not allocated is undefined (\<open>None\<close>).

  The theories \<open>Hashtable_Rep\<close> and \<open>Hashtable_Correct\<close> relate this to blocks of nodes per bucket
  (\<open>ht_rep\<close>) and state what every operation does to the table's entries.
\<close>

section \<open>Data\<close>

text \<open>
  \<open>ListHead\<close> is the address \<open>&hashtable->list\<close>; \<open>PairList n\<close> is \<open>&pair->list\<close> of the pair that
  the \<open>n\<close>-th call of \<open>malloc\<close> for a pair returned. Addresses are not reused.
\<close>

datatype ptr = ListHead | PairList nat

record ('k, 'v) hashtable_pair =
  pair_key :: 'k
  pair_value :: 'v
  pair_hash :: u32

record hashtable_bucket =
  bucket_first :: ptr
  bucket_last :: ptr

text \<open>
  \<open>ht_free_key\<close> and \<open>ht_free_value\<close> say whether the two callbacks are non-NULL; their calls
  are recorded, in order, in \<open>ht_freed_keys\<close> and \<open>ht_freed_values\<close>. \<open>ht_buckets = None\<close> is
  the null pointer.
\<close>

record ('k, 'v) hashtable =
  ht_size :: u32
  ht_buckets :: "hashtable_bucket list option"
  ht_num_buckets :: nat
  ht_next :: "ptr \<Rightarrow> ptr"
  ht_prev :: "ptr \<Rightarrow> ptr"
  ht_pairs :: "nat \<rightharpoonup> ('k, 'v) hashtable_pair"
  ht_brk :: nat
  ht_hash_key :: "'k \<Rightarrow> u32"
  ht_cmp_keys :: "'k \<Rightarrow> 'k \<Rightarrow> bool"
  ht_free_key :: bool
  ht_free_value :: bool
  ht_freed_keys :: "'k list"
  ht_freed_values :: "'v list"

definition primes :: "nat list" where
  "primes = [5, 13, 23, 53, 97, 193, 389, 769, 1543, 3079, 6151, 12289, 24593,
    49157, 98317, 196613, 393241, 786433, 1572869, 3145739, 6291469,
    12582917, 25165843, 50331653, 100663319, 201326611, 402653189,
    805306457, 1610612741]"

section \<open>Access to the nodes\<close>

definition live :: "('k, 'v) hashtable \<Rightarrow> ptr \<Rightarrow> bool" where
  "live h p = (case p of ListHead \<Rightarrow> True | PairList n \<Rightarrow> ht_pairs h n \<noteq> None)"

definition get_next :: "('k, 'v) hashtable \<Rightarrow> ptr \<Rightarrow> ptr option" where
  "get_next h p = (if live h p then Some (ht_next h p) else None)"

definition get_prev :: "('k, 'v) hashtable \<Rightarrow> ptr \<Rightarrow> ptr option" where
  "get_prev h p = (if live h p then Some (ht_prev h p) else None)"

definition set_next :: "('k, 'v) hashtable \<Rightarrow> ptr \<Rightarrow> ptr \<Rightarrow> ('k, 'v) hashtable option" where
  "set_next h p q = (if live h p then Some (h\<lparr>ht_next := (ht_next h)(p := q)\<rparr>) else None)"

definition set_prev :: "('k, 'v) hashtable \<Rightarrow> ptr \<Rightarrow> ptr \<Rightarrow> ('k, 'v) hashtable option" where
  "set_prev h p q = (if live h p then Some (h\<lparr>ht_prev := (ht_prev h)(p := q)\<rparr>) else None)"

definition list_to_pair :: "ptr \<Rightarrow> nat option" where
  "list_to_pair p = (case p of ListHead \<Rightarrow> None | PairList n \<Rightarrow> Some n)"

definition list_init :: "('k, 'v) hashtable \<Rightarrow> ptr \<Rightarrow> ('k, 'v) hashtable option" where
  "list_init h l = do {
     h \<leftarrow> set_next h l l;
     set_prev h l l }"

definition list_insert :: "('k, 'v) hashtable \<Rightarrow> ptr \<Rightarrow> ptr \<Rightarrow> ('k, 'v) hashtable option" where
  "list_insert h l node = do {
     h \<leftarrow> set_next h node l;
     p \<leftarrow> get_prev h l;
     h \<leftarrow> set_prev h node p;
     p \<leftarrow> get_prev h l;
     h \<leftarrow> set_next h p node;
     set_prev h l node }"

definition list_remove :: "('k, 'v) hashtable \<Rightarrow> ptr \<Rightarrow> ('k, 'v) hashtable option" where
  "list_remove h l = do {
     p \<leftarrow> get_prev h l;
     n \<leftarrow> get_next h l;
     h \<leftarrow> set_next h p n;
     n \<leftarrow> get_next h l;
     p \<leftarrow> get_prev h l;
     set_prev h n p }"

section \<open>Buckets\<close>

definition bucket_is_empty :: "hashtable_bucket \<Rightarrow> bool" where
  "bucket_is_empty b \<longleftrightarrow> bucket_first b = ListHead \<and> bucket_first b = bucket_last b"

definition insert_to_bucket ::
    "('k, 'v) hashtable \<Rightarrow> nat \<Rightarrow> ptr \<Rightarrow> ('k, 'v) hashtable option" where
  "insert_to_bucket h index l = do {
     bs \<leftarrow> ht_buckets h;
     b \<leftarrow> nth_opt bs index;
     if bucket_is_empty b then do {
       h \<leftarrow> list_insert h ListHead l;
       Some (h\<lparr>ht_buckets := Some (bs[index := \<lparr>bucket_first = l, bucket_last = l\<rparr>])\<rparr>) }
     else do {
       h \<leftarrow> list_insert h (bucket_first b) l;
       Some (h\<lparr>ht_buckets := Some (bs[index := b\<lparr>bucket_first := l\<rparr>])\<rparr>) } }"

definition num_buckets :: "('k, 'v) hashtable \<Rightarrow> nat option" where
  "num_buckets h = nth_opt primes (ht_num_buckets h)"

partial_function (option) find_loop ::
    "('k, 'v) hashtable \<Rightarrow> ptr \<Rightarrow> 'k \<Rightarrow> u32 \<Rightarrow> ptr \<Rightarrow> nat option option" where
  "find_loop h blast key hash l = do {
     n \<leftarrow> list_to_pair l;
     pair \<leftarrow> ht_pairs h n;
     if pair_hash pair = hash \<and> ht_cmp_keys h (pair_key pair) key then Some (Some n)
     else if l = blast then Some None
     else do {
       l' \<leftarrow> get_next h l;
       find_loop h blast key hash l' } }"

declare find_loop.simps [code]

definition hashtable_find_pair ::
    "('k, 'v) hashtable \<Rightarrow> hashtable_bucket \<Rightarrow> 'k \<Rightarrow> u32 \<Rightarrow> nat option option" where
  "hashtable_find_pair h bucket key hash =
     (if bucket_is_empty bucket then Some None
      else find_loop h (bucket_last bucket) key hash (bucket_first bucket))"

text \<open>The calls of \<open>free_key\<close> and \<open>free_value\<close> on a pair, then \<open>free (pair)\<close>.\<close>

definition release_pair :: "('k, 'v) hashtable \<Rightarrow> nat \<Rightarrow> ('k, 'v) hashtable option" where
  "release_pair h n = do {
     pair \<leftarrow> ht_pairs h n;
     Some (h\<lparr>
       ht_freed_keys := ht_freed_keys h @ (if ht_free_key h then [pair_key pair] else []),
       ht_freed_values := ht_freed_values h @ (if ht_free_value h then [pair_value pair] else []),
       ht_pairs := (ht_pairs h)(n := None)\<rparr>) }"

text \<open>The bounds of the bucket once the node \<open>l\<close> has left it.\<close>

definition shrink_bucket ::
    "('k, 'v) hashtable \<Rightarrow> hashtable_bucket \<Rightarrow> ptr \<Rightarrow> hashtable_bucket option" where
  "shrink_bucket h bucket l =
     (if l = bucket_first bucket \<and> l = bucket_last bucket then
        Some \<lparr>bucket_first = ListHead, bucket_last = ListHead\<rparr>
      else if l = bucket_first bucket then do {
        q \<leftarrow> get_next h l;
        Some (bucket\<lparr>bucket_first := q\<rparr>) }
      else if l = bucket_last bucket then do {
        q \<leftarrow> get_prev h l;
        Some (bucket\<lparr>bucket_last := q\<rparr>) }
      else Some bucket)"

definition hashtable_do_del ::
    "('k, 'v) hashtable \<Rightarrow> 'k \<Rightarrow> u32 \<Rightarrow> (('k, 'v) hashtable \<times> int) option" where
  "hashtable_do_del h key hash = do {
     nb \<leftarrow> num_buckets h;
     let index = unat hash mod nb;
     bs \<leftarrow> ht_buckets h;
     bucket \<leftarrow> nth_opt bs index;
     found \<leftarrow> hashtable_find_pair h bucket key hash;
     case found of None \<Rightarrow> Some (h, -1)
     | Some n \<Rightarrow> do {
         bucket \<leftarrow> shrink_bucket h bucket (PairList n);
         let h = h\<lparr>ht_buckets := Some (bs[index := bucket])\<rparr>;
         h \<leftarrow> list_remove h (PairList n);
         h \<leftarrow> release_pair h n;
         Some (h\<lparr>ht_size := ht_size h - 1\<rparr>, 0) } }"

section \<open>Growing the table\<close>

partial_function (option) rehash_loop ::
    "('k, 'v) hashtable \<Rightarrow> nat \<Rightarrow> ptr \<Rightarrow> ('k, 'v) hashtable option" where
  "rehash_loop h new_size l =
     (if l = ListHead then Some h
      else do {
        q \<leftarrow> get_next h l;
        n \<leftarrow> list_to_pair l;
        pair \<leftarrow> ht_pairs h n;
        h \<leftarrow> insert_to_bucket h (unat (pair_hash pair) mod new_size) (PairList n);
        rehash_loop h new_size q })"

declare rehash_loop.simps [code]

definition empty_bucket :: hashtable_bucket where
  "empty_bucket = \<lparr>bucket_first = ListHead, bucket_last = ListHead\<rparr>"

text \<open>\<open>mem\<close> says whether the call of \<open>malloc\<close> for the new array succeeds.\<close>

definition hashtable_do_rehash ::
    "bool \<Rightarrow> ('k, 'v) hashtable \<Rightarrow> (('k, 'v) hashtable \<times> int) option" where
  "hashtable_do_rehash mem h = do {
     let h = h\<lparr>ht_buckets := None, ht_num_buckets := Suc (ht_num_buckets h)\<rparr>;
     new_size \<leftarrow> num_buckets h;
     if \<not> mem then Some (h, -1)
     else do {
       let h = h\<lparr>ht_buckets := Some (replicate new_size empty_bucket)\<rparr>;
       l \<leftarrow> get_next h ListHead;
       h \<leftarrow> list_init h ListHead;
       h \<leftarrow> rehash_loop h new_size l;
       Some (h, 0) } }"

section \<open>The interface\<close>

text \<open>
  \<open>hashtable_init\<close> on a fresh structure; the result \<open>(None, -1)\<close> is its error return. The
  nodes' fields of a table without pairs are only those of the head.
\<close>

definition hashtable_init ::
    "bool \<Rightarrow> ('k \<Rightarrow> u32) \<Rightarrow> ('k \<Rightarrow> 'k \<Rightarrow> bool) \<Rightarrow> bool \<Rightarrow> bool \<Rightarrow>
     (('k, 'v) hashtable option \<times> int) option" where
  "hashtable_init mem hash_key cmp_keys free_key free_value = do {
     nb \<leftarrow> nth_opt primes 0;
     if \<not> mem then Some (None, -1)
     else Some (Some \<lparr>ht_size = 0,
         ht_buckets = Some (replicate nb empty_bucket), ht_num_buckets = 0,
         ht_next = (\<lambda>_. ListHead), ht_prev = (\<lambda>_. ListHead), ht_pairs = Map.empty, ht_brk = 0,
         ht_hash_key = hash_key, ht_cmp_keys = cmp_keys,
         ht_free_key = free_key, ht_free_value = free_value,
         ht_freed_keys = [], ht_freed_values = []\<rparr>, 0) }"

text \<open>\<open>mem1\<close> and \<open>mem2\<close>: the allocations of the table and of its buckets succeed.\<close>

definition hashtable_create ::
    "bool \<Rightarrow> bool \<Rightarrow> ('k \<Rightarrow> u32) \<Rightarrow> ('k \<Rightarrow> 'k \<Rightarrow> bool) \<Rightarrow> bool \<Rightarrow> bool \<Rightarrow>
     ('k, 'v) hashtable option option" where
  "hashtable_create mem1 mem2 hash_key cmp_keys free_key free_value =
     (if \<not> mem1 then Some None
      else do {
        (h, rc) \<leftarrow> hashtable_init mem2 hash_key cmp_keys free_key free_value;
        if rc \<noteq> 0 then Some None else Some h })"

partial_function (option) close_loop ::
    "('k, 'v) hashtable \<Rightarrow> ptr \<Rightarrow> ('k, 'v) hashtable option" where
  "close_loop h l =
     (if l = ListHead then Some h
      else do {
        q \<leftarrow> get_next h l;
        n \<leftarrow> list_to_pair l;
        h \<leftarrow> release_pair h n;
        close_loop h q })"

declare close_loop.simps [code]

definition hashtable_close :: "('k, 'v) hashtable \<Rightarrow> ('k, 'v) hashtable option" where
  "hashtable_close h = do {
     l \<leftarrow> get_next h ListHead;
     h \<leftarrow> close_loop h l;
     Some (h\<lparr>ht_buckets := None\<rparr>) }"

text \<open>\<open>hashtable_destroy\<close> also frees the table: what is left is the trace of the callbacks.\<close>

definition hashtable_destroy :: "('k, 'v) hashtable \<Rightarrow> ('k list \<times> 'v list) option" where
  "hashtable_destroy h = do {
     h \<leftarrow> hashtable_close h;
     Some (ht_freed_keys h, ht_freed_values h) }"

text \<open>The second half of \<open>hashtable_set\<close>: the new pair, once \<open>malloc\<close> has returned it.\<close>

definition add_pair ::
    "('k, 'v) hashtable \<Rightarrow> 'k \<Rightarrow> 'v \<Rightarrow> u32 \<Rightarrow> (('k, 'v) hashtable \<times> int) option" where
  "add_pair h key v hash = do {
     let n = ht_brk h;
     let h = h\<lparr>ht_pairs := (ht_pairs h)(n \<mapsto>
                 \<lparr>pair_key = key, pair_value = v, pair_hash = hash\<rparr>),
               ht_brk := Suc n\<rparr>;
     h \<leftarrow> list_init h (PairList n);
     nb \<leftarrow> num_buckets h;
     h \<leftarrow> insert_to_bucket h (unat hash mod nb) (PairList n);
     Some (h\<lparr>ht_size := ht_size h + 1\<rparr>, 0) }"

text \<open>
  \<open>mem1\<close>: the allocation of a new array of buckets, should one be needed, succeeds;
  \<open>mem2\<close>: that of the pair succeeds.
\<close>

definition hashtable_set ::
    "bool \<Rightarrow> bool \<Rightarrow> ('k, 'v) hashtable \<Rightarrow> 'k \<Rightarrow> 'v \<Rightarrow> (('k, 'v) hashtable \<times> int) option" where
  "hashtable_set mem1 mem2 h key v = do {
     let hash = ht_hash_key h key;
     (h, _) \<leftarrow> hashtable_do_del h key hash;
     nb \<leftarrow> num_buckets h;
     (h, rc) \<leftarrow> (if nb \<le> unat (ht_size h) then hashtable_do_rehash mem1 h else Some (h, 0));
     if rc \<noteq> 0 then Some (h, -1)
     else if \<not> mem2 then Some (h, -1)
     else add_pair h key v hash }"

definition hashtable_get :: "('k, 'v) hashtable \<Rightarrow> 'k \<Rightarrow> 'v option option" where
  "hashtable_get h key = do {
     let hash = ht_hash_key h key;
     nb \<leftarrow> num_buckets h;
     bs \<leftarrow> ht_buckets h;
     bucket \<leftarrow> nth_opt bs (unat hash mod nb);
     found \<leftarrow> hashtable_find_pair h bucket key hash;
     case found of None \<Rightarrow> Some None
     | Some n \<Rightarrow> do {
         pair \<leftarrow> ht_pairs h n;
         Some (Some (pair_value pair)) } }"

definition hashtable_del :: "('k, 'v) hashtable \<Rightarrow> 'k \<Rightarrow> (('k, 'v) hashtable \<times> int) option" where
  "hashtable_del h key = hashtable_do_del h key (ht_hash_key h key)"

text \<open>An iterator is a pointer to a node; the result \<open>Some None\<close> is the null pointer.\<close>

definition hashtable_iter_next :: "('k, 'v) hashtable \<Rightarrow> ptr \<Rightarrow> ptr option option" where
  "hashtable_iter_next h iter = do {
     q \<leftarrow> get_next h iter;
     if q = ListHead then Some None else Some (Some q) }"

definition hashtable_iter :: "('k, 'v) hashtable \<Rightarrow> ptr option option" where
  "hashtable_iter h = hashtable_iter_next h ListHead"

definition hashtable_iter_key :: "('k, 'v) hashtable \<Rightarrow> ptr \<Rightarrow> 'k option" where
  "hashtable_iter_key h iter = do {
     n \<leftarrow> list_to_pair iter;
     pair \<leftarrow> ht_pairs h n;
     Some (pair_key pair) }"

definition hashtable_iter_value :: "('k, 'v) hashtable \<Rightarrow> ptr \<Rightarrow> 'v option" where
  "hashtable_iter_value h iter = do {
     n \<leftarrow> list_to_pair iter;
     pair \<leftarrow> ht_pairs h n;
     Some (pair_value pair) }"

section \<open>Keys that are C strings (\<open>hashtable-utils.c\<close>)\<close>

text \<open>
  A key is the sequence of characters before the terminating zero. \<open>(hash << 5) + hash\<close> and
  the additions wrap around at 32 bits.
\<close>

fun hash_string_loop :: "u32 \<Rightarrow> string \<Rightarrow> u32" where
  "hash_string_loop hash [] = hash"
| "hash_string_loop hash (c # str) =
     (if char_to_uint c = 0 then hash
      else hash_string_loop ((push_bit 5 hash + hash) + char_to_uint c) str)"

definition hash_string :: "string \<Rightarrow> u32" where
  "hash_string key = hash_string_loop 5381 key"

definition string_equal :: "string \<Rightarrow> string \<Rightarrow> bool" where
  "string_equal key1 key2 \<longleftrightarrow> key1 = key2"

end
