(* ===== verification/Hashtable_Rep.thy ===== *)
theory Hashtable_Rep
  imports Hashtable
begin

text \<open>
  The representation invariant of the hash table and what the operations on nodes and
  buckets do under it. \<open>ring\<close> says that the two pointer fields form one circular list
  through the head; \<open>blocks\<close> are the segments of that list that belong to one bucket each;
  \<open>core\<close> says that the bucket array delimits the blocks.
\<close>

section \<open>The ring of nodes\<close>

definition ring_path :: "nat list \<Rightarrow> ptr list" where
  "ring_path L = ListHead # map PairList L @ [ListHead]"

definition ring :: "(ptr \<Rightarrow> ptr) \<Rightarrow> (ptr \<Rightarrow> ptr) \<Rightarrow> nat list \<Rightarrow> bool" where
  "ring nx pv L \<longleftrightarrow> links nx pv (ring_path L) \<and> distinct L"

definition head_of :: "nat list \<Rightarrow> ptr" where
  "head_of L = (case L of [] \<Rightarrow> ListHead | n # _ \<Rightarrow> PairList n)"

lemma head_of_simps [simp]: "head_of [] = ListHead" "head_of (n # L) = PairList n"
  by (simp_all add: head_of_def)

definition back_of :: "nat list \<Rightarrow> ptr" where
  "back_of L = (if L = [] then ListHead else PairList (last L))"

lemma back_of_simps [simp]: "back_of [] = ListHead" "back_of (L @ [n]) = PairList n"
  by (simp_all add: back_of_def)

lemma head_of_append: "S \<noteq> [] \<Longrightarrow> head_of (S @ C) = PairList (hd S)"
  by (cases S) simp_all

lemma back_of_append: "S \<noteq> [] \<Longrightarrow> back_of (A @ S) = PairList (last S)"
  by (simp add: back_of_def)

lemma ring_path_split:
  "\<exists>xs ys. ring_path (A @ C) = xs @ back_of A # head_of C # ys \<and>
     (\<forall>n. ring_path (A @ n # C) = xs @ back_of A # PairList n # head_of C # ys)"
proof (cases A rule: rev_cases)
  case Nil
  then show ?thesis
    by (cases C) (auto simp: ring_path_def)
next
  case (snoc A' a)
  then show ?thesis
    by (cases C) (auto simp: ring_path_def intro: exI [of _ "ListHead # map PairList A'"])
qed

lemma distinct_ring_path:
  assumes "distinct L"
  shows "distinct (butlast (ring_path L))" "distinct (tl (ring_path L))"
proof -
  have "distinct (map PairList L)"
    using assms by (simp add: distinct_map inj_on_def)
  then show "distinct (butlast (ring_path L))" "distinct (tl (ring_path L))"
    by (auto simp: ring_path_def butlast_append)
qed

lemma in_ring_path [simp]:
  "PairList n \<in> set (ring_path L) \<longleftrightarrow> n \<in> set L" "ListHead \<in> set (ring_path L)"
  by (auto simp: ring_path_def)

lemma back_head_in [simp]: "back_of A \<in> set (ring_path (A @ C))" "head_of C \<in> set (ring_path (A @ C))"
  by (auto simp: back_of_def head_of_def split: list.splits)

lemma ring_empty: "ring nx pv [] \<longleftrightarrow> nx ListHead = ListHead \<and> pv ListHead = ListHead"
  by (simp add: ring_def ring_path_def)

lemma ring_join: "ring nx pv (A @ C) \<Longrightarrow> nx (back_of A) = head_of C \<and> pv (head_of C) = back_of A"
  using ring_path_split [of A C] by (auto simp: ring_def links_split2)

lemma ring_first: "ring nx pv L \<Longrightarrow> nx ListHead = head_of L"
  using ring_join [of nx pv "[]" L] by simp

lemma ring_next: "ring nx pv (A @ n # C) \<Longrightarrow> nx (PairList n) = head_of C"
  using ring_join [of nx pv "A @ [n]" C] by simp

lemma ring_prev: "ring nx pv (A @ n # C) \<Longrightarrow> pv (PairList n) = back_of A"
  using ring_join [of nx pv A "n # C"] by simp

lemma ring_insert:
  assumes r: "ring nx pv (A @ C)" and n: "n \<notin> set (A @ C)"
  shows "ring ((nx(PairList n := head_of C))(back_of A := PairList n))
              ((pv(PairList n := back_of A))(head_of C := PairList n)) (A @ n # C)"
proof -
  obtain xs ys where e: "ring_path (A @ C) = xs @ back_of A # head_of C # ys"
    and e': "\<And>n. ring_path (A @ n # C) = xs @ back_of A # PairList n # head_of C # ys"
    using ring_path_split [of A C] by blast
  have "PairList n \<notin> set (ring_path (A @ C))"
    using n by simp
  then show ?thesis
    using r n distinct_ring_path [of "A @ C"]
    by (simp add: ring_def e e' links_insert)
qed

lemma ring_remove:
  assumes r: "ring nx pv (A @ n # C)"
  shows "ring (nx(back_of A := head_of C)) (pv(head_of C := back_of A)) (A @ C)"
proof -
  obtain xs ys where e: "ring_path (A @ C) = xs @ back_of A # head_of C # ys"
    and e': "\<And>n. ring_path (A @ n # C) = xs @ back_of A # PairList n # head_of C # ys"
    using ring_path_split [of A C] by blast
  have "links (nx(back_of A := head_of C)) (pv(head_of C := back_of A)) (xs @ back_of A # head_of C # ys)"
    by (rule links_remove [of _ _ _ _ "PairList n"])
       (use r distinct_ring_path [of "A @ n # C"] in \<open>simp_all add: ring_def e'\<close>)
  then show ?thesis
    using r by (simp add: ring_def e)
qed

section \<open>Insertion and removal of a node\<close>

definition nodes_live :: "('k, 'v) hashtable \<Rightarrow> nat list \<Rightarrow> bool" where
  "nodes_live h L \<longleftrightarrow> set L \<subseteq> dom (ht_pairs h)"

lemma live_simps [simp]:
  "live h ListHead" "live h (PairList n) \<longleftrightarrow> n \<in> dom (ht_pairs h)"
  by (auto simp: live_def)

lemma live_ends [simp]:
  "nodes_live h A \<Longrightarrow> live h (back_of A)" "nodes_live h A \<Longrightarrow> live h (head_of A)"
  by (auto simp: back_of_def head_of_def nodes_live_def live_def split: list.splits dest!: last_in_set)

lemma nodes_live_append [simp]:
  "nodes_live h (A @ C) \<longleftrightarrow> nodes_live h A \<and> nodes_live h C"
  "nodes_live h (n # C) \<longleftrightarrow> n \<in> dom (ht_pairs h) \<and> nodes_live h C"
  by (auto simp: nodes_live_def)

lemma live_update [simp]:
  "live (h\<lparr>ht_next := nx\<rparr>) p = live h p" "live (h\<lparr>ht_prev := pv\<rparr>) p = live h p"
  "live (h\<lparr>ht_buckets := bs\<rparr>) p = live h p"
  by (cases p; simp)+

lemma list_init_run:
  "live h l \<Longrightarrow> list_init h l =
     Some (h\<lparr>ht_next := (ht_next h)(l := l), ht_prev := (ht_prev h)(l := l)\<rparr>)"
  by (simp add: list_init_def set_next_def set_prev_def)

lemma list_insert_run:
  assumes r: "ring (ht_next h) (ht_prev h) (A @ C)" and nl: "nodes_live h (A @ C)"
    and n: "n \<notin> set (A @ C)" "n \<in> dom (ht_pairs h)"
  shows "list_insert h (head_of C) (PairList n) = Some (h\<lparr>
     ht_next := ((ht_next h)(PairList n := head_of C))(back_of A := PairList n),
     ht_prev := ((ht_prev h)(PairList n := back_of A))(head_of C := PairList n)\<rparr>)"
proof -
  have p: "ht_prev h (head_of C) = back_of A"
    using ring_join [OF r] by simp
  have "head_of C \<noteq> PairList n"
    using n(1) by (cases C) auto
  then show ?thesis
    using nl n(2) p
    by (simp add: list_insert_def set_next_def set_prev_def get_prev_def get_next_def)
qed

lemma list_remove_run:
  assumes r: "ring (ht_next h) (ht_prev h) (A @ n # C)" and nl: "nodes_live h (A @ n # C)"
  shows "list_remove h (PairList n) = Some (h\<lparr>
     ht_next := (ht_next h)(back_of A := head_of C),
     ht_prev := (ht_prev h)(head_of C := back_of A)\<rparr>)"
proof -
  have "back_of A \<noteq> PairList n"
    using r by (auto simp: ring_def back_of_def)
  then show ?thesis
    using nl ring_next [OF r] ring_prev [OF r]
    by (simp add: list_remove_def set_next_def set_prev_def get_prev_def get_next_def)
qed

section \<open>Blocks\<close>

type_synonym blocks = "(nat \<times> nat list) list"

definition nodes :: "blocks \<Rightarrow> nat list" where
  "nodes B = concat (map snd B)"

definition blocks_wf :: "(nat \<Rightarrow> nat) \<Rightarrow> nat \<Rightarrow> blocks \<Rightarrow> bool" where
  "blocks_wf ix nb B \<longleftrightarrow> distinct (map fst B) \<and>
     (\<forall>(i, S) \<in> set B. S \<noteq> [] \<and> i < nb \<and> (\<forall>n \<in> set S. ix n = i))"

definition bucket_of :: "blocks \<Rightarrow> nat \<Rightarrow> hashtable_bucket" where
  "bucket_of B i = (case map_of B i of None \<Rightarrow> empty_bucket
     | Some S \<Rightarrow> \<lparr>bucket_first = PairList (hd S), bucket_last = PairList (last S)\<rparr>)"

fun blk_insert :: "nat \<Rightarrow> nat \<Rightarrow> blocks \<Rightarrow> blocks" where
  "blk_insert i n [] = [(i, [n])]"
| "blk_insert i n ((j, S) # B) = (if j = i then (j, n # S) # B else (j, S) # blk_insert i n B)"

fun blk_remove :: "nat \<Rightarrow> nat \<Rightarrow> blocks \<Rightarrow> blocks" where
  "blk_remove i n [] = []"
| "blk_remove i n ((j, S) # B) =
     (if j = i then (if S = [n] then B else (j, remove1 n S) # B) else (j, S) # blk_remove i n B)"

lemma nodes_simps [simp]:
  "nodes [] = []" "nodes ((i, S) # B) = S @ nodes B" "nodes (B @ B') = nodes B @ nodes B'"
  by (simp_all add: nodes_def)

lemma set_nodes: "set (nodes B) = (\<Union>(i, S) \<in> set B. set S)"
  by (auto simp: nodes_def)

lemma blocks_wf_ix: "blocks_wf ix nb B \<Longrightarrow> n \<in> set (nodes B) \<Longrightarrow> ix n < nb"
  by (auto simp: blocks_wf_def nodes_def)

lemma set_blk_insert: "set (nodes (blk_insert i n B)) = insert n (set (nodes B))"
  by (induction i n B rule: blk_insert.induct) auto

lemma length_blk_insert: "length (nodes (blk_insert i n B)) = Suc (length (nodes B))"
  by (induction i n B rule: blk_insert.induct) auto

lemma fst_blk_insert: "fst ` set (blk_insert i n B) = insert i (fst ` set B)"
  by (induction i n B rule: blk_insert.induct) auto

lemma blk_insert_absent: "i \<notin> fst ` set B \<Longrightarrow> blk_insert i n B = B @ [(i, [n])]"
  by (induction i n B rule: blk_insert.induct) auto

lemma blk_insert_present:
  "i \<notin> fst ` set B1 \<Longrightarrow> blk_insert i n (B1 @ (i, S) # B2) = B1 @ (i, n # S) # B2"
  by (induction B1) auto

lemma blk_remove_present:
  "i \<notin> fst ` set B1 \<Longrightarrow> blk_remove i n (B1 @ (i, S) # B2) =
     (if S = [n] then B1 @ B2 else B1 @ (i, remove1 n S) # B2)"
  by (induction B1) auto

lemma blocks_wf_insert:
  assumes "blocks_wf ix nb B" "i < nb" "ix n = i"
  shows "blocks_wf ix nb (blk_insert i n B)"
  using assms
proof (induction i n B rule: blk_insert.induct)
  case (2 i n j S B)
  then show ?case
    using fst_blk_insert [of i n B] by (auto simp: blocks_wf_def)
qed (simp add: blocks_wf_def)

lemma blocks_wf_split:
  assumes "blocks_wf ix nb B" "map_of B i = Some S"
  obtains B1 B2 where "B = B1 @ (i, S) # B2" "i \<notin> fst ` set B1" "i \<notin> fst ` set B2" "S \<noteq> []"
proof -
  obtain B1 B2 where B: "B = B1 @ (i, S) # B2"
    using assms(2) split_list [of "(i, S)" B] map_of_SomeD by metis
  then show ?thesis
    using assms(1) by (intro that [of B1 B2]) (auto simp: blocks_wf_def)
qed

lemma bucket_of_other:
  "i \<noteq> j \<Longrightarrow> bucket_of (blk_insert i n B) j = bucket_of B j"
  by (induction i n B rule: blk_insert.induct) (auto simp: bucket_of_def)

lemma bucket_of_update:
  assumes "i \<noteq> j" "i \<notin> fst ` set B1"
  shows "bucket_of (B1 @ (i, S') # B2) j = bucket_of (B1 @ (i, S) # B2) j"
    and "bucket_of (B1 @ B2) j = bucket_of (B1 @ (i, S) # B2) j"
  using assms by (auto simp: bucket_of_def map_add_def split: option.splits)

lemma bucket_of_present:
  assumes "i \<notin> fst ` set B1"
  shows "bucket_of (B1 @ (i, S) # B2) i =
    \<lparr>bucket_first = PairList (hd S), bucket_last = PairList (last S)\<rparr>"
proof -
  have "map_of B1 i = None"
    using assms by (simp add: map_of_eq_None_iff)
  then show ?thesis
    by (simp add: bucket_of_def map_add_def)
qed

definition same_node_data :: "('k, 'v) hashtable \<Rightarrow> ('k, 'v) hashtable \<Rightarrow> bool" where
  "same_node_data h h' \<longleftrightarrow> (\<exists>nx pv bs. h' = h\<lparr>ht_next := nx, ht_prev := pv, ht_buckets := bs\<rparr>)"

lemma same_node_dataD:
  assumes "same_node_data h h'"
  shows "ht_pairs h' = ht_pairs h" "ht_brk h' = ht_brk h" "ht_size h' = ht_size h"
    "ht_num_buckets h' = ht_num_buckets h" "ht_hash_key h' = ht_hash_key h"
    "ht_cmp_keys h' = ht_cmp_keys h" "ht_free_key h' = ht_free_key h"
    "ht_free_value h' = ht_free_value h" "ht_freed_keys h' = ht_freed_keys h"
    "ht_freed_values h' = ht_freed_values h"
  using assms by (auto simp: same_node_data_def)

lemma same_node_data_refl: "same_node_data h h"
  unfolding same_node_data_def by (intro exI [of _ "ht_next h"] exI [of _ "ht_prev h"] exI [of _ "ht_buckets h"]) simp

lemma same_node_data_trans: "same_node_data h h' \<Longrightarrow> same_node_data h' h'' \<Longrightarrow> same_node_data h h''"
  by (force simp: same_node_data_def)

definition core :: "('k, 'v) hashtable \<Rightarrow> (nat \<Rightarrow> nat) \<Rightarrow> nat \<Rightarrow> blocks \<Rightarrow> bool" where
  "core h ix nb B \<longleftrightarrow> ring (ht_next h) (ht_prev h) (nodes B) \<and> nodes_live h (nodes B) \<and>
     ht_buckets h = Some (map (bucket_of B) [0..<nb]) \<and> blocks_wf ix nb B"

lemma core_bucket: "core h ix nb B \<Longrightarrow> i < nb \<Longrightarrow>
    \<exists>bs. ht_buckets h = Some bs \<and> nth_opt bs i = Some (bucket_of B i) \<and> length bs = nb"
  by (auto simp: core_def nth_opt_def)

lemma bucket_is_empty_of:
  "blocks_wf ix nb B \<Longrightarrow> bucket_is_empty (bucket_of B i) \<longleftrightarrow> map_of B i = None"
  by (auto simp: bucket_of_def bucket_is_empty_def empty_bucket_def split: option.splits)

lemma map_update_bucket:
  "i < nb \<Longrightarrow> b = bucket_of B' i \<Longrightarrow> (\<And>j. j \<noteq> i \<Longrightarrow> bucket_of B' j = bucket_of B j) \<Longrightarrow>
     (map (bucket_of B) [0..<nb])[i := b] = map (bucket_of B') [0..<nb]"
  by (rule nth_equalityI) (auto simp: nth_list_update)

lemma insert_to_bucket_run:
  assumes c: "core h ix nb B" and n: "n \<notin> set (nodes B)" "n \<in> dom (ht_pairs h)"
    and i: "i < nb" "ix n = i"
  obtains h' where "insert_to_bucket h i (PairList n) = Some h'" "core h' ix nb (blk_insert i n B)"
    "same_node_data h h'"
    "\<And>m. m \<noteq> n \<Longrightarrow> m \<notin> set (nodes B) \<Longrightarrow> ht_next h' (PairList m) = ht_next h (PairList m)"
proof -
  have wf: "blocks_wf ix nb B" and r: "ring (ht_next h) (ht_prev h) (nodes B)"
    and nl: "nodes_live h (nodes B)" and bs: "ht_buckets h = Some (map (bucket_of B) [0..<nb])"
    using c by (auto simp: core_def)
  obtain A C where split: "nodes B = A @ C" "nodes (blk_insert i n B) = A @ n # C"
    and ends: "head_of C = (if bucket_is_empty (bucket_of B i) then ListHead else bucket_first (bucket_of B i))"
    and new: "bucket_of (blk_insert i n B) i =
      (if bucket_is_empty (bucket_of B i) then \<lparr>bucket_first = PairList n, bucket_last = PairList n\<rparr>
       else (bucket_of B i)\<lparr>bucket_first := PairList n\<rparr>)"
  proof (cases "map_of B i")
    case None
    then have "i \<notin> fst ` set B"
      by (simp add: map_of_eq_None_iff)
    with None show ?thesis
      by (intro that [of "nodes B" "[]"])
         (auto simp: blk_insert_absent bucket_is_empty_def empty_bucket_def bucket_of_def map_add_def)
  next
    case (Some S)
    then obtain B1 B2 where B: "B = B1 @ (i, S) # B2" "i \<notin> fst ` set B1" "i \<notin> fst ` set B2" "S \<noteq> []"
      using blocks_wf_split [OF wf] by metis
    have b: "bucket_of B i = \<lparr>bucket_first = PairList (hd S), bucket_last = PairList (last S)\<rparr>"
      using Some by (simp add: bucket_of_def)
    have b': "bucket_of (blk_insert i n B) i = \<lparr>bucket_first = PairList n, bucket_last = PairList (last S)\<rparr>"
      using B bucket_of_present by (simp add: blk_insert_present)
    have h: "head_of (S @ nodes B2) = PairList (hd S)"
      using B(4) by (rule head_of_append)
    show ?thesis
      by (rule that [of "nodes B1" "S @ nodes B2"])
         (use B b b' h in \<open>simp_all add: blk_insert_present bucket_is_empty_def\<close>)
  qed
  let ?h1 = "h\<lparr>ht_next := ((ht_next h)(PairList n := head_of C))(back_of A := PairList n),
     ht_prev := ((ht_prev h)(PairList n := back_of A))(head_of C := PairList n)\<rparr>"
  let ?h2 = "?h1\<lparr>ht_buckets := Some (map (bucket_of (blk_insert i n B)) [0..<nb])\<rparr>"
  have li: "list_insert h (head_of C) (PairList n) = Some ?h1"
    using list_insert_run r nl n split by metis
  have upd: "(map (bucket_of B) [0..<nb])[i := bucket_of (blk_insert i n B) i] =
      map (bucket_of (blk_insert i n B)) [0..<nb]"
    by (rule map_update_bucket) (use i bucket_of_other in auto)
  have run: "insert_to_bucket h i (PairList n) = Some ?h2"
    using bs i li ends new upd by (auto simp: insert_to_bucket_def)
  have "ring (ht_next ?h2) (ht_prev ?h2) (nodes (blk_insert i n B))"
    using ring_insert [of "ht_next h" "ht_prev h" A C n] r n split by simp
  moreover have "blocks_wf ix nb (blk_insert i n B)"
    using blocks_wf_insert wf i by blast
  moreover have "nodes_live ?h2 (nodes (blk_insert i n B))"
    using nl n by (auto simp: nodes_live_def set_blk_insert)
  ultimately have "core ?h2 ix nb (blk_insert i n B)"
    by (simp add: core_def)
  moreover have "back_of A \<noteq> PairList m" if "m \<notin> set (nodes B)" for m
    using that split by (auto simp: back_of_def)
  ultimately show ?thesis
    using run by (intro that [of ?h2]) (force simp: same_node_data_def)+
qed

lemma insert_to_bucket_ex:
  assumes "core h ix nb B" "n \<notin> set (nodes B)" "n \<in> dom (ht_pairs h)" "i < nb" "ix n = i"
  shows "\<exists>h'. insert_to_bucket h i (PairList n) = Some h' \<and> core h' ix nb (blk_insert i n B) \<and>
    same_node_data h h' \<and>
    (\<forall>m. m \<noteq> n \<longrightarrow> m \<notin> set (nodes B) \<longrightarrow> ht_next h' (PairList m) = ht_next h (PairList m))"
  by (rule insert_to_bucket_run [OF assms]) blast

end
