(* ===== verification/Hashtable_Correct.thy ===== *)
theory Hashtable_Correct
  imports Hashtable_Rep
begin

text \<open>
  What the operations of the hash table do to its entries: \<open>ht_rep h B\<close> is the full
  representation invariant, \<open>ht_entries\<close> the entries in the order of the iterator, \<open>ht_map\<close>
  the finite map they form. Every operation keeps the invariant and acts on the map as the
  comments of \<open>hashtable.h\<close> promise.
\<close>

section \<open>The invariant\<close>

definition key_of :: "('k, 'v) hashtable \<Rightarrow> nat \<Rightarrow> 'k" where
  "key_of h n = pair_key (the (ht_pairs h n))"

definition ix_of :: "('k, 'v) hashtable \<Rightarrow> nat \<Rightarrow> nat \<Rightarrow> nat" where
  "ix_of h nb n = (case ht_pairs h n of None \<Rightarrow> 0 | Some p \<Rightarrow> unat (pair_hash p) mod nb)"

definition nb_of :: "('k, 'v) hashtable \<Rightarrow> nat" where
  "nb_of h = primes ! ht_num_buckets h"

definition ht_rep :: "('k, 'v) hashtable \<Rightarrow> blocks \<Rightarrow> bool" where
  "ht_rep h B \<longleftrightarrow> ht_num_buckets h < length primes \<and>
     core h (ix_of h (nb_of h)) (nb_of h) B \<and> dom (ht_pairs h) = set (nodes B) \<and>
     (\<forall>n \<in> dom (ht_pairs h). n < ht_brk h) \<and>
     unat (ht_size h) = length (nodes B) \<and> length (nodes B) \<le> nb_of h \<and>
     ht_cmp_keys h = (=) \<and>
     (\<forall>n p. ht_pairs h n = Some p \<longrightarrow> pair_hash p = ht_hash_key h (pair_key p)) \<and>
     inj_on (key_of h) (dom (ht_pairs h))"

definition ht_wf :: "('k, 'v) hashtable \<Rightarrow> bool" where
  "ht_wf h \<longleftrightarrow> (\<exists>B. ht_rep h B)"

definition same_config :: "('k, 'v) hashtable \<Rightarrow> ('k, 'v) hashtable \<Rightarrow> bool" where
  "same_config h h' \<longleftrightarrow> ht_hash_key h' = ht_hash_key h \<and> ht_cmp_keys h' = ht_cmp_keys h \<and>
     ht_free_key h' = ht_free_key h \<and> ht_free_value h' = ht_free_value h"

lemma length_primes [simp]: "length primes = 29"
  by (simp add: primes_def)

lemma primes_sorted: "sorted_wrt (<) primes"
  by (simp add: primes_def)

lemma primes_less: "i < j \<Longrightarrow> j < 29 \<Longrightarrow> primes ! i < primes ! j"
  using sorted_wrt_nth_less [OF primes_sorted] by simp

lemma primes_last: "primes ! 28 = 1610612741"
  by (simp add: primes_def)

lemma primes_le: "i < 29 \<Longrightarrow> primes ! i \<le> 1610612741"
  using primes_less [of i 28] primes_last by (cases "i = 28") auto

lemma primes_pos: "i < 29 \<Longrightarrow> 0 < primes ! i"
  using primes_less [of 0 i] by (cases "i = 0") (auto simp: primes_def)

lemma num_buckets_eq: "ht_num_buckets h < 29 \<Longrightarrow> num_buckets h = Some (nb_of h)"
  by (simp add: num_buckets_def nb_of_def)

lemma ht_repD:
  assumes "ht_rep h B"
  shows "ht_num_buckets h < 29" "num_buckets h = Some (nb_of h)" "0 < nb_of h"
    "nb_of h \<le> 1610612741"
    "core h (ix_of h (nb_of h)) (nb_of h) B" "dom (ht_pairs h) = set (nodes B)"
    "unat (ht_size h) = length (nodes B)" "length (nodes B) \<le> nb_of h" "ht_cmp_keys h = (=)"
    "inj_on (key_of h) (dom (ht_pairs h))"
  using assms by (auto simp: ht_rep_def num_buckets_eq nb_of_def primes_pos primes_le)

lemma blocks_wf_cong:
  "blocks_wf ix nb B \<Longrightarrow> (\<And>n. n \<in> set (nodes B) \<Longrightarrow> ix' n = ix n) \<Longrightarrow> blocks_wf ix' nb B"
  by (fastforce simp: blocks_wf_def nodes_def)

section \<open>Searching a bucket\<close>

definition hit :: "('k, 'v) hashtable \<Rightarrow> 'k \<Rightarrow> u32 \<Rightarrow> nat \<Rightarrow> bool" where
  "hit h key hash n = (case ht_pairs h n of None \<Rightarrow> False
     | Some p \<Rightarrow> pair_hash p = hash \<and> ht_cmp_keys h (pair_key p) key)"

lemma links_append: "links nx pv (xs @ ys) \<Longrightarrow> links nx pv xs \<and> links nx pv ys"
proof (induction nx pv xs rule: links.induct)
  case (2 nx pv x)
  then show ?case by (cases ys) auto
qed auto

lemma ring_segment: "ring nx pv (A @ S @ C) \<Longrightarrow> links nx pv (map PairList S)"
  using links_append [of nx pv "ListHead # map PairList A" "map PairList S @ map PairList C @ [ListHead]"]
    links_append [of nx pv "map PairList S" "map PairList C @ [ListHead]"]
  by (simp add: ring_def ring_path_def)

lemma find_loop_run:
  assumes "T \<noteq> []" "links (ht_next h) (ht_prev h) (map PairList T)" "nodes_live h T" "distinct T"
  shows "find_loop h (PairList (last T)) key hash (PairList (hd T)) = Some (find (hit h key hash) T)"
  using assms
proof (induction T)
  case Nil
  then show ?case by simp
next
  case (Cons n T)
  then obtain p where p: "ht_pairs h n = Some p"
    by (auto simp: nodes_live_def)
  show ?case
  proof (cases T)
    case Nil
    then show ?thesis
      by (subst find_loop.simps) (simp add: p list_to_pair_def hit_def)
  next
    case (Cons m T')
    then have "ht_next h (PairList n) = PairList m" and "n \<noteq> last T"
      using Cons.prems last_in_set [of T] by auto
    moreover have "find_loop h (PairList (last T)) key hash (PairList m) = Some (find (hit h key hash) T)"
      using Cons.IH Cons.prems Cons by simp
    ultimately show ?thesis
      using Cons p domI [of "ht_pairs h" n p] by (subst find_loop.simps) (simp add: list_to_pair_def hit_def get_next_def)
  qed
qed

lemma find_Some_hit: "find P xs = Some x \<Longrightarrow> x \<in> set xs \<and> P x"
  by (auto simp: find_Some_iff)

lemma hit_key:
  assumes "ht_rep h B" "n \<in> dom (ht_pairs h)"
  shows "hit h key (ht_hash_key h key) n \<longleftrightarrow> key_of h n = key"
proof -
  obtain p where "ht_pairs h n = Some p"
    using assms(2) by auto
  then show ?thesis
    using assms(1) by (auto simp: hit_def ht_rep_def key_of_def)
qed

lemma key_ix:
  assumes "ht_rep h B" "n \<in> dom (ht_pairs h)" "key_of h n = key"
  shows "ix_of h (nb_of h) n = unat (ht_hash_key h key) mod nb_of h"
proof -
  obtain p where "ht_pairs h n = Some p"
    using assms(2) by auto
  then show ?thesis
    using assms(1,3) by (auto simp: ix_of_def ht_rep_def key_of_def)
qed

lemma ht_rep_block:
  assumes r: "ht_rep h B" and n: "n \<in> set (nodes B)"
  obtains S where "map_of B (ix_of h (nb_of h) n) = Some S" "n \<in> set S"
proof -
  have wf: "blocks_wf (ix_of h (nb_of h)) (nb_of h) B"
    using ht_repD(5) [OF r] by (simp add: core_def)
  obtain i S where S: "(i, S) \<in> set B" "n \<in> set S"
    using n by (auto simp: nodes_def)
  then have "ix_of h (nb_of h) n = i" and "map_of B i = Some S"
    using wf by (auto simp: blocks_wf_def)
  then show ?thesis
    using S(2) that by simp
qed

lemma find_pair_run:
  assumes r: "ht_rep h B"
  obtains found where
    "hashtable_find_pair h (bucket_of B (unat (ht_hash_key h key) mod nb_of h)) key (ht_hash_key h key) = Some found"
    "found = None \<Longrightarrow> key \<notin> key_of h ` dom (ht_pairs h)"
    "\<And>n. found = Some n \<Longrightarrow> n \<in> dom (ht_pairs h) \<and> key_of h n = key \<and>
       (\<exists>S. map_of B (unat (ht_hash_key h key) mod nb_of h) = Some S \<and> n \<in> set S)"
proof -
  let ?i = "unat (ht_hash_key h key) mod nb_of h"
  let ?hash = "ht_hash_key h key"
  have c: "core h (ix_of h (nb_of h)) (nb_of h) B" and d: "dom (ht_pairs h) = set (nodes B)"
    using ht_repD [OF r] by auto
  then have wf: "blocks_wf (ix_of h (nb_of h)) (nb_of h) B"
    and rg: "ring (ht_next h) (ht_prev h) (nodes B)" and nl: "nodes_live h (nodes B)"
    by (auto simp: core_def)
  have absent: "key_of h n = key \<Longrightarrow> n \<in> dom (ht_pairs h) \<Longrightarrow> \<exists>S. map_of B ?i = Some S \<and> n \<in> set S" for n
    using ht_rep_block [OF r, of n] key_ix [OF r, of n key] d by metis
  show ?thesis
  proof (cases "map_of B ?i")
    case None
    then have "hashtable_find_pair h (bucket_of B ?i) key ?hash = Some None"
      using bucket_is_empty_of [OF wf] by (simp add: hashtable_find_pair_def)
    then show ?thesis
      using None absent by (intro that [of None]) auto
  next
    case (Some S)
    then obtain B1 B2 where B: "B = B1 @ (?i, S) # B2" "?i \<notin> fst ` set B1" "S \<noteq> []"
      using blocks_wf_split [OF wf] by metis
    have "\<not> bucket_is_empty (bucket_of B ?i)"
      and "bucket_of B ?i = \<lparr>bucket_first = PairList (hd S), bucket_last = PairList (last S)\<rparr>"
      using Some bucket_is_empty_of [OF wf, of ?i] by (simp_all add: bucket_of_def)
    then have "hashtable_find_pair h (bucket_of B ?i) key ?hash =
        find_loop h (PairList (last S)) key ?hash (PairList (hd S))"
      by (simp add: hashtable_find_pair_def)
    also have "\<dots> = Some (find (hit h key ?hash) S)"
    proof (rule find_loop_run)
      have n: "nodes B = nodes B1 @ S @ nodes B2"
        using B(1) by (metis nodes_simps(2) nodes_simps(3))
      then show "links (ht_next h) (ht_prev h) (map PairList S)"
        using rg ring_segment [of _ _ "nodes B1" S "nodes B2"] by simp
      show "nodes_live h S" "distinct S"
        using n rg nl by (auto simp: ring_def)
      show "S \<noteq> []"
        by fact
    qed
    finally have run: "hashtable_find_pair h (bucket_of B ?i) key ?hash = Some (find (hit h key ?hash) S)" .
    have S: "set S \<subseteq> dom (ht_pairs h)"
      unfolding d by (subst B(1)) auto
    show ?thesis
    proof (rule that [OF run])
      assume "find (hit h key ?hash) S = None"
      then have "\<forall>n \<in> set S. \<not> hit h key ?hash n"
        by (simp add: find_None_iff)
      then show "key \<notin> key_of h ` dom (ht_pairs h)"
        using absent Some hit_key [OF r] S by fastforce
    next
      fix n assume "find (hit h key ?hash) S = Some n"
      then have "n \<in> set S \<and> hit h key ?hash n"
        by (rule find_Some_hit)
      then show "n \<in> dom (ht_pairs h) \<and> key_of h n = key \<and> (\<exists>S. map_of B ?i = Some S \<and> n \<in> set S)"
        using Some S hit_key [OF r] by auto
    qed
  qed
qed

lemma find_pair_ex:
  assumes "ht_rep h B"
  shows "\<exists>found.
    hashtable_find_pair h (bucket_of B (unat (ht_hash_key h key) mod nb_of h)) key (ht_hash_key h key) = Some found \<and>
    (found = None \<longrightarrow> key \<notin> key_of h ` dom (ht_pairs h)) \<and>
    (\<forall>n. found = Some n \<longrightarrow> n \<in> dom (ht_pairs h) \<and> key_of h n = key \<and>
       (\<exists>S. map_of B (unat (ht_hash_key h key) mod nb_of h) = Some S \<and> n \<in> set S))"
  by (rule find_pair_run [OF assms, of key]) blast

section \<open>Deletion\<close>

text \<open>The bucket that \<open>hashtable_do_del\<close> writes back is the one of the remaining block.\<close>

lemma bucket_after_del:
  assumes d: "distinct (S1 @ n # S2)" and i: "i \<notin> fst ` set B1" "i \<notin> fst ` set B2"
    and b: "b = \<lparr>bucket_first = PairList (hd (S1 @ n # S2)), bucket_last = PairList (last (S1 @ n # S2))\<rparr>"
    and nx: "get_next h (PairList n) = Some (head_of (S2 @ C))"
    and pv: "get_prev h (PairList n) = Some (back_of (A @ S1))"
  shows "shrink_bucket h b (PairList n) = Some (bucket_of (blk_remove i n (B1 @ (i, S1 @ n # S2) # B2)) i)"
proof -
  have r1: "remove1 n (S1 @ n # S2) = S1 @ S2"
    using d by (simp add: remove1_append)
  have absent: "bucket_of (B1 @ B2) i = empty_bucket"
  proof -
    have "map_of B1 i = None" "map_of B2 i = None"
      using i by (simp_all add: map_of_eq_None_iff)
    then show ?thesis
      by (simp add: bucket_of_def map_add_def)
  qed
  have rest: "bucket_of (B1 @ (i, S1 @ S2) # B2) i =
      \<lparr>bucket_first = PairList (hd (S1 @ S2)), bucket_last = PairList (last (S1 @ S2))\<rparr>"
    by (rule bucket_of_present [OF i(1)])
  have sing: "S1 @ n # S2 = [n] \<longleftrightarrow> S1 = [] \<and> S2 = []"
    using d by (cases S1) auto
  consider "S1 = []" "S2 = []" | "S1 = []" "S2 \<noteq> []" | "S1 \<noteq> []" "S2 = []" | "S1 \<noteq> []" "S2 \<noteq> []"
    by blast
  then show ?thesis
  proof cases
    case 1
    then show ?thesis
      using i by (simp add: shrink_bucket_def blk_remove_present absent b empty_bucket_def)
  next
    case 2
    then have "n \<noteq> last S2" and "head_of (S2 @ C) = PairList (hd S2)"
      using d last_in_set [of S2] by (auto simp: head_of_append)
    then show ?thesis
      using 2 i nx rest by (simp add: shrink_bucket_def blk_remove_present b)
  next
    case 3
    then have "n \<noteq> hd S1" and "back_of (A @ S1) = PairList (last S1)"
      using d hd_in_set [of S1] by (auto simp: back_of_append)
    then show ?thesis
      using 3 i pv rest r1 sing by (simp add: shrink_bucket_def blk_remove_present b)
  next
    case 4
    then have "n \<noteq> hd S1" and "n \<noteq> last S2"
      using d hd_in_set [of S1] last_in_set [of S2] by auto
    then show ?thesis
      using 4 i rest r1 sing by (simp add: shrink_bucket_def blk_remove_present b)
  qed
qed

lemma blocks_wf_remove:
  assumes wf: "blocks_wf ix nb (B1 @ (i, S) # B2)"
  shows "blocks_wf ix nb (blk_remove i n (B1 @ (i, S) # B2))"
proof -
  have i: "i \<notin> fst ` set B1"
    using wf by (auto simp: blocks_wf_def)
  have "remove1 n S = [] \<Longrightarrow> n \<in> set S \<Longrightarrow> S = [n]"
    by (cases S) (auto split: if_splits)
  then have "S \<noteq> [n] \<Longrightarrow> S \<noteq> [] \<Longrightarrow> remove1 n S \<noteq> []"
    using remove1_idem by metis
  then show ?thesis
    using wf set_remove1_subset [of n S]
    by (auto simp: blk_remove_present [OF i] blocks_wf_def)
qed

definition without_pair :: "('k, 'v) hashtable \<Rightarrow> nat \<Rightarrow> ('k, 'v) hashtable \<Rightarrow> bool" where
  "without_pair h n h' \<longleftrightarrow> same_config h h' \<and> ht_pairs h' = (ht_pairs h)(n := None) \<and>
     ht_brk h' = ht_brk h \<and> ht_num_buckets h' = ht_num_buckets h \<and>
     ht_freed_keys h' = ht_freed_keys h @ (if ht_free_key h then [key_of h n] else []) \<and>
     ht_freed_values h' = ht_freed_values h @
       (if ht_free_value h then [pair_value (the (ht_pairs h n))] else [])"

text \<open>
  Deleting a pair, in parts: the table afterwards, whose ring is \<open>A @ C\<close> instead of \<open>A @ n # C\<close>; that it is a
  table again; and that \<open>hashtable_do_del\<close> computes it.
\<close>

definition unlinked :: "('k, 'v) hashtable \<Rightarrow> blocks \<Rightarrow> nat \<Rightarrow> nat list \<Rightarrow> nat list \<Rightarrow>
    ('k, 'v) hashtable_pair \<Rightarrow> ('k, 'v) hashtable" where
  "unlinked h B' n A C p = h\<lparr>
     ht_buckets := Some (map (bucket_of B') [0..<nb_of h]),
     ht_next := (ht_next h)(back_of A := head_of C), ht_prev := (ht_prev h)(head_of C := back_of A),
     ht_freed_keys := ht_freed_keys h @ (if ht_free_key h then [pair_key p] else []),
     ht_freed_values := ht_freed_values h @ (if ht_free_value h then [pair_value p] else []),
     ht_pairs := (ht_pairs h)(n := None), ht_size := ht_size h - 1\<rparr>"

lemma unlinked_fields:
  "ht_num_buckets (unlinked h B' n A C p) = ht_num_buckets h" "ht_brk (unlinked h B' n A C p) = ht_brk h"
  "ht_size (unlinked h B' n A C p) = ht_size h - 1" "ht_cmp_keys (unlinked h B' n A C p) = ht_cmp_keys h"
  "ht_hash_key (unlinked h B' n A C p) = ht_hash_key h" "nb_of (unlinked h B' n A C p) = nb_of h"
  "ht_pairs (unlinked h B' n A C p) = (ht_pairs h)(n := None)"
  "ht_buckets (unlinked h B' n A C p) = Some (map (bucket_of B') [0..<nb_of h])"
  "ht_next (unlinked h B' n A C p) = (ht_next h)(back_of A := head_of C)"
  "ht_prev (unlinked h B' n A C p) = (ht_prev h)(head_of C := back_of A)"
  "m \<noteq> n \<Longrightarrow> key_of (unlinked h B' n A C p) m = key_of h m"
  "m \<noteq> n \<Longrightarrow> ix_of (unlinked h B' n A C p) k m = ix_of h k m"
  by (simp_all add: unlinked_def nb_of_def key_of_def ix_of_def)

lemma unlinked_rep:
  assumes r: "ht_rep h B" and nB: "nodes B = A @ n # C" "nodes B' = A @ C"
    and wf: "blocks_wf (ix_of h (nb_of h)) (nb_of h) B'"
  shows "ht_rep (unlinked h B' n A C p) B'"
proof -
  let ?h = "unlinked h B' n A C p" and ?nb = "nb_of h"
  note f = unlinked_fields
  have rg: "ring (ht_next h) (ht_prev h) (nodes B)" and dm: "dom (ht_pairs h) = set (nodes B)"
    using ht_repD [OF r] by (auto simp: core_def)
  have dist: "distinct (A @ n # C)"
    using rg by (simp add: nB ring_def)
  have "blocks_wf (ix_of ?h ?nb) ?nb B'"
    using wf by (rule blocks_wf_cong, intro f) (use dist in \<open>auto simp: nB\<close>)
  moreover have "ring (ht_next ?h) (ht_prev ?h) (nodes B')"
    using ring_remove rg unfolding f nB by blast
  moreover have dm': "dom (ht_pairs ?h) = set (nodes B')"
    using dm dist by (auto simp: nB f)
  ultimately have c': "core ?h (ix_of ?h ?nb) ?nb B'"
    by (simp add: core_def f nodes_live_def)
  have "ht_size h \<noteq> 0"
    using ht_repD(7) [OF r] by (intro notI) (simp add: nB)
  then have sz: "unat (ht_size ?h) = length (nodes B')" and len: "length (nodes B') \<le> ?nb"
    using ht_repD(7,8) [OF r] unat_minus_one [of "ht_size h"] by (simp_all add: nB f)
  have "inj_on (key_of h) (set (nodes B'))"
    using ht_repD(10) [OF r] dm by (rule_tac inj_on_subset) (auto simp: nB)
  then have keys: "inj_on (key_of ?h) (set (nodes B'))"
    by (rule inj_on_cong [THEN iffD1, rotated], intro f(11) [symmetric]) (use dist in \<open>auto simp: nB\<close>)
  show ?thesis
    unfolding ht_rep_def dm' f(6)
    using r c' sz len keys dm' unfolding ht_rep_def f(7) by (auto simp: f split: if_splits)
qed

lemma without_pair_unlinked:
  "ht_pairs h n = Some p \<Longrightarrow> without_pair h n (unlinked h B' n A C p)"
  by (simp add: without_pair_def same_config_def unlinked_def key_of_def)

lemma unlink_release:
  assumes "ring (ht_next h) (ht_prev h) (A @ n # C)" "nodes_live h (A @ n # C)" "ht_pairs h n = Some p"
  shows "\<exists>h'. list_remove (h\<lparr>ht_buckets := Some (map (bucket_of B') [0..<nb_of h])\<rparr>) (PairList n) = Some h' \<and>
    map_option (\<lambda>h. h\<lparr>ht_size := ht_size h - 1\<rparr>) (release_pair h' n) = Some (unlinked h B' n A C p)"
  using list_remove_run [of "h\<lparr>ht_buckets := Some (map (bucket_of B') [0..<nb_of h])\<rparr>" A n C] assms
  by (simp add: nodes_live_def release_pair_def unlinked_def)

lemma do_del_found:
  assumes r: "ht_rep h B" and n: "n \<in> dom (ht_pairs h)" and k: "key_of h n = key"
  obtains h' B' where "hashtable_do_del h key (ht_hash_key h key) = Some (h', 0)"
    "ht_rep h' B'" "without_pair h n h'"
proof -
  let ?i = "unat (ht_hash_key h key) mod nb_of h" and ?nb = "nb_of h"
  obtain found where run: "hashtable_find_pair h (bucket_of B ?i) key (ht_hash_key h key) = Some found"
    and no: "found = None \<longrightarrow> key \<notin> key_of h ` dom (ht_pairs h)"
    and yes: "\<forall>n. found = Some n \<longrightarrow> n \<in> dom (ht_pairs h) \<and> key_of h n = key \<and>
       (\<exists>S. map_of B ?i = Some S \<and> n \<in> set S)"
    using find_pair_ex [OF r, of key] by blast
  have found: "found = Some n"
    using no yes n k ht_repD(10) [OF r] by (cases found) (auto dest: inj_onD)
  then obtain S where S: "map_of B ?i = Some S" "n \<in> set S"
    using yes by blast
  have wf: "blocks_wf (ix_of h ?nb) ?nb B" and rg: "ring (ht_next h) (ht_prev h) (nodes B)" and i: "?i < ?nb"
    and nl: "nodes_live h (nodes B)" and bs: "ht_buckets h = Some (map (bucket_of B) [0..<?nb])"
    using ht_repD [OF r] by (auto simp: core_def)
  obtain B1 B2 where B: "B = B1 @ (?i, S) # B2" and i12: "?i \<notin> fst ` set B1" "?i \<notin> fst ` set B2"
    using blocks_wf_split [OF wf S(1)] by metis
  obtain S1 S2 where S12: "S = S1 @ n # S2"
    using S(2) by (auto simp: in_set_conv_decomp)
  let ?A = "nodes B1 @ S1" and ?C = "S2 @ nodes B2"
  have nB: "nodes B = ?A @ n # ?C"
    by (subst B) (simp add: S12)
  have dS: "distinct (S1 @ n # S2)"
    using rg by (auto simp: nB ring_def)
  define B' where "B' = blk_remove ?i n B"
  have nB': "nodes B' = ?A @ ?C"
    using dS unfolding B'_def by (subst B) (auto simp: blk_remove_present i12 S12 remove1_append append_eq_Cons_conv)
  have bo: "bucket_of B ?i = \<lparr>bucket_first = PairList (hd (S1 @ n # S2)), bucket_last = PairList (last (S1 @ n # S2))\<rparr>"
    using S(1) by (simp add: bucket_of_def S12)
  have other: "bucket_of B' j = bucket_of B j" if "j \<noteq> ?i" for j
    unfolding B'_def using that bucket_of_update [of ?i j B1] i12 by (subst (1 2) B) (simp add: blk_remove_present)
  have B12: "B' = blk_remove ?i n (B1 @ (?i, S1 @ n # S2) # B2)"
    unfolding B'_def S12 [symmetric] by (subst B) (rule refl)
  have nx: "get_next h (PairList n) = Some (head_of ?C)" and pv: "get_prev h (PairList n) = Some (back_of ?A)"
    using nl ring_next [OF rg [unfolded nB]] ring_prev [OF rg [unfolded nB]]
    by (auto simp: nB get_next_def get_prev_def)
  note new = bucket_after_del [OF dS i12 bo nx pv, folded B12]
  obtain p where p: "ht_pairs h n = Some p"
    using n by auto
  have set1: "(map (bucket_of B) [0..<?nb])[?i := bucket_of B' ?i] = map (bucket_of B') [0..<?nb]"
    by (rule map_update_bucket) (use i other in auto)
  have "hashtable_do_del h key (ht_hash_key h key) = Some (unlinked h B' n ?A ?C p, 0)"
    using unlink_release [OF rg [unfolded nB] nl [unfolded nB] p, of B'] ht_repD(2) [OF r] i bs run found new
    by (auto simp: hashtable_do_del_def set1)
  moreover have "blocks_wf (ix_of h ?nb) ?nb B'"
    using wf blocks_wf_remove [of _ _ B1 ?i S B2 n] unfolding B'_def by (metis B)
  ultimately show ?thesis
    using unlinked_rep [OF r nB nB'] without_pair_unlinked [OF p] by (blast intro: that)
qed

lemma do_del_absent:
  assumes r: "ht_rep h B" and k: "key \<notin> key_of h ` dom (ht_pairs h)"
  shows "hashtable_do_del h key (ht_hash_key h key) = Some (h, -1)"
proof -
  let ?i = "unat (ht_hash_key h key) mod nb_of h"
  have "hashtable_find_pair h (bucket_of B ?i) key (ht_hash_key h key) = Some None"
    using find_pair_ex [OF r, of key] k by (metis image_eqI option.exhaust)
  moreover have "ht_buckets h = Some (map (bucket_of B) [0..<nb_of h])" and "?i < nb_of h"
    using ht_repD [OF r] by (auto simp: core_def)
  ultimately show ?thesis
    using ht_repD(2) [OF r] by (simp add: hashtable_do_del_def)
qed

section \<open>Growing the table\<close>

primrec chain :: "(ptr \<Rightarrow> ptr) \<Rightarrow> nat list \<Rightarrow> bool" where
  "chain nx [] \<longleftrightarrow> True"
| "chain nx (n # L) \<longleftrightarrow> nx (PairList n) = head_of L \<and> chain nx L"

lemma chain_cong: "(\<And>n. n \<in> set L \<Longrightarrow> nx' (PairList n) = nx (PairList n)) \<Longrightarrow> chain nx L \<Longrightarrow> chain nx' L"
  by (induction L) auto

lemma ring_chain: "ring nx pv (A @ L) \<Longrightarrow> chain nx L"
proof (induction L arbitrary: A)
  case (Cons n L)
  then show ?case
    using ring_next [of nx pv A n L] Cons.IH [of "A @ [n]"] by simp
qed simp

definition regroup :: "(nat \<Rightarrow> nat) \<Rightarrow> blocks \<Rightarrow> nat list \<Rightarrow> blocks" where
  "regroup ix B L = foldl (\<lambda>B n. blk_insert (ix n) n B) B L"

lemma regroup_simps [simp]:
  "regroup ix B [] = B" "regroup ix B (n # L) = regroup ix (blk_insert (ix n) n B) L"
  by (simp_all add: regroup_def)

lemma set_regroup: "set (nodes (regroup ix B L)) = set (nodes B) \<union> set L"
  by (induction L arbitrary: B) (auto simp: set_blk_insert)

lemma length_regroup: "length (nodes (regroup ix B L)) = length (nodes B) + length L"
  by (induction L arbitrary: B) (auto simp: length_blk_insert)

lemma rehash_loop_run:
  assumes "core h ix nb B" "distinct L" "set L \<inter> set (nodes B) = {}" "set L \<subseteq> dom (ht_pairs h)"
    "chain (ht_next h) L" "\<And>n. n \<in> set L \<Longrightarrow> ix n = ix_of h nb n" "0 < nb"
  shows "\<exists>h'. rehash_loop h nb (head_of L) = Some h' \<and> core h' ix nb (regroup ix B L) \<and> same_node_data h h'"
  using assms
proof (induction L arbitrary: h B)
  case Nil
  then show ?case
    by (subst rehash_loop.simps) (auto simp: same_node_data_refl)
next
  case (Cons n L)
  obtain p where p: "ht_pairs h n = Some p"
    using Cons.prems(4) by auto
  then have ix: "ix n = unat (pair_hash p) mod nb"
    using Cons.prems(6) [of n] by (simp add: ix_of_def)
  have "ix n < nb"
    using ix Cons.prems(7) by simp
  moreover have "n \<notin> set (nodes B)" and "n \<in> dom (ht_pairs h)"
    using Cons.prems by auto
  ultimately obtain h1 where h1: "insert_to_bucket h (ix n) (PairList n) = Some h1"
      "core h1 ix nb (blk_insert (ix n) n B)" and same: "same_node_data h h1"
    and nx: "\<forall>m. m \<noteq> n \<longrightarrow> m \<notin> set (nodes B) \<longrightarrow> ht_next h1 (PairList m) = ht_next h (PairList m)"
    using insert_to_bucket_ex [OF Cons.prems(1), of n "ix n"] by blast
  note sd = same_node_dataD [OF same]
  have "\<exists>h'. rehash_loop h1 nb (head_of L) = Some h' \<and>
      core h' ix nb (regroup ix (blk_insert (ix n) n B) L) \<and> same_node_data h1 h'"
  proof (rule Cons.IH [OF h1(2)])
    show "chain (ht_next h1) L"
      by (rule chain_cong [of _ _ "ht_next h"]) (use nx Cons.prems(2,3,5) in \<open>auto simp: disjoint_iff\<close>)
  qed (use Cons.prems sd in \<open>auto simp: set_blk_insert ix_of_def\<close>)
  then obtain h' where h': "rehash_loop h1 nb (head_of L) = Some h'"
    "core h' ix nb (regroup ix (blk_insert (ix n) n B) L)" "same_node_data h1 h'"
    by blast
  have "rehash_loop h nb (PairList n) = rehash_loop h1 nb (head_of L)"
    using Cons.prems p h1 ix by (subst rehash_loop.simps) (auto simp: get_next_def list_to_pair_def)
  then show ?case
    using h' same_node_data_trans [OF same] by auto
qed

lemma do_rehash_run:
  assumes r: "ht_rep h B" and room: "Suc (ht_num_buckets h) < 29"
  shows "\<exists>h' B'. hashtable_do_rehash True h = Some (h', 0) \<and> ht_rep h' B' \<and> same_config h h' \<and>
    ht_pairs h' = ht_pairs h \<and> ht_brk h' = ht_brk h \<and> ht_size h' = ht_size h \<and>
    ht_num_buckets h' = Suc (ht_num_buckets h) \<and>
    ht_freed_keys h' = ht_freed_keys h \<and> ht_freed_values h' = ht_freed_values h"
proof -
  define nb where "nb = primes ! Suc (ht_num_buckets h)"
  have nb: "nb_of h < nb" "0 < nb"
    using primes_less [of "ht_num_buckets h" "Suc (ht_num_buckets h)"] room
    by (auto simp: nb_def nb_of_def)
  define h0 where "h0 = h\<lparr>ht_num_buckets := Suc (ht_num_buckets h), ht_buckets := Some (replicate nb empty_bucket)\<rparr>"
  define h1 where "h1 = h0\<lparr>ht_next := (ht_next h)(ListHead := ListHead), ht_prev := (ht_prev h)(ListHead := ListHead)\<rparr>"
  have rg: "ring (ht_next h) (ht_prev h) (nodes B)" and dm: "dom (ht_pairs h) = set (nodes B)"
    using ht_repD [OF r] by (auto simp: core_def)
  have li: "list_init h0 ListHead = Some h1"
    by (simp add: list_init_run h1_def h0_def)
  have fst: "get_next h0 ListHead = Some (head_of (nodes B))"
    using ring_first [OF rg] by (simp add: get_next_def h0_def)
  let ?ix = "ix_of h nb"
  have "bucket_of [] = (\<lambda>_. empty_bucket)"
    by (simp add: fun_eq_iff bucket_of_def)
  then have "core h1 ?ix nb []"
    by (simp add: core_def ring_empty h1_def h0_def nodes_live_def blocks_wf_def map_replicate_const)
  moreover have "chain (ht_next h1) (nodes B)"
    by (rule chain_cong [of _ _ "ht_next h"]) (use ring_chain [of _ _ "[]"] rg in \<open>auto simp: h1_def h0_def\<close>)
  ultimately obtain h2 where h2: "rehash_loop h1 nb (head_of (nodes B)) = Some h2"
      "core h2 ?ix nb (regroup ?ix [] (nodes B))" "same_node_data h1 h2"
    using rehash_loop_run [of h1 ?ix nb "[]" "nodes B"] rg dm nb
    by (auto simp: ring_def h1_def h0_def ix_of_def)
  note sd = same_node_dataD [OF h2(3)]
  have pairs: "ht_pairs h2 = ht_pairs h" and num: "ht_num_buckets h2 = Suc (ht_num_buckets h)"
    and nb2: "nb_of h2 = nb"
    using sd by (auto simp: h1_def h0_def nb_of_def nb_def)
  have ix2: "ix_of h2 nb = ?ix" and key2: "key_of h2 = key_of h"
    by (simp_all add: fun_eq_iff ix_of_def key_of_def pairs)
  have run: "hashtable_do_rehash True h = Some (h2, 0)"
    using room fst li h2(1) by (simp add: hashtable_do_rehash_def num_buckets_def nb_def [symmetric] Let_def h0_def)
  have "ht_rep h2 (regroup ?ix [] (nodes B))"
    using r h2(2) room nb unfolding ht_rep_def nb2 ix2 key2
    by (auto simp: pairs num sd h1_def h0_def set_regroup length_regroup)
  then show ?thesis
    using run sd pairs num by (auto simp: same_config_def h1_def h0_def)
qed

section \<open>Insertion\<close>

text \<open>The table with a new node that is in no list yet.\<close>

definition with_node :: "('k, 'v) hashtable \<Rightarrow> ('k, 'v) hashtable_pair \<Rightarrow> ('k, 'v) hashtable" where
  "with_node h p = (let n = ht_brk h in h\<lparr>ht_pairs := (ht_pairs h)(n \<mapsto> p), ht_brk := Suc n,
     ht_next := (ht_next h)(PairList n := PairList n), ht_prev := (ht_prev h)(PairList n := PairList n)\<rparr>)"

lemma list_init_with_node:
  "list_init (h\<lparr>ht_pairs := (ht_pairs h)(ht_brk h \<mapsto> p), ht_brk := Suc (ht_brk h)\<rparr>) (PairList (ht_brk h)) =
     Some (with_node h p)"
  by (simp add: list_init_run with_node_def Let_def)

lemma with_node_ring:
  assumes "ring (ht_next h) (ht_prev h) ns" "ht_brk h \<notin> set ns"
  shows "ring (ht_next (with_node h p)) (ht_prev (with_node h p)) ns"
proof -
  have "links (ht_next (with_node h p)) (ht_prev (with_node h p)) (ring_path ns) = links (ht_next h) (ht_prev h) (ring_path ns)"
    by (rule links_frame) (use assms(2) in \<open>auto simp: with_node_def ring_path_def Let_def dest!: in_set_butlastD\<close>)
  then show ?thesis
    using assms(1) by (simp add: ring_def)
qed

lemma with_node_core:
  assumes "core h (ix_of h nb) nb B" "ht_brk h \<notin> set (nodes B)"
  shows "core (with_node h p) (ix_of (with_node h p) nb) nb B"
proof -
  have "blocks_wf (ix_of (with_node h p) nb) nb B"
    by (rule blocks_wf_cong [of "ix_of h nb"])
       (use assms in \<open>auto simp: core_def ix_of_def with_node_def Let_def\<close>)
  then show ?thesis
    using assms with_node_ring [of h "nodes B" p] by (auto simp: core_def nodes_live_def with_node_def Let_def)
qed

lemma insert_fresh:
  assumes r: "ht_rep h B" and k: "key \<notin> key_of h ` dom (ht_pairs h)" and sz: "length (nodes B) < nb_of h"
  shows "\<exists>h' B'. add_pair h key v (ht_hash_key h key) = Some (h', 0) \<and>
     ht_rep h' B' \<and> same_config h h' \<and>
     ht_pairs h' = (ht_pairs h)(ht_brk h \<mapsto> \<lparr>pair_key = key, pair_value = v, pair_hash = ht_hash_key h key\<rparr>) \<and>
     ht_freed_keys h' = ht_freed_keys h \<and> ht_freed_values h' = ht_freed_values h"
proof -
  let ?n = "ht_brk h" and ?i = "unat (ht_hash_key h key) mod nb_of h" and ?nb = "nb_of h"
  let ?p = "\<lparr>pair_key = key, pair_value = v, pair_hash = ht_hash_key h key\<rparr>"
  let ?h2 = "with_node h ?p"
  note rD = ht_repD [OF r]
  have n: "?n \<notin> dom (ht_pairs h)"
    using r by (auto simp: ht_rep_def)
  then have nB: "?n \<notin> set (nodes B)"
    using rD(6) by simp
  have "ix_of ?h2 ?nb ?n = ?i" "?n \<in> dom (ht_pairs ?h2)"
    by (simp_all add: ix_of_def with_node_def Let_def)
  then obtain h3 where h3: "insert_to_bucket ?h2 ?i (PairList ?n) = Some h3"
      "core h3 (ix_of ?h2 ?nb) ?nb (blk_insert ?i ?n B)" and same: "same_node_data ?h2 h3"
    using insert_to_bucket_ex [OF with_node_core [OF rD(5) nB, of ?p], of ?n ?i] nB rD(3) by auto
  note sd = same_node_dataD [OF same]
  define h' where "h' = h3\<lparr>ht_size := ht_size h3 + 1\<rparr>"
  have f: "ht_num_buckets h' = ht_num_buckets h" "ht_brk h' = Suc ?n" "ht_size h' = ht_size h + 1"
    "ht_cmp_keys h' = ht_cmp_keys h" "ht_hash_key h' = ht_hash_key h" "same_config h h'"
    "ht_freed_keys h' = ht_freed_keys h" "ht_freed_values h' = ht_freed_values h"
    "ht_pairs h' = (ht_pairs h)(?n \<mapsto> ?p)" "nb_of h' = ?nb" "ix_of h' ?nb = ix_of ?h2 ?nb"
    using sd by (simp_all add: h'_def with_node_def same_config_def nb_of_def Let_def ix_of_def fun_eq_iff)
  have sz3: "unat (ht_size h') = Suc (length (nodes B))"
    using rD(4,7) sz by (simp add: f unat_word_ariths)
  have c': "core h' (ix_of h' ?nb) ?nb (blk_insert ?i ?n B)"
    using h3(2) by (simp add: core_def nodes_live_def f(11)) (simp add: h'_def)
  have keys: "inj_on (key_of h') (insert ?n (set (nodes B)))"
    using rD(6,10) k n by (auto simp: inj_on_def key_of_def f image_iff)
  have "ht_rep h' (blk_insert ?i ?n B)"
    using r c' sz sz3 keys unfolding ht_rep_def f(10)
    by (auto simp: f set_blk_insert length_blk_insert less_SucI split: if_splits)
  moreover have "num_buckets ?h2 = Some ?nb"
    using rD(2) by (simp add: num_buckets_def with_node_def Let_def)
  then have "add_pair h key v (ht_hash_key h key) = Some (h', 0)"
    using h3(1) unfolding add_pair_def Let_def list_init_with_node h'_def by simp
  ultimately show ?thesis
    using f by blast
qed

end
