(* ===== verification/Hashtable_Spec.thy ===== *)
theory Hashtable_Spec
  imports Hashtable_Correct
begin

text \<open>
  The contract of the hash table as its clients use it. \<open>ht_entries\<close> reads all entries with
  the iterator functions, \<open>ht_map\<close> is the finite map they form. The facts here discharge
  the locale \<open>dictionary\<close> of the theory \<open>Dictionary\<close>, which states the promises of \<open>hashtable.h\<close> about
  \<open>set\<close>, \<open>get\<close>, \<open>del\<close> and the iterator for the other components.
\<close>

section \<open>Iterating over a table\<close>

text \<open>The loop every client runs: start at \<open>hashtable_iter\<close>, advance until NULL.\<close>

partial_function (option) ht_iterate :: "('k, 'v) hashtable \<Rightarrow> ptr option \<Rightarrow> ('k \<times> 'v) list option" where
  "ht_iterate h it = (case it of None \<Rightarrow> Some []
     | Some p \<Rightarrow> do {
         k \<leftarrow> hashtable_iter_key h p;
         v \<leftarrow> hashtable_iter_value h p;
         it' \<leftarrow> hashtable_iter_next h p;
         r \<leftarrow> ht_iterate h it';
         Some ((k, v) # r) })"

declare ht_iterate.simps [code]

definition ht_entries :: "('k, 'v) hashtable \<Rightarrow> ('k \<times> 'v) list" where
  "ht_entries h = (case hashtable_iter h \<bind> ht_iterate h of None \<Rightarrow> [] | Some r \<Rightarrow> r)"

definition ht_map :: "('k, 'v) hashtable \<Rightarrow> 'k \<Rightarrow> 'v option" where
  "ht_map h = map_of (ht_entries h)"

definition entry_of :: "('k, 'v) hashtable \<Rightarrow> nat \<Rightarrow> 'k \<times> 'v" where
  "entry_of h n = (pair_key (the (ht_pairs h n)), pair_value (the (ht_pairs h n)))"

definition iter_at :: "nat list \<Rightarrow> ptr option" where
  "iter_at L = (case L of [] \<Rightarrow> None | n # _ \<Rightarrow> Some (PairList n))"

lemma iter_next_at:
  "live h p \<Longrightarrow> ht_next h p = head_of L \<Longrightarrow> hashtable_iter_next h p = Some (iter_at L)"
  by (cases L) (simp_all add: hashtable_iter_next_def get_next_def iter_at_def)

lemma iterate_chain:
  assumes "chain (ht_next h) L" "nodes_live h L"
  shows "ht_iterate h (iter_at L) = Some (map (entry_of h) L)"
  using assms
proof (induction L)
  case Nil
  then show ?case
    by (subst ht_iterate.simps) (simp add: iter_at_def)
next
  case (Cons n L)
  then obtain p where "ht_pairs h n = Some p"
    by auto
  then show ?case
    using Cons iter_next_at [of h "PairList n" L]
    by (subst ht_iterate.simps)
       (simp add: iter_at_def hashtable_iter_key_def hashtable_iter_value_def list_to_pair_def entry_of_def domI)
qed

lemma iter_start: "ht_rep h B \<Longrightarrow> hashtable_iter h = Some (iter_at (nodes B))"
  using ring_first [of "ht_next h" "ht_prev h" "nodes B"]
  by (simp add: hashtable_iter_def iter_next_at ht_rep_def core_def)

lemma ht_entries_rep:
  assumes "ht_rep h B"
  shows "ht_entries h = map (entry_of h) (nodes B)"
    and "hashtable_iter h \<bind> ht_iterate h = Some (ht_entries h)"
proof -
  have "chain (ht_next h) (nodes B)" "nodes_live h (nodes B)"
    using assms ring_chain [of "ht_next h" "ht_prev h" "[]" "nodes B"] by (auto simp: ht_rep_def core_def)
  then have "hashtable_iter h \<bind> ht_iterate h = Some (map (entry_of h) (nodes B))"
    using iterate_chain iter_start [OF assms] by simp
  then show "ht_entries h = map (entry_of h) (nodes B)"
    and "hashtable_iter h \<bind> ht_iterate h = Some (ht_entries h)"
    by (simp_all add: ht_entries_def)
qed

lemma distinct_keys_rep:
  assumes "ht_rep h B"
  shows "distinct (map fst (ht_entries h))"
proof -
  have "map fst (ht_entries h) = map (key_of h) (nodes B)"
    using ht_entries_rep(1) [OF assms] by (simp add: entry_of_def key_of_def)
  then show ?thesis
    using assms by (auto simp: distinct_map ht_rep_def core_def ring_def)
qed

lemma ht_map_iff:
  assumes "ht_rep h B"
  shows "ht_map h k = Some v \<longleftrightarrow> (\<exists>n p. ht_pairs h n = Some p \<and> pair_key p = k \<and> pair_value p = v)"
proof -
  have "ht_map h k = Some v \<longleftrightarrow> (k, v) \<in> set (ht_entries h)"
    unfolding ht_map_def by (rule map_of_eq_Some_iff [OF distinct_keys_rep [OF assms]])
  also have "\<dots> \<longleftrightarrow> (\<exists>n \<in> dom (ht_pairs h). entry_of h n = (k, v))"
    using ht_entries_rep(1) [OF assms] ht_repD(6) [OF assms] by (auto simp: image_iff) metis
  also have "\<dots> \<longleftrightarrow> (\<exists>n p. ht_pairs h n = Some p \<and> pair_key p = k \<and> pair_value p = v)"
    by (simp add: entry_of_def Bex_def dom_def) (metis option.sel option.exhaust_sel)
  finally show ?thesis .
qed

lemma ht_map_None:
  assumes "ht_rep h B"
  shows "ht_map h k = None \<longleftrightarrow> k \<notin> key_of h ` dom (ht_pairs h)"
proof
  assume "ht_map h k = None"
  then show "k \<notin> key_of h ` dom (ht_pairs h)"
    using ht_map_iff [OF assms, of k] unfolding key_of_def by (auto simp: domIff; metis)
next
  assume "k \<notin> key_of h ` dom (ht_pairs h)"
  then show "ht_map h k = None"
    using ht_map_iff [OF assms, of k] by (cases "ht_map h k") (force simp: key_of_def)+
qed

section \<open>The operations on the map\<close>

lemma ht_map_present:
  assumes r: "ht_rep h B" and n: "n \<in> dom (ht_pairs h)" and k: "key_of h n = k"
  shows "ht_map h k = Some (pair_value (the (ht_pairs h n)))"
  using n k by (auto simp: ht_map_iff [OF r] key_of_def intro!: exI [of _ n])

lemma hashtable_get_map:
  assumes "ht_wf h"
  shows "hashtable_get h key = Some (ht_map h key)"
proof -
  obtain B where r: "ht_rep h B"
    using assms by (auto simp: ht_wf_def)
  let ?i = "unat (ht_hash_key h key) mod nb_of h"
  obtain found where f: "hashtable_find_pair h (bucket_of B ?i) key (ht_hash_key h key) = Some found"
    and no: "found = None \<longrightarrow> key \<notin> key_of h ` dom (ht_pairs h)"
    and yes: "\<forall>n. found = Some n \<longrightarrow> n \<in> dom (ht_pairs h) \<and> key_of h n = key \<and>
       (\<exists>S. map_of B ?i = Some S \<and> n \<in> set S)"
    using find_pair_ex [OF r, of key] by blast
  have "ht_buckets h = Some (map (bucket_of B) [0..<nb_of h])" and "?i < nb_of h"
    using ht_repD [OF r] by (auto simp: core_def)
  then have run: "hashtable_get h key = (case found of None \<Rightarrow> Some None
      | Some n \<Rightarrow> ht_pairs h n \<bind> (\<lambda>pair. Some (Some (pair_value pair))))"
    using ht_repD(2) [OF r] f by (simp add: hashtable_get_def)
  show ?thesis
  proof (cases found)
    case None
    then show ?thesis
      using run no ht_map_None [OF r, of key] by simp
  next
    case (Some n)
    then show ?thesis
      using run yes ht_map_present [OF r, of n key] by (auto simp: domIff)
  qed
qed

text \<open>The callbacks that an operation runs on the entry of \<open>key\<close>, if there is one.\<close>

definition released :: "bool \<Rightarrow> 'a option \<Rightarrow> 'a list" where
  "released flag x = (case x of Some a \<Rightarrow> if flag then [a] else [] | None \<Rightarrow> [])"

lemma released_None [simp]: "released flag None = []"
  by (simp add: released_def)

definition drops :: "('k, 'v) hashtable \<Rightarrow> 'k \<Rightarrow> ('k, 'v) hashtable \<Rightarrow> bool" where
  "drops h key h' \<longleftrightarrow> same_config h h' \<and>
     ht_freed_keys h' = ht_freed_keys h @ released (ht_free_key h) (map_option (\<lambda>_. key) (ht_map h key)) \<and>
     ht_freed_values h' = ht_freed_values h @ released (ht_free_value h) (ht_map h key)"

lemma without_pair_map:
  assumes r: "ht_rep h B" "ht_rep h' B'" and n: "n \<in> dom (ht_pairs h)" and k: "key_of h n = key"
    and w: "without_pair h n h'"
  shows "ht_map h' = (ht_map h)(key := None)" and "drops h key h'"
proof -
  have p: "ht_pairs h' = (ht_pairs h)(n := None)"
    using w by (simp add: without_pair_def)
  have inj: "inj_on (key_of h) (dom (ht_pairs h))"
    by (rule ht_repD(10) [OF r(1)])
  have "ht_map h' k' = Some v \<longleftrightarrow> k' \<noteq> key \<and> ht_map h k' = Some v" for k' v
  proof -
    have "key_of h m = key \<longleftrightarrow> m = n" if "m \<in> dom (ht_pairs h)" for m
      using inj that n k by (auto dest: inj_onD)
    then have "pair_key q = key \<longleftrightarrow> m = n" if "ht_pairs h m = Some q" for m q
      using that by (fastforce simp: key_of_def)
    then show ?thesis
      unfolding ht_map_iff [OF r(1)] ht_map_iff [OF r(2)] p by (auto split: if_splits)
  qed
  then have "ht_map h' k' = ((ht_map h)(key := None)) k'" for k'
    by (intro option_eqI) auto
  then show "ht_map h' = (ht_map h)(key := None)"
    by (rule ext)
  show "drops h key h'"
    using w ht_map_present [OF r(1) n k] k by (auto simp: drops_def without_pair_def released_def)
qed

lemma hashtable_del_map:
  assumes "ht_wf h"
  shows "\<exists>h'. hashtable_del h key = Some (h', if ht_map h key = None then -1 else 0) \<and> ht_wf h' \<and>
    ht_map h' = (ht_map h)(key := None) \<and> drops h key h' \<and>
    ht_num_buckets h' = ht_num_buckets h"
proof -
  obtain B where r: "ht_rep h B"
    using assms by (auto simp: ht_wf_def)
  show ?thesis
  proof (cases "key \<in> key_of h ` dom (ht_pairs h)")
    case True
    then obtain n where n: "n \<in> dom (ht_pairs h)" "key_of h n = key"
      by auto
    obtain h' B' where d: "hashtable_do_del h key (ht_hash_key h key) = Some (h', 0)" "ht_rep h' B'"
      "without_pair h n h'"
      by (rule do_del_found [OF r n])
    then show ?thesis
      using without_pair_map [OF r d(2) n d(3)] ht_map_present [OF r n]
      by (auto simp: hashtable_del_def ht_wf_def without_pair_def)
  next
    case False
    then have "ht_map h key = None"
      using ht_map_None [OF r] by blast
    then show ?thesis
      using do_del_absent [OF r False] assms
      by (auto simp: hashtable_del_def drops_def same_config_def fun_upd_idem)
  qed
qed

text \<open>The table can take one more entry: it is below the last size of \<open>primes\<close>.\<close>

definition ht_room :: "('k, 'v) hashtable \<Rightarrow> bool" where
  "ht_room h \<longleftrightarrow> length (ht_entries h) < 1610612741"

lemma do_del_run:
  assumes r: "ht_rep h B"
  shows "\<exists>h' B' rc. hashtable_do_del h key (ht_hash_key h key) = Some (h', rc) \<and> ht_rep h' B' \<and>
    ht_map h' = (ht_map h)(key := None) \<and> drops h key h' \<and>
    length (nodes B') \<le> length (nodes B) \<and> ht_num_buckets h' = ht_num_buckets h"
proof (cases "key \<in> key_of h ` dom (ht_pairs h)")
  case True
  then obtain n where n: "n \<in> dom (ht_pairs h)" "key_of h n = key"
    by auto
  obtain h' B' where d: "hashtable_do_del h key (ht_hash_key h key) = Some (h', 0)" "ht_rep h' B'"
    "without_pair h n h'"
    by (rule do_del_found [OF r n])
  have "set (nodes B') \<subseteq> set (nodes B)" and "distinct (nodes B')" "distinct (nodes B)"
    using d(3) ht_repD(5,6) [OF d(2)] ht_repD(5,6) [OF r]
    by (auto simp: without_pair_def core_def ring_def)
  then have "length (nodes B') \<le> length (nodes B)"
    by (metis List.finite_set card_mono distinct_card)
  then show ?thesis
    using d without_pair_map [OF r d(2) n d(3)] by (auto simp: without_pair_def)
next
  case False
  then show ?thesis
    using do_del_absent [OF r False] r ht_map_None [OF r, of key]
    by (auto simp: drops_def same_config_def fun_upd_idem intro!: exI [of _ B])
qed

lemma rehash_if_full:
  assumes r: "ht_rep h B" and room: "length (nodes B) < 1610612741"
  shows "\<exists>h' B'. (if nb_of h \<le> unat (ht_size h) then hashtable_do_rehash True h else Some (h, 0)) = Some (h', 0) \<and>
    ht_rep h' B' \<and> same_config h h' \<and> ht_pairs h' = ht_pairs h \<and> ht_brk h' = ht_brk h \<and>
    length (nodes B') < nb_of h' \<and> ht_freed_keys h' = ht_freed_keys h \<and> ht_freed_values h' = ht_freed_values h"
proof (cases "nb_of h \<le> unat (ht_size h)")
  case True
  have "ht_num_buckets h \<noteq> 28"
    using True room ht_repD(7) [OF r] primes_last by (auto simp: nb_of_def)
  then have "Suc (ht_num_buckets h) < 29"
    using ht_repD(1) [OF r] by simp
  then obtain h' B' where d: "hashtable_do_rehash True h = Some (h', 0)" "ht_rep h' B'" "same_config h h'"
    "ht_pairs h' = ht_pairs h" "ht_brk h' = ht_brk h" "ht_size h' = ht_size h"
    "ht_num_buckets h' = Suc (ht_num_buckets h)"
    "ht_freed_keys h' = ht_freed_keys h" "ht_freed_values h' = ht_freed_values h"
    using do_rehash_run [OF r] by blast
  have "nb_of h < nb_of h'"
    using d(7) primes_less ht_repD(1) [OF d(2)] by (simp add: nb_of_def)
  then show ?thesis
    using True d ht_repD(7,8) [OF r] ht_repD(7) [OF d(2)] by auto
next
  case False
  then show ?thesis
    using r ht_repD(7) [OF r] by (auto simp: same_config_def)
qed

lemma hashtable_set_run:
  assumes r: "ht_rep h B" and room: "length (nodes B) < 1610612741"
  shows "\<exists>h' B'. hashtable_set True True h key v = Some (h', 0) \<and> ht_rep h' B' \<and>
    ht_map h' = (ht_map h)(key \<mapsto> v) \<and> drops h key h'"
proof -
  obtain h1 B1 rc where d: "hashtable_do_del h key (ht_hash_key h key) = Some (h1, rc)" "ht_rep h1 B1"
    "ht_map h1 = (ht_map h)(key := None)" "drops h key h1" "length (nodes B1) \<le> length (nodes B)"
    using do_del_run [OF r, of key] by blast
  obtain h2 B2 where g: "(if nb_of h1 \<le> unat (ht_size h1) then hashtable_do_rehash True h1 else Some (h1, 0)) = Some (h2, 0)"
    "ht_rep h2 B2" "same_config h1 h2" "ht_pairs h2 = ht_pairs h1" "length (nodes B2) < nb_of h2"
    "ht_freed_keys h2 = ht_freed_keys h1" "ht_freed_values h2 = ht_freed_values h1"
    using rehash_if_full [OF d(2)] d(5) room by auto
  have m2: "ht_map h2 k = ht_map h1 k" for k
    by (rule option_eqI) (simp add: ht_map_iff [OF g(2)] ht_map_iff [OF d(2)] g(4))
  have abs: "key \<notin> key_of h2 ` dom (ht_pairs h2)"
    using ht_map_None [OF g(2), of key] m2 [of key] d(3) by simp
  have hk: "ht_hash_key h2 = ht_hash_key h"
    using g(3) d(4) by (simp add: drops_def same_config_def)
  obtain h' B' where i: "add_pair h2 key v (ht_hash_key h2 key) = Some (h', 0)"
    "ht_rep h' B'" "same_config h2 h'"
    "ht_pairs h' = (ht_pairs h2)(ht_brk h2 \<mapsto> \<lparr>pair_key = key, pair_value = v, pair_hash = ht_hash_key h2 key\<rparr>)"
    "ht_freed_keys h' = ht_freed_keys h2" "ht_freed_values h' = ht_freed_values h2"
    using insert_fresh [OF g(2) abs g(5)] by blast
  have "hashtable_set True True h key v = Some (h', 0)"
    using d(1) ht_repD(2) [OF d(2)] g(1) i(1) hk by (simp add: hashtable_set_def)
  moreover have "ht_map h' = (ht_map h)(key \<mapsto> v)"
  proof
    fix k
    have n: "ht_brk h2 \<notin> dom (ht_pairs h2)"
      using g(2) by (auto simp: ht_rep_def)
    have "ht_map h' k = Some w \<longleftrightarrow> (if k = key then w = v else ht_map h2 k = Some w)" for w
    proof -
      have "pair_key p \<noteq> key" if "ht_pairs h2 m = Some p" for m p
        using abs that by (force simp: key_of_def)
      then show ?thesis
        unfolding ht_map_iff [OF i(2)] ht_map_iff [OF g(2)] i(4) ex_map_upd [OF n] by auto
    qed
    then show "ht_map h' k = ((ht_map h)(key \<mapsto> v)) k"
      using m2 [of k] d(3) by (intro option_eqI) auto
  qed
  moreover have "drops h key h'"
    using d(4) g i by (simp add: drops_def same_config_def)
  ultimately show ?thesis
    using i(2) by blast
qed

lemma hashtable_set_map:
  assumes "ht_wf h" "ht_room h"
  shows "\<exists>h'. hashtable_set True True h key v = Some (h', 0) \<and> ht_wf h' \<and>
    ht_map h' = (ht_map h)(key \<mapsto> v) \<and> drops h key h'"
proof -
  obtain B where r: "ht_rep h B"
    using assms by (auto simp: ht_wf_def)
  then have "length (nodes B) < 1610612741"
    using assms(2) ht_entries_rep(1) [OF r] by (simp add: ht_room_def)
  then show ?thesis
    using hashtable_set_run [OF r, of key v] by (auto simp: ht_wf_def)
qed

end
