(* ===== verification/Dictionary.thy ===== *)
theory Dictionary
  imports Hashtable_Spec
begin

text \<open>
  The interface of the hash table for its clients (the application, the plugin loader, the
  connection manager and the local server): a locale with the operations they call and the
  promises of \<open>hashtable.h\<close>, the clients' lemmas proved once from these promises, and the
  interpretation on the model of \<open>hashtable.c\<close>.
\<close>

section \<open>The interface\<close>

primrec set_seq :: "('t \<Rightarrow> 'k \<Rightarrow> 'v \<Rightarrow> ('t \<times> int) option) \<Rightarrow> 't \<Rightarrow> ('k \<times> 'v) list \<Rightarrow> 't option" where
  "set_seq f t [] = Some t"
| "set_seq f t (kv # kvs) = do {
     (t, _) \<leftarrow> f t (fst kv) (snd kv);
     set_seq f t kvs }"

locale dictionary =
  fixes tget :: "'t \<Rightarrow> 'k \<Rightarrow> 'v option option"
    and tset :: "'t \<Rightarrow> 'k \<Rightarrow> 'v \<Rightarrow> ('t \<times> int) option"
    and tdel :: "'t \<Rightarrow> 'k \<Rightarrow> ('t \<times> int) option"
    and tmap :: "'t \<Rightarrow> 'k \<Rightarrow> 'v option"
    and wf :: "'t \<Rightarrow> bool"
    and cap :: nat
  assumes get_law: "wf t \<Longrightarrow> tget t k = Some (tmap t k)"
    and set_law: "wf t \<Longrightarrow> card (dom (tmap t)) < cap \<Longrightarrow>
      \<exists>t'. tset t k v = Some (t', 0) \<and> wf t' \<and> tmap t' = (tmap t)(k \<mapsto> v)"
    and del_law: "wf t \<Longrightarrow>
      \<exists>t'. tdel t k = Some (t', if tmap t k = None then -1 else 0) \<and> wf t' \<and> tmap t' = (tmap t)(k := None)"
    and finite_law: "wf t \<Longrightarrow> finite (dom (tmap t))"
begin

lemma get_after_set:
  assumes "wf t" "card (dom (tmap t)) < cap" "tset t k v = Some (t', rc)"
  shows "rc = 0 \<and> wf t' \<and> tget t' k' = Some (if k' = k then Some v else tmap t k')"
  using set_law [OF assms(1,2), of k v] assms(3) get_law by auto

lemma get_after_del:
  assumes "wf t" "tdel t k = Some (t', rc)"
  shows "wf t' \<and> tget t' k' = Some (if k' = k then None else tmap t k')"
  using del_law [OF assms(1), of k] assms(2) get_law by auto

lemma card_after_set: "wf t \<Longrightarrow> tmap t' = (tmap t)(k \<mapsto> v) \<Longrightarrow> card (dom (tmap t')) \<le> Suc (card (dom (tmap t)))"
  using finite_law [of t] by (simp add: card_insert_if)

lemma set_seq_law:
  assumes "wf t" "card (dom (tmap t)) + length kvs \<le> cap"
  shows "\<exists>t'. set_seq tset t kvs = Some t' \<and> wf t' \<and> tmap t' = tmap t ++ map_of (rev kvs)"
  using assms
proof (induction kvs arbitrary: t)
  case Nil
  then show ?case by simp
next
  case (Cons kv kvs)
  then obtain t' where t': "tset t (fst kv) (snd kv) = Some (t', 0)" "wf t'"
    "tmap t' = (tmap t)(fst kv \<mapsto> snd kv)"
    using set_law [of t "fst kv" "snd kv"] by auto
  have "card (dom (tmap t')) + length kvs \<le> cap"
    using card_after_set [OF Cons.prems(1) t'(3)] Cons.prems(2) by simp
  then obtain t'' where "set_seq tset t' kvs = Some t''" "wf t''" "tmap t'' = tmap t' ++ map_of (rev kvs)"
    using Cons.IH [OF t'(2)] by blast
  then show ?case
    using t' by (cases kv) (auto simp: map_add_def fun_eq_iff split: option.splits)
qed

end

text \<open>A dictionary whose entries can be enumerated, as the iterator does.\<close>

locale iterable_dictionary = dictionary +
  fixes entries :: "'a \<Rightarrow> ('b \<times> 'c) list"
  assumes entries_map: "wf t \<Longrightarrow> map_of (entries t) = tmap t"
    and entries_distinct: "wf t \<Longrightarrow> distinct (map fst (entries t))"
begin

lemma in_entries: "wf t \<Longrightarrow> (k, v) \<in> set (entries t) \<longleftrightarrow> tmap t k = Some v"
  using entries_map entries_distinct map_of_eq_Some_iff by metis

lemma keys_entries: "wf t \<Longrightarrow> set (map fst (entries t)) = dom (tmap t)"
  using entries_map [of t] dom_map_of_conv_image_fst [of "entries t"] by simp

lemma length_entries: "wf t \<Longrightarrow> length (entries t) = card (dom (tmap t))"
  using keys_entries [of t] entries_distinct [of t] distinct_card by (metis length_map)

lemma get_iff_entry: "wf t \<Longrightarrow> tget t k = Some (Some v) \<longleftrightarrow> (k, v) \<in> set (entries t)"
  using in_entries get_law by auto

end

section \<open>The hash table provides it\<close>

definition fresh_table :: "('k \<Rightarrow> u32) \<Rightarrow> bool \<Rightarrow> bool \<Rightarrow> ('k, 'v) hashtable" where
  "fresh_table hash_key free_key free_value =
     \<lparr>ht_size = 0, ht_buckets = Some (replicate 5 empty_bucket), ht_num_buckets = 0,
      ht_next = (\<lambda>_. ListHead), ht_prev = (\<lambda>_. ListHead), ht_pairs = Map.empty, ht_brk = 0,
      ht_hash_key = hash_key, ht_cmp_keys = (=),
      ht_free_key = free_key, ht_free_value = free_value, ht_freed_keys = [], ht_freed_values = []\<rparr>"

lemma create_fresh:
  "hashtable_create True True hash_key (=) free_key free_value = Some (Some (fresh_table hash_key free_key free_value))"
  by (simp add: hashtable_create_def hashtable_init_def fresh_table_def primes_def)

lemma string_equal_eq: "string_equal = (=)"
  by (simp add: fun_eq_iff string_equal_def)

lemma fresh_rep: "ht_rep (fresh_table hash_key free_key free_value) []"
proof -
  have "bucket_of [] = (\<lambda>_. empty_bucket)"
    by (simp add: fun_eq_iff bucket_of_def)
  then show ?thesis
    by (simp add: ht_rep_def fresh_table_def core_def nb_of_def primes_def ring_empty nodes_live_def
        blocks_wf_def map_replicate_const)
qed

lemma fresh_wf: "ht_wf (fresh_table hash_key free_key free_value)"
  using fresh_rep by (auto simp: ht_wf_def)

lemma fresh_entries: "ht_entries (fresh_table hash_key free_key free_value) = []"
  using ht_entries_rep(1) [OF fresh_rep] by simp

lemma fresh_map: "ht_map (fresh_table hash_key free_key free_value) = Map.empty"
  by (simp add: ht_map_def fresh_entries)

lemma ht_entries_distinct: "ht_wf h \<Longrightarrow> distinct (map fst (ht_entries h))"
  using distinct_keys_rep by (auto simp: ht_wf_def)

lemma ht_length_card: "ht_wf h \<Longrightarrow> length (ht_entries h) = card (dom (ht_map h))"
  using ht_entries_distinct [of h] distinct_card [of "map fst (ht_entries h)"]
  by (simp add: ht_map_def dom_map_of_conv_image_fst)

definition ht_capacity :: nat where
  "ht_capacity = 1610612741"

interpretation ht: iterable_dictionary hashtable_get "hashtable_set True True" hashtable_del
  ht_map ht_wf ht_capacity ht_entries
proof unfold_locales
  fix h :: "('k, 'v) hashtable" and k v
  assume wf: "ht_wf h"
  show "hashtable_get h k = Some (ht_map h k)"
    by (rule hashtable_get_map [OF wf])
  show "\<exists>h'. hashtable_del h k = Some (h', if ht_map h k = None then -1 else 0) \<and> ht_wf h' \<and>
      ht_map h' = (ht_map h)(k := None)"
    using hashtable_del_map [OF wf] by blast
  show "finite (dom (ht_map h))"
    by (simp add: ht_map_def finite_dom_map_of)
  show "map_of (ht_entries h) = ht_map h"
    by (simp add: ht_map_def)
  show "distinct (map fst (ht_entries h))"
    by (rule ht_entries_distinct [OF wf])
  assume "card (dom (ht_map h)) < ht_capacity"
  then have "ht_room h"
    using ht_length_card [OF wf] by (simp add: ht_room_def ht_capacity_def)
  then show "\<exists>h'. hashtable_set True True h k v = Some (h', 0) \<and> ht_wf h' \<and> ht_map h' = (ht_map h)(k \<mapsto> v)"
    using hashtable_set_map [OF wf] by blast
qed

end
