(* ===== verification/Hashtable_Props.thy ===== *)
theory Hashtable_Props
  imports Dictionary "HOL-Library.Multiset"
begin

text \<open>
  The properties of the hash table of \<open>src/hashtable.c\<close>: the functional behaviour of its
  operations, the ownership of keys and values, the iterator, the fate of the table when an
  allocation fails, and the size at which it breaks.
\<close>

section \<open>Closing a table\<close>

lemma release_pair_run:
  "n \<in> dom (ht_pairs h) \<Longrightarrow> release_pair h n = Some (h\<lparr>
     ht_freed_keys := ht_freed_keys h @ (if ht_free_key h then [fst (entry_of h n)] else []),
     ht_freed_values := ht_freed_values h @ (if ht_free_value h then [snd (entry_of h n)] else []),
     ht_pairs := (ht_pairs h)(n := None)\<rparr>)"
  by (auto simp: release_pair_def entry_of_def)

lemma close_loop_run:
  assumes "chain (ht_next h) L" "nodes_live h L" "distinct L"
  shows "\<exists>h'. close_loop h (head_of L) = Some h' \<and>
    ht_freed_keys h' = ht_freed_keys h @ (if ht_free_key h then map fst (map (entry_of h) L) else []) \<and>
    ht_freed_values h' = ht_freed_values h @ (if ht_free_value h then map snd (map (entry_of h) L) else [])"
  using assms
proof (induction L arbitrary: h)
  case Nil
  then show ?case
    by (subst close_loop.simps) simp
next
  case (Cons n L)
  define h1 where "h1 = h\<lparr>
     ht_freed_keys := ht_freed_keys h @ (if ht_free_key h then [fst (entry_of h n)] else []),
     ht_freed_values := ht_freed_values h @ (if ht_free_value h then [snd (entry_of h n)] else []),
     ht_pairs := (ht_pairs h)(n := None)\<rparr>"
  have n: "n \<in> dom (ht_pairs h)"
    using Cons.prems by auto
  then have r: "release_pair h n = Some h1"
    using release_pair_run [OF n] by (simp add: h1_def)
  have e: "map (entry_of h1) L = map (entry_of h) L"
    using Cons.prems(3) by (auto simp: entry_of_def h1_def)
  have "chain (ht_next h1) L" "nodes_live h1 L" "distinct L"
    using Cons.prems by (auto simp: h1_def nodes_live_def)
  then obtain h' where h': "close_loop h1 (head_of L) = Some h'"
    "ht_freed_keys h' = ht_freed_keys h1 @ (if ht_free_key h1 then map fst (map (entry_of h) L) else [])"
    "ht_freed_values h' = ht_freed_values h1 @ (if ht_free_value h1 then map snd (map (entry_of h) L) else [])"
    using Cons.IH [of h1] e by auto
  have "close_loop h (PairList n) = close_loop h1 (head_of L)"
    using Cons.prems n r by (subst close_loop.simps) (auto simp: get_next_def list_to_pair_def)
  then show ?case
    using h' by (auto simp: h1_def)
qed

lemma hashtable_destroy_run:
  assumes "ht_wf h"
  shows "hashtable_destroy h = Some
    (ht_freed_keys h @ (if ht_free_key h then map fst (ht_entries h) else []),
     ht_freed_values h @ (if ht_free_value h then map snd (ht_entries h) else []))"
proof -
  obtain B where r: "ht_rep h B"
    using assms by (auto simp: ht_wf_def)
  then have rg: "ring (ht_next h) (ht_prev h) (nodes B)" and nl: "nodes_live h (nodes B)"
    by (auto simp: ht_rep_def core_def)
  have "chain (ht_next h) (nodes B)" and "distinct (nodes B)"
    using ring_chain [of _ _ "[]"] rg by (auto simp: ring_def)
  then obtain h' where "close_loop h (head_of (nodes B)) = Some h'"
    "ht_freed_keys h' = ht_freed_keys h @ (if ht_free_key h then map fst (map (entry_of h) (nodes B)) else [])"
    "ht_freed_values h' = ht_freed_values h @ (if ht_free_value h then map snd (map (entry_of h) (nodes B)) else [])"
    using close_loop_run nl by blast
  then show ?thesis
    using ring_first [OF rg] ht_entries_rep(1) [OF r]
    by (simp add: hashtable_destroy_def hashtable_close_def get_next_def)
qed

section \<open>Sequences of operations\<close>

datatype ('k, 'v) table_op = Op_set 'k 'v | Op_del 'k

fun run_ops :: "('k, 'v) hashtable \<Rightarrow> ('k, 'v) table_op list \<Rightarrow> ('k, 'v) hashtable option" where
  "run_ops h [] = Some h"
| "run_ops h (Op_set k v # ops) = do { (h, _) \<leftarrow> hashtable_set True True h k v; run_ops h ops }"
| "run_ops h (Op_del k # ops) = do { (h, _) \<leftarrow> hashtable_del h k; run_ops h ops }"

fun map_ops :: "('k \<rightharpoonup> 'v) \<Rightarrow> ('k, 'v) table_op list \<Rightarrow> ('k \<rightharpoonup> 'v)" where
  "map_ops m [] = m"
| "map_ops m (Op_set k v # ops) = map_ops (m(k \<mapsto> v)) ops"
| "map_ops m (Op_del k # ops) = map_ops (m(k := None)) ops"

fun given :: "('k, 'v) table_op list \<Rightarrow> ('k \<times> 'v) list" where
  "given [] = []"
| "given (Op_set k v # ops) = (k, v) # given ops"
| "given (Op_del k # ops) = given ops"

text \<open>What the table owns: the entries it holds and those it has released.\<close>

definition owned :: "('k, 'v) hashtable \<Rightarrow> 'k multiset \<times> 'v multiset" where
  "owned h = (mset (map fst (ht_entries h)) + mset (ht_freed_keys h),
              mset (map snd (ht_entries h)) + mset (ht_freed_values h))"

lemma mset_entries:
  assumes "ht_wf h"
  shows "image_mset fst (mset (ht_entries h)) = mset_set (dom (ht_map h))"
    and "image_mset snd (mset (ht_entries h)) = {#the (ht_map h k). k \<in># mset_set (dom (ht_map h))#}"
proof -
  have d: "distinct (map fst (ht_entries h))"
    by (rule ht.entries_distinct [OF assms])
  show 1: "image_mset fst (mset (ht_entries h)) = mset_set (dom (ht_map h))"
    using mset_set_set [OF d] ht.keys_entries [OF assms] by simp
  have "map snd (ht_entries h) = map (\<lambda>k. the (ht_map h k)) (map fst (ht_entries h))"
    using ht.in_entries [OF assms] by (auto; metis option.sel)
  then show "image_mset snd (mset (ht_entries h)) = {#the (ht_map h k). k \<in># mset_set (dom (ht_map h))#}"
    using 1 by (metis mset_map)
qed

lemma dom_part:
  assumes "finite (dom m)"
  shows "mset_set (dom m) = mset_set (dom m - {k}) + mset (released True (map_option (\<lambda>_. k) (m k)))"
    and "{#the (m j). j \<in># mset_set (dom m)#} =
      {#the (m j). j \<in># mset_set (dom m - {k})#} + mset (released True (m k))"
proof -
  have "mset_set (dom m) = add_mset k (mset_set (dom m - {k}))" if "m k \<noteq> None"
    by (rule mset_set.remove) (use that assms in auto)
  moreover have "dom m - {k} = dom m" if "m k = None"
    using that by auto
  ultimately have e: "mset_set (dom m) = (if m k = None then mset_set (dom m - {k})
      else add_mset k (mset_set (dom m - {k})))"
    by (cases "m k = None") simp_all
  show "mset_set (dom m) = mset_set (dom m - {k}) + mset (released True (map_option (\<lambda>_. k) (m k)))"
    using e by (cases "m k") (simp_all add: released_def)
  show "{#the (m j). j \<in># mset_set (dom m)#} =
      {#the (m j). j \<in># mset_set (dom m - {k})#} + mset (released True (m k))"
    by (subst e) (cases "m k"; simp add: released_def)
qed

lemma image_mset_upd:
  "finite A \<Longrightarrow> {#the ((m(k := x)) j). j \<in># mset_set (A - {k})#} = {#the (m j). j \<in># mset_set (A - {k})#}"
  by (rule image_mset_cong) simp

lemma owned_set:
  assumes wf: "ht_wf h" "ht_wf h'" and m: "ht_map h' = (ht_map h)(k \<mapsto> v)" and d: "drops h k h'"
    and f: "ht_free_key h" "ht_free_value h"
  shows "owned h' = (add_mset k (fst (owned h)), add_mset v (snd (owned h)))"
proof -
  let ?m = "ht_map h"
  have fin: "finite (dom ?m)"
    by (rule ht.finite_law [OF wf(1)])
  have dm: "dom (ht_map h') = insert k (dom ?m - {k})"
    using m by auto
  have k: "k \<notin> dom ?m - {k}"
    by simp
  have "mset_set (dom (ht_map h')) = add_mset k (mset_set (dom ?m - {k}))"
    unfolding dm using mset_set.insert_remove [OF fin, of k] by simp
  moreover have "{#the (ht_map h' j). j \<in># mset_set (dom (ht_map h'))#} =
      add_mset v {#the (?m j). j \<in># mset_set (dom ?m - {k})#}"
  proof -
    have "mset_set (dom (ht_map h')) = add_mset k (mset_set (dom ?m - {k}))"
      by fact
    then show ?thesis
      using image_mset_upd [OF fin, of ?m k "Some v"] by (simp only: image_mset_add_mset m fun_upd_same option.sel)
  qed
  ultimately show ?thesis
    using dom_part [OF fin, of k] d f
    by (simp only: owned_def mset_map mset_entries [OF wf(1)] mset_entries [OF wf(2)] drops_def mset_append)
       simp
qed

lemma owned_del:
  assumes wf: "ht_wf h" "ht_wf h'" and m: "ht_map h' = (ht_map h)(k := None)" and d: "drops h k h'"
    and f: "ht_free_key h" "ht_free_value h"
  shows "owned h' = owned h"
proof -
  let ?m = "ht_map h"
  have fin: "finite (dom ?m)"
    by (rule ht.finite_law [OF wf(1)])
  have dm: "dom (ht_map h') = dom ?m - {k}"
    using m by auto
  have "{#the (ht_map h' j). j \<in># mset_set (dom (ht_map h'))#} = {#the (?m j). j \<in># mset_set (dom ?m - {k})#}"
    unfolding dm unfolding m by (rule image_mset_upd [OF fin])
  then show ?thesis
    using dom_part [OF fin, of k] d f
    by (simp only: owned_def mset_map mset_entries [OF wf(1)] mset_entries [OF wf(2)] drops_def mset_append dm)
       simp
qed

lemma run_ops_law:
  assumes "ht_wf h" "card (dom (ht_map h)) + length ops \<le> ht_capacity" "ht_free_key h" "ht_free_value h"
  shows "\<exists>h'. run_ops h ops = Some h' \<and> ht_wf h' \<and> ht_map h' = map_ops (ht_map h) ops \<and>
    ht_free_key h' \<and> ht_free_value h' \<and>
    owned h' = (fst (owned h) + mset (map fst (given ops)), snd (owned h) + mset (map snd (given ops)))"
  using assms
proof (induction ops arbitrary: h)
  case Nil
  then show ?case by simp
next
  case (Cons op ops)
  note prems = Cons.prems
  show ?case
  proof (cases op)
  case op: (Op_set k v)
  have "ht_room h"
    using prems(2) ht_length_card [OF prems(1)] by (simp add: ht_room_def ht_capacity_def)
  then obtain h1 where h1: "hashtable_set True True h k v = Some (h1, 0)" "ht_wf h1"
    "ht_map h1 = (ht_map h)(k \<mapsto> v)" "drops h k h1"
    using hashtable_set_map [OF prems(1)] by blast
  have cfg: "ht_free_key h1" "ht_free_value h1"
    using h1(4) prems(3,4) by (simp_all add: drops_def same_config_def)
  have "card (dom (ht_map h1)) + length ops \<le> ht_capacity"
    using ht.card_after_set [OF prems(1) h1(3)] prems(2) by simp
  then obtain h' where "run_ops h1 ops = Some h'" "ht_wf h'" "ht_map h' = map_ops (ht_map h1) ops"
    "ht_free_key h'" "ht_free_value h'"
    "owned h' = (fst (owned h1) + mset (map fst (given ops)), snd (owned h1) + mset (map snd (given ops)))"
    using Cons.IH [OF h1(2) _ cfg] by blast
  then show ?thesis
    using h1 owned_set [OF prems(1) h1(2-4) prems(3,4)] by (simp add: op)
next
  case op: (Op_del k)
  obtain h1 rc where h1: "hashtable_del h k = Some (h1, rc)" "ht_wf h1"
    "ht_map h1 = (ht_map h)(k := None)" "drops h k h1"
    using hashtable_del_map [OF prems(1), of k] by blast
  have cfg: "ht_free_key h1" "ht_free_value h1"
    using h1(4) prems(3,4) by (simp_all add: drops_def same_config_def)
  have "card (dom (ht_map h1)) \<le> card (dom (ht_map h))"
    using ht.finite_law [OF prems(1)] by (simp add: h1(3) card_Diff1_le)
  then obtain h' where "run_ops h1 ops = Some h'" "ht_wf h'" "ht_map h' = map_ops (ht_map h1) ops"
    "ht_free_key h'" "ht_free_value h'"
    "owned h' = (fst (owned h1) + mset (map fst (given ops)), snd (owned h1) + mset (map snd (given ops)))"
    using Cons.IH [OF h1(2) _ cfg] prems(2) by auto
  then show ?thesis
    using h1 owned_del [OF prems(1) h1(2-4) prems(3,4)] by (simp add: op)
  qed
qed

section \<open>A table that does not grow\<close>

lemma insert_to_bucket_keeps:
  "insert_to_bucket h i l = Some h' \<Longrightarrow> ht_num_buckets h' = ht_num_buckets h"
  by (auto simp: insert_to_bucket_def list_insert_def set_next_def set_prev_def split: bind_splits if_splits)

lemma add_pair_keeps: "add_pair h k v x = Some (h', rc) \<Longrightarrow> ht_num_buckets h' = ht_num_buckets h"
  by (auto simp: add_pair_def Let_def list_init_def set_next_def set_prev_def live_def dest!: insert_to_bucket_keeps
      split: bind_splits if_splits)

lemma set_seq_num_buckets:
  assumes "ht_wf h" "num_buckets h = Some nb" "length (ht_entries h) + length kvs \<le> nb"
    "nb \<le> ht_capacity" "set_seq (hashtable_set True True) h kvs = Some h'"
  shows "ht_num_buckets h' = ht_num_buckets h"
  using assms
proof (induction kvs arbitrary: h)
  case Nil
  then show ?case by simp
next
  case (Cons kv kvs)
  obtain B where B: "ht_rep h B" using Cons.prems(1) by (auto simp: ht_wf_def)
  have sz: "unat (ht_size h) = length (ht_entries h)"
    using ht_repD(7) [OF B] ht_entries_rep(1) [OF B] by simp
  obtain k v where kv: "kv = (k, v)" by force
  have "card (dom (ht_map h)) < ht_capacity" using Cons.prems ht_length_card [OF Cons.prems(1)] by simp
  then obtain h1 where h1: "hashtable_set True True h k v = Some (h1, 0)" "ht_wf h1"
    "ht_map h1 = (ht_map h)(k \<mapsto> v)"
    using ht.set_law [OF Cons.prems(1)] by blast
  obtain h2 where h2: "hashtable_del h k = Some (h2, if ht_map h k = None then -1 else 0)" "ht_wf h2"
    "ht_map h2 = (ht_map h)(k := None)" "ht_num_buckets h2 = ht_num_buckets h"
    using hashtable_del_map [OF Cons.prems(1), of k] by blast
  obtain B2 where B2: "ht_rep h2 B2" using h2(2) by (auto simp: ht_wf_def)
  have "unat (ht_size h2) = length (ht_entries h2)"
    using ht_repD(7) [OF B2] ht_entries_rep(1) [OF B2] by simp
  also have "\<dots> \<le> length (ht_entries h)"
    using ht.finite_law [OF Cons.prems(1)] 
    by (simp add: ht_length_card [OF h2(2)] ht_length_card [OF Cons.prems(1)] h2(3) card_Diff1_le)
  also have "\<dots> < nb" using Cons.prems(3) by simp
  finally have "\<not> nb \<le> unat (ht_size h2)" by simp
  moreover have "num_buckets h2 = Some nb" using h2(4) Cons.prems(2) by (simp add: num_buckets_def)
  ultimately have "ht_num_buckets h1 = ht_num_buckets h"
    using h1(1) h2(1,4)
    by (auto simp: hashtable_set_def hashtable_del_def dest: add_pair_keeps)
  moreover have "length (ht_entries h1) \<le> Suc (length (ht_entries h))"
    using ht.card_after_set [OF Cons.prems(1) h1(3)]
    by (simp add: ht_length_card [OF h1(2)] ht_length_card [OF Cons.prems(1)])
  ultimately show ?case
    using Cons.IH [OF h1(2)] Cons.prems h1(1) by (simp add: kv num_buckets_def)
qed
section \<open>Properties\<close>

text \<open>
  C2. \<open>hashtable_set\<close> on a well-formed table below the largest size: it returns 0, the new
  table is well-formed (its ring of nodes, its buckets, its size and its distinct keys
  agree, and it has at least as many buckets as entries), it maps the key to the value and
  every other key as before, and \<open>free_key\<close> and \<open>free_value\<close> have been called on the entry that was
  replaced and on nothing else.
\<close>
theorem hashtable_set_correct:
  assumes "ht_wf h" "length (ht_entries h) < 1610612741"
  shows "\<exists>h'. hashtable_set True True h key v = Some (h', 0) \<and> ht_wf h' \<and>
    ht_map h' = (ht_map h)(key \<mapsto> v) \<and>
    length (ht_entries h') = length (ht_entries h) + (if ht_map h key = None then 1 else 0) \<and>
    unat (ht_size h') = length (ht_entries h') \<and>
    (\<exists>nb. num_buckets h' = Some nb \<and> unat (ht_size h') \<le> nb) \<and>
    drops h key h'"
proof -
  have room: "ht_room h"
    using assms(2) by (simp add: ht_room_def)
  obtain h' where h': "hashtable_set True True h key v = Some (h', 0)" "ht_wf h'"
    "ht_map h' = (ht_map h)(key \<mapsto> v)" "drops h key h'"
    using hashtable_set_map [OF assms(1) room] by blast
  obtain B where B: "ht_rep h' B"
    using h'(2) by (auto simp: ht_wf_def)
  have "length (ht_entries h') = length (ht_entries h) + (if ht_map h key = None then 1 else 0)"
    using ht.finite_law [OF assms(1)]
    by (simp add: ht.length_entries [OF assms(1)] ht.length_entries [OF h'(2)] h'(3) card_insert_if domIff)
  moreover have "unat (ht_size h') = length (ht_entries h')"
    using ht_repD(7) [OF B] ht_entries_rep(1) [OF B] by simp
  moreover have "\<exists>nb. num_buckets h' = Some nb \<and> unat (ht_size h') \<le> nb"
    using ht_repD(2,7,8) [OF B] by simp
  ultimately show ?thesis
    using h' by blast
qed

theorem hashtable_set_correct_witness:
  "\<exists>h'. hashtable_set True True (fresh_table hash_string True True :: (string, nat) hashtable) ''send'' 7 = Some (h', 0) \<and> ht_map h' = [''send'' \<mapsto> 7]"
  using hashtable_set_correct [OF fresh_wf [of hash_string True True, where ?'b = nat], of "''send''" 7]
  by (auto simp: fresh_entries fresh_map)

text \<open>
  C28. \<open>hashtable_get\<close> never reads through a bad pointer and always ends on a well-formed
  table, and returns the value of the key, or NULL when there is none.
\<close>
theorem hashtable_get_correct:
  assumes "ht_wf h"
  shows "hashtable_get h key = Some (ht_map h key)"
  by (rule ht.get_law [OF assms])

theorem hashtable_get_correct_witness:
  "hashtable_get (fresh_table hash_string True True :: (string, nat) hashtable) ''send'' = Some None"
  using hashtable_get_correct [OF fresh_wf [of hash_string True True, where ?'b = nat]]
  by (simp add: fresh_map)

text \<open>
  C29. \<open>hashtable_del\<close> returns 0 exactly when the key was present and -1 otherwise; it
  removes that entry and no other, keeps the table well-formed, and calls the free
  functions once on what it removed.
\<close>
theorem hashtable_del_correct:
  assumes "ht_wf h"
  shows "\<exists>h'. hashtable_del h key = Some (h', if ht_map h key = None then -1 else 0) \<and> ht_wf h' \<and>
    ht_map h' = (ht_map h)(key := None) \<and> drops h key h' \<and> ht_num_buckets h' = ht_num_buckets h"
  by (rule hashtable_del_map [OF assms])

theorem hashtable_del_correct_witness:
  "\<exists>h'. hashtable_del (fresh_table hash_string True True :: (string, nat) hashtable) ''send'' = Some (h', -1) \<and> ht_map h' = Map.empty"
  using hashtable_del_correct [OF fresh_wf [of hash_string True True, where ?'b = nat], of "''send''"]
  by (auto simp: fresh_map)

text \<open>
  C12. Ownership over a whole life: after any sequence of \<open>hashtable_set\<close> and
  \<open>hashtable_del\<close> on a new table, its map is the one that the sequence describes, and
  \<open>hashtable_destroy\<close> ends with \<open>free_key\<close> and \<open>free_value\<close> called exactly once for every key
  and every value that was ever given to \<open>hashtable_set\<close>: no leak and no double free.
\<close>
theorem hashtable_owns_entries:
  fixes ops :: "('k, 'v) table_op list"
  assumes "length ops \<le> 1610612741"
  shows "\<exists>h ks vs. run_ops (fresh_table hash_key True True) ops = Some h \<and>
    ht_map h = map_ops Map.empty ops \<and> hashtable_destroy h = Some (ks, vs) \<and>
    mset ks = mset (map fst (given ops)) \<and> mset vs = mset (map snd (given ops))"
proof -
  let ?h0 = "fresh_table hash_key True True :: ('k, 'v) hashtable"
  have "card (dom (ht_map ?h0)) + length ops \<le> ht_capacity" and f: "ht_free_key ?h0" "ht_free_value ?h0"
    using assms by (simp_all add: fresh_map ht_capacity_def) (simp_all add: fresh_table_def)
  then obtain h where h: "run_ops ?h0 ops = Some h" "ht_wf h" "ht_map h = map_ops (ht_map ?h0) ops"
    "ht_free_key h" "ht_free_value h"
    "owned h = (fst (owned ?h0) + mset (map fst (given ops)), snd (owned ?h0) + mset (map snd (given ops)))"
    using run_ops_law [OF fresh_wf] by blast
  have "owned ?h0 = ({#}, {#})"
    by (simp add: owned_def fresh_entries) (simp add: fresh_table_def)
  then have "owned h = (mset (map fst (given ops)), mset (map snd (given ops)))"
    using h(6) by simp
  then have "mset (ht_freed_keys h @ map fst (ht_entries h)) = mset (map fst (given ops))"
    and "mset (ht_freed_values h @ map snd (ht_entries h)) = mset (map snd (given ops))"
    by (simp_all add: owned_def add.commute)
  moreover have "hashtable_destroy h =
      Some (ht_freed_keys h @ map fst (ht_entries h), ht_freed_values h @ map snd (ht_entries h))"
    using hashtable_destroy_run [OF h(2)] h(4,5) by simp
  moreover have "ht_map h = map_ops Map.empty ops"
    using h(3) by (simp add: fresh_map)
  ultimately show ?thesis
    using h(1) by blast
qed

theorem hashtable_owns_entries_witness:
  "\<exists>h ks vs. run_ops (fresh_table of_nat True True)
       [Op_set 1 (10 :: nat), Op_set 1 20, Op_del 2, Op_set (2 :: nat) 30] = Some h \<and>
     hashtable_destroy h = Some (ks, vs) \<and> mset ks = {#1, 1, 2#} \<and> mset vs = {#10, 20, 30#}"
proof -
  let ?ops = "[Op_set 1 10, Op_set 1 20, Op_del 2, Op_set 2 30] :: (nat, nat) table_op list"
  have "length ?ops \<le> 1610612741"
    by simp
  from hashtable_owns_entries [OF this, of of_nat] show ?thesis
    by (elim exE conjE) (intro exI conjI, assumption+, simp_all)
qed

text \<open>
  C30. The iterator: starting at \<open>hashtable_iter\<close> and advancing with \<open>hashtable_iter_next\<close>
  until NULL ends, reads only live nodes, and visits every entry of the table exactly once.
\<close>
theorem hashtable_iter_visits_all_once:
  assumes "ht_wf h"
  shows "hashtable_iter h \<bind> ht_iterate h = Some (ht_entries h) \<and>
    distinct (map fst (ht_entries h)) \<and>
    (\<forall>k v. (k, v) \<in> set (ht_entries h) \<longleftrightarrow> hashtable_get h k = Some (Some v))"
  using assms ht_entries_rep(2) ht.entries_distinct [OF assms] ht.get_iff_entry [OF assms]
  by (auto simp: ht_wf_def)

theorem hashtable_iter_visits_all_once_witness:
  "hashtable_iter (fresh_table hash_string True True :: (string, nat) hashtable) \<bind>
     ht_iterate (fresh_table hash_string True True :: (string, nat) hashtable) = Some []"
  using hashtable_iter_visits_all_once [OF fresh_wf, of hash_string True True, where ?'b = nat]
  by (simp add: fresh_entries)

text \<open>
  C34. When \<open>malloc\<close> fails while a full table grows, \<open>hashtable_set\<close> returns -1, but it has
  freed the old buckets before and leaves a null pointer behind: every later look-up or
  deletion dereferences it.
\<close>
theorem hashtable_set_rehash_failure:
  assumes "ht_wf h" "ht_map h key = None" "num_buckets h = Some (length (ht_entries h))"
    and "Suc (ht_num_buckets h) < 29"
  shows "\<exists>h'. hashtable_set False mem h key v = Some (h', -1) \<and>
    (\<forall>k. hashtable_get h' k = None \<and> hashtable_del h' k = None)"
proof -
  obtain B where r: "ht_rep h B"
    using assms(1) by (auto simp: ht_wf_def)
  let ?h' = "h\<lparr>ht_buckets := None, ht_num_buckets := Suc (ht_num_buckets h)\<rparr>"
  have "hashtable_do_del h key (ht_hash_key h key) = Some (h, -1)"
    using do_del_absent [OF r] ht_map_None [OF r] assms(2) by blast
  moreover have "length (ht_entries h) \<le> unat (ht_size h)"
    using ht_repD(7) [OF r] ht_entries_rep(1) [OF r] by simp
  moreover have "num_buckets ?h' \<noteq> None"
    using assms(4) by (simp add: num_buckets_def)
  ultimately have "hashtable_set False mem h key v = Some (?h', -1)"
    using assms(3) by (auto simp: hashtable_set_def hashtable_do_rehash_def)
  moreover have "hashtable_get ?h' k = None" and "hashtable_del ?h' k = None" for k
    by (simp_all add: hashtable_get_def hashtable_del_def hashtable_do_del_def num_buckets_def nth_opt_def)
  ultimately show ?thesis
    by blast
qed

theorem hashtable_set_rehash_failure_witness:
  "\<exists>h h' :: (nat, nat) hashtable. ht_map h 0 = Some 0 \<and>
     hashtable_set False True h 5 5 = Some (h', -1) \<and> hashtable_get h' 0 = None"
proof -
  let ?h0 = "fresh_table of_nat True True :: (nat, nat) hashtable"
  let ?kvs = "[(0, 0), (1, 1), (2, 2), (3, 3), (4, 4)] :: (nat \<times> nat) list"
  have n0: "num_buckets ?h0 = Some 5"
    by (simp add: num_buckets_def fresh_table_def primes_def)
  have c: "card (dom (ht_map ?h0)) + length ?kvs \<le> ht_capacity" "5 \<le> ht_capacity"
    by (simp_all add: fresh_map ht_capacity_def)
  obtain h where h: "set_seq (hashtable_set True True) ?h0 ?kvs = Some h"
    "ht_wf h" "ht_map h = ht_map ?h0 ++ map_of (rev ?kvs)"
    using ht.set_seq_law [OF fresh_wf c(1)] by blast
  then have m: "ht_map h = map_of (rev ?kvs)"
    by (simp only: fresh_map map_add_empty empty_map_add)
  have b: "ht_num_buckets h = 0"
    using set_seq_num_buckets [OF fresh_wf n0 _ c(2) h(1)] by (simp add: fresh_entries) (simp add: fresh_table_def)
  then have n: "num_buckets h = Some 5"
    by (simp add: num_buckets_def primes_def)
  have "dom (ht_map h) = set [0, 1, 2, 3, 4]"
    unfolding m dom_map_of_conv_image_fst by auto
  then have l: "length (ht_entries h) = 5"
    by (simp add: ht.length_entries [OF h(2)])
  have "ht_map h 5 = None" and k: "ht_map h 0 = Some 0"
    by (simp_all add: m)
  from hashtable_set_rehash_failure [OF h(2) this(1), of True 5] n l b
  obtain h' where "hashtable_set False True h 5 5 = Some (h', -1)" "hashtable_get h' 0 = None"
    by auto
  then show ?thesis
    using k by blast
qed

text \<open>
  The table has no size beyond the last entry of \<open>primes\<close>: setting a new key in a table
  that already holds 1610612741 entries reads past the end of that array.
\<close>
theorem hashtable_set_at_capacity:
  assumes "ht_wf h" "ht_map h key = None" "length (ht_entries h) = 1610612741"
  shows "hashtable_set mem1 mem2 h key v = None"
proof -
  obtain B where r: "ht_rep h B"
    using assms(1) by (auto simp: ht_wf_def)
  have sz: "unat (ht_size h) = 1610612741"
    using ht_repD(7) [OF r] ht_entries_rep(1) [OF r] assms(3) by simp
  have "1610612741 \<le> primes ! ht_num_buckets h"
    using ht_repD(7,8) [OF r] sz by (simp add: nb_of_def)
  then have "ht_num_buckets h = 28"
    using primes_less [of "ht_num_buckets h" 28] ht_repD(1) [OF r] primes_last
    by (cases "ht_num_buckets h < 28") auto
  moreover have "hashtable_do_del h key (ht_hash_key h key) = Some (h, -1)"
    using do_del_absent [OF r] ht_map_None [OF r] assms(2) by blast
  ultimately show ?thesis
    using ht_repD(2,4) [OF r] sz
    by (simp add: hashtable_set_def hashtable_do_rehash_def num_buckets_def nth_opt_def nb_of_def)
qed

theorem hashtable_set_at_capacity_witness:
  "\<exists>h :: (nat, nat) hashtable. length (ht_entries h) = 1610612741 \<and> hashtable_set True True h 1610612741 0 = None"
proof -
  let ?kvs = "map (\<lambda>i. (i, i)) [0..<ht_capacity]"
  obtain h :: "(nat, nat) hashtable" where h: "ht_wf h" "ht_map h = Map.empty ++ map_of (rev ?kvs)"
    using ht.set_seq_law [OF fresh_wf [of of_nat True True], of ?kvs] by (auto simp: fresh_map)
  have dom: "dom (ht_map h) = {0..<ht_capacity}"
    by (simp add: h(2) dom_map_of_conv_image_fst image_image)
  have l: "length (ht_entries h) = ht_capacity"
    by (simp add: ht.length_entries [OF h(1)] dom)
  have "ht_map h ht_capacity = None"
    using dom by (auto simp: domIff [symmetric])
  then show ?thesis
    using hashtable_set_at_capacity [OF h(1), of ht_capacity True True 0] l
    by (auto simp only: ht_capacity_def)
qed

text \<open>
  \<open>hash_string\<close> computes the value of the key as a base-33 number with start value 5381,
  modulo \<open>2 ^ 32\<close>; characters above 127 enter with their sign extended.
\<close>
theorem hash_string_polynomial:
  assumes "\<forall>c \<in> set key. char_to_uint c \<noteq> 0"
  shows "unat (hash_string key) = foldl (\<lambda>hash c. 33 * hash + unat (char_to_uint c)) 5381 key mod 2 ^ 32"
proof -
  have "unat (hash_string_loop hash key) =
      foldl (\<lambda>hash c. 33 * hash + unat (char_to_uint c)) n key mod 2 ^ 32"
    if "unat hash = n mod 2 ^ 32" for hash n
    using assms that
  proof (induction key arbitrary: hash n)
    case Nil
    then show ?case by simp
  next
    case (Cons c key)
    have "push_bit 5 hash + hash = 33 * hash"
      by (simp add: push_bit_eq_mult algebra_simps)
    then have "unat (push_bit 5 hash + hash + char_to_uint c) = (33 * n + unat (char_to_uint c)) mod 2 ^ 32"
      using Cons.prems(2) by (simp add: unat_word_ariths mod_simps)
    then show ?case
      using Cons.IH Cons.prems(1) by simp
  qed
  from this [of 5381 5381] show ?thesis
    by (simp add: hash_string_def)
qed

theorem hash_string_polynomial_witness:
  "unat (hash_string ''set'') = foldl (\<lambda>hash c. 33 * hash + unat (char_to_uint c)) 5381 ''set'' mod 2 ^ 32"
  by (rule hash_string_polynomial) code_simp

end
