(* ===== verification/Util.thy ===== *)
theory Util
  imports Prelude
begin

text \<open>
  \<open>src/util.c\<close>: stripping white space, the splitting of a command line into a command and
  its parameters, and the identifiers of clients. A C string is the list of its characters
  before the terminating zero; \<open>mem i\<close> says whether the call of \<open>realloc\<close> in round \<open>i\<close> of a
  loop succeeds, and \<open>U\<close> is the allocator, which decides how far a block can be written.
\<close>

section \<open>Characters\<close>

definition NUL :: char where
  "NUL = CHR 0x00"

definition quote :: char where
  "quote = CHR 0x22"

definition backslash :: char where
  "backslash = CHR 0x5C"

definition blank :: char where
  "blank = CHR 0x20"

definition newline :: char where
  "newline = CHR 0x0A"

text \<open>\<open>isspace\<close> in the C locale.\<close>

definition isspace :: "char \<Rightarrow> bool" where
  "isspace c \<longleftrightarrow> c \<in> {CHR 0x20, CHR 0x09, CHR 0x0A, CHR 0x0B, CHR 0x0C, CHR 0x0D}"

lemma chars_distinct [simp]:
  "NUL \<noteq> quote" "NUL \<noteq> backslash" "NUL \<noteq> blank" "NUL \<noteq> newline"
  "quote \<noteq> NUL" "quote \<noteq> backslash" "quote \<noteq> blank" "quote \<noteq> newline"
  "backslash \<noteq> NUL" "backslash \<noteq> quote" "backslash \<noteq> blank" "backslash \<noteq> newline"
  "blank \<noteq> NUL" "blank \<noteq> quote" "blank \<noteq> backslash" "blank \<noteq> newline"
  "newline \<noteq> NUL" "newline \<noteq> quote" "newline \<noteq> backslash" "newline \<noteq> blank"
  by (simp_all add: NUL_def quote_def backslash_def blank_def newline_def)

lemma isspace_chars [simp]:
  "isspace blank" "isspace newline" "\<not> isspace quote" "\<not> isspace backslash" "\<not> isspace NUL"
  by (simp_all add: isspace_def NUL_def quote_def backslash_def blank_def newline_def)

section \<open>\<open>bitu_util_strstrip\<close>\<close>

text \<open>The first loop; with \<open>len\<close> equal to 0 it reads \<open>s[-1]\<close>.\<close>

fun strip_right :: "string \<Rightarrow> nat \<Rightarrow> nat option" where
  "strip_right s 0 = None"
| "strip_right s (Suc len) = (if isspace (s ! len) then strip_right s len else Some (Suc len))"

text \<open>The second loop moves the pointer \<open>s\<close> forward.\<close>

fun strip_left :: "string \<Rightarrow> nat \<Rightarrow> string \<times> nat" where
  "strip_left [] len = ([], len)"
| "strip_left (c # s) len = (if isspace c then strip_left s (len - 1) else (c # s, len))"

definition bitu_util_strstrip :: "string \<Rightarrow> string option" where
  "bitu_util_strstrip s = do {
     len \<leftarrow> strip_right s (length s);
     let (s, len) = strip_left s len;
     Some (take len s) }"

section \<open>\<open>bitu_util_extract_params\<close>\<close>

text \<open>
  The locals of the function. \<open>tok\<close> is \<open>None\<close> for the null pointer and otherwise the
  characters that have been written to the block, so that both \<open>tok_size\<close> and \<open>iter\<close>,
  which the code always sets and increments together, are its length; \<open>block\<close> is the size
  that was last requested for it. \<open>counter\<close> is the length of \<open>eparams\<close>.
\<close>

record extract_state =
  inside_quotes :: bool
  ecmd :: "string option"
  eparams :: "string list"
  tok :: "string option"
  allocated :: nat
  block :: nat

definition tok_size :: "extract_state \<Rightarrow> nat" where
  "tok_size st = (case tok st of None \<Rightarrow> 0 | Some t \<Rightarrow> length t)"

definition char_at :: "string \<Rightarrow> nat \<Rightarrow> char" where
  "char_at s i = (if i < length s then s ! i else NUL)"

text \<open>\<open>s[i] == c && s[i-1] != '\\'\<close>, whose second operand is read only when the first one holds.\<close>

definition unescaped :: "char \<Rightarrow> string \<Rightarrow> nat \<Rightarrow> bool option" where
  "unescaped c s i =
     (if char_at s i \<noteq> c then Some False
      else case i of 0 \<Rightarrow> None | Suc j \<Rightarrow> Some (char_at s j \<noteq> backslash))"

text \<open>\<open>while (allocated < need) allocated += bufsize\<close> with \<open>bufsize\<close> equal to 128\<close>

function grow :: "nat \<Rightarrow> nat \<Rightarrow> nat" where
  "grow alloc need = (if alloc < need then grow (alloc + 128) need else alloc)"
  by auto
termination by (relation "measure (\<lambda>(alloc, need). need - alloc)") auto

declare grow.simps [simp del]

text \<open>
  The first branch of the loop: the token is complete. The result \<open>Some None\<close> is the
  return of \<open>TA_ERROR\<close>.
\<close>

definition store_token ::
    "bool \<Rightarrow> allocator \<Rightarrow> extract_state \<Rightarrow> extract_state option option" where
  "store_token mem U st = do {
     t \<leftarrow> tok st;
     require (length t < U (block st));
     case ecmd st of
       None \<Rightarrow> Some (Some (st\<lparr>ecmd := Some t, tok := None\<rparr>))
     | Some _ \<Rightarrow>
         if \<not> mem then Some None
         else Some (Some (st\<lparr>eparams := eparams st @ [t], tok := None\<rparr>)) }"

text \<open>
  The call of \<open>realloc\<close> in the second branch. On a block, with size 0, it frees the block
  and returns NULL, as in the GNU C library; the code then frees the block again.
\<close>

definition prepare_token ::
    "bool \<Rightarrow> extract_state \<Rightarrow> extract_state option option" where
  "prepare_token mem st =
     (if tok_size st = 0 \<or> allocated st < tok_size st then
        let alloc = grow (allocated st) (tok_size st) in
        if tok st \<noteq> None \<and> alloc = 0 then None
        else if \<not> mem then Some None
        else Some (Some (st\<lparr>tok := Some (case tok st of None \<Rightarrow> [] | Some t \<Rightarrow> t),
                            allocated := alloc, block := alloc\<rparr>))
      else Some (Some st))"

text \<open>The second branch of the loop: the character at \<open>i\<close> belongs to the token.\<close>

definition collect_char ::
    "bool \<Rightarrow> allocator \<Rightarrow> string \<Rightarrow> nat \<Rightarrow> extract_state \<Rightarrow> extract_state option option" where
  "collect_char mem U s i st = do {
     prepared \<leftarrow> prepare_token mem st;
     case prepared of None \<Rightarrow> Some None
     | Some st \<Rightarrow> do {
         esc \<leftarrow> unescaped backslash s i;
         quo \<leftarrow> unescaped quote s i;
         if esc \<or> quo then Some (Some st)
         else do {
           t \<leftarrow> tok st;
           require (length t < U (block st));
           Some (Some (st\<lparr>tok := Some (t @ [char_at s i])\<rparr>)) } } }"

definition extract_step ::
    "bool \<Rightarrow> allocator \<Rightarrow> string \<Rightarrow> nat \<Rightarrow> extract_state \<Rightarrow> extract_state option option" where
  "extract_step mem U s i st = do {
     quo \<leftarrow> unescaped quote s i;
     let st = (if quo then st\<lparr>inside_quotes := \<not> inside_quotes st\<rparr> else st);
     sep \<leftarrow> (if inside_quotes st then Some False else unescaped blank s i);
     if (sep \<or> i = length s) \<and> tok st \<noteq> None then store_token mem U st
     else collect_char mem U s i st }"

function extract_loop ::
    "(nat \<Rightarrow> bool) \<Rightarrow> allocator \<Rightarrow> string \<Rightarrow> nat \<Rightarrow> extract_state \<Rightarrow> extract_state option option" where
  "extract_loop mem U s i st =
     (if length s < i then Some (Some st)
      else case extract_step (mem i) U s i st of
          None \<Rightarrow> None
        | Some None \<Rightarrow> Some None
        | Some (Some st') \<Rightarrow> extract_loop mem U s (Suc i) st')"
  by auto
termination by (relation "measure (\<lambda>(mem, U, s, i, st). Suc (length s) - i)") auto

declare extract_loop.simps [simp del]

definition extract_init :: extract_state where
  "extract_init = \<lparr>inside_quotes = False, ecmd = None, eparams = [], tok = None,
     allocated = 0, block = 0\<rparr>"

text \<open>
  The result \<open>Some None\<close> is the return of \<open>TA_ERROR\<close>; \<open>Some (Some (cmd, params))\<close> is
  \<open>TA_OK\<close> with the output arguments, \<open>len\<close> being the number of parameters.
\<close>

definition bitu_util_extract_params ::
    "(nat \<Rightarrow> bool) \<Rightarrow> allocator \<Rightarrow> string \<Rightarrow> (string option \<times> string list) option option" where
  "bitu_util_extract_params mem U line = do {
     s \<leftarrow> bitu_util_strstrip line;
     if length s = 0 then Some None
     else do {
       r \<leftarrow> extract_loop mem U s 0 extract_init;
       case r of None \<Rightarrow> Some None
       | Some st \<Rightarrow> Some (Some (ecmd st, eparams st)) } }"

section \<open>\<open>bitu_util_uuid4\<close>\<close>

text \<open>
  \<open>uuid\<close> is the text that \<open>uuid_unparse\<close> writes, followed by a zero, into the block of 36
  bytes.
\<close>

definition bitu_util_uuid4 :: "allocator \<Rightarrow> string \<Rightarrow> string option" where
  "bitu_util_uuid4 U uuid = do {
     require (length uuid < U 36);
     Some uuid }"

section \<open>\<open>bitu_util_start_new_thread\<close>\<close>

text \<open>
  \<open>start\<close> is the state with the new thread in it. The result of \<open>pthread_create\<close> is ignored: when it fails,
  \<open>thread\<close> has no value, and \<open>pthread_detach\<close> reads it.
\<close>

definition bitu_util_start_new_thread :: "bool \<Rightarrow> ('s \<Rightarrow> 's) \<Rightarrow> 's \<Rightarrow> 's option" where
  "bitu_util_start_new_thread created start s = do {
     require created;
     Some (start s) }"

lemma start_new_thread [simp]:
  "created \<Longrightarrow> bitu_util_start_new_thread created start s = Some (start s)"
  "\<not> created \<Longrightarrow> bitu_util_start_new_thread created start s = None"
  by (simp_all add: bitu_util_start_new_thread_def require_def)

lemma start_new_thread_Some [simp]:
  "bitu_util_start_new_thread created start s = Some s' \<longleftrightarrow> created \<and> s' = start s"
  by (cases created) auto

section \<open>What \<open>bitu_util_strstrip\<close> computes\<close>

definition strip :: "string \<Rightarrow> string" where
  "strip s = rev (dropWhile isspace (rev (dropWhile isspace s)))"

lemma strip_right_eq:
  "n \<le> length s \<Longrightarrow> strip_right s n =
     (let w = dropWhile isspace (rev (take n s)) in if w = [] then None else Some (length w))"
proof (induction n)
  case 0
  then show ?case by simp
next
  case (Suc n)
  then have "rev (take (Suc n) s) = s ! n # rev (take n s)"
    by (simp add: take_Suc_conv_app_nth)
  then show ?case
    using Suc by (simp add: Let_def)
qed

lemma strip_left_eq: "strip_left s n = (dropWhile isspace s, n - length (takeWhile isspace s))"
  by (induction s arbitrary: n) auto

lemma trailing_split: "b = rev (dropWhile P (rev b)) @ rev (takeWhile P (rev b))"
proof -
  have "b = rev (takeWhile P (rev b) @ dropWhile P (rev b))"
    by simp
  also have "\<dots> = rev (dropWhile P (rev b)) @ rev (takeWhile P (rev b))"
    by (rule rev_append)
  finally show ?thesis .
qed

lemma strip_nonempty: "strip s \<noteq> [] \<longleftrightarrow> (\<exists>c \<in> set s. \<not> isspace c)"
proof -
  have "strip s = [] \<longleftrightarrow> (\<forall>c \<in> set (dropWhile isspace s). isspace c)"
    by (simp add: strip_def)
  also have "\<dots> \<longleftrightarrow> (\<forall>c \<in> set s. isspace c)"
    by (induction s) (auto dest: set_dropWhileD)
  finally show ?thesis by blast
qed

lemma strstrip_eq: "bitu_util_strstrip s = (if strip s = [] then None else Some (strip s))"
proof (cases "\<exists>c \<in> set s. \<not> isspace c")
  case False
  then have "dropWhile isspace (rev s) = []"
    by simp
  then show ?thesis
    using False strip_nonempty [of s] by (simp add: bitu_util_strstrip_def strip_right_eq)
next
  case True
  obtain a b where ab: "a = takeWhile isspace s" "b = dropWhile isspace s"
    by blast
  then have s: "s = a @ b"
    by simp
  have "\<forall>c \<in> set a. isspace c"
    using ab(1) by (auto dest: set_takeWhileD)
  then have "\<exists>c \<in> set b. \<not> isspace c"
    using True s by auto
  then have d: "dropWhile isspace (rev s) = dropWhile isspace (rev b) @ rev a"
    and ne: "dropWhile isspace (rev b) \<noteq> []"
    by (auto simp: s)
  have "take (length (dropWhile isspace (rev b))) b = rev (dropWhile isspace (rev b))"
    using trailing_split [of b isspace] by (metis append_eq_conv_conj length_rev)
  then have "bitu_util_strstrip s = Some (strip s)"
    using d ne by (simp add: bitu_util_strstrip_def strip_right_eq strip_left_eq strip_def Let_def
        flip: ab)
  then show ?thesis
    using True strip_nonempty [of s] by simp
qed

lemma strip_ends:
  assumes "strip s \<noteq> []"
  shows "\<not> isspace (hd (strip s))" "\<not> isspace (last (strip s))"
proof -
  let ?b = "dropWhile isspace s"
  have ne: "dropWhile isspace (rev ?b) \<noteq> []"
    using assms by (simp add: strip_def)
  then show "\<not> isspace (last (strip s))"
    using hd_dropWhile [OF ne] by (simp add: strip_def last_rev)
  have "?b \<noteq> []"
    using ne by (metis dropWhile.simps(1) rev.simps(1))
  then have "\<not> isspace (hd ?b)"
    by (rule hd_dropWhile)
  moreover have "hd (strip s) = hd ?b"
    using trailing_split [of ?b isspace] assms by (metis hd_append strip_def)
  ultimately show "\<not> isspace (hd (strip s))"
    by simp
qed

lemma strip_id:
  assumes "s \<noteq> []" "\<not> isspace (hd s)" "\<not> isspace (last s)"
  shows "strip s = s"
proof -
  have "dropWhile isspace s = s"
    using assms by (cases s) auto
  moreover have "dropWhile isspace (rev s) = rev s"
    using assms by (cases "rev s") (auto simp: hd_rev [symmetric])
  ultimately show ?thesis
    by (simp add: strip_def)
qed

lemma strip_parts:
  "\<exists>a z. s = a @ strip s @ z \<and> (\<forall>c \<in> set a \<union> set z. isspace c)"
proof -
  let ?b = "dropWhile isspace s"
  have "s = takeWhile isspace s @ strip s @ rev (takeWhile isspace (rev ?b))"
    using trailing_split [of ?b isspace] by (simp add: strip_def)
  then show ?thesis
    by (intro exI [of _ "takeWhile isspace s"] exI [of _ "rev (takeWhile isspace (rev ?b))"])
       (auto dest: set_takeWhileD)
qed

end
