(* ===== verification/Sockets.thy ===== *)
theory Sockets
  imports Util
begin

text \<open>
  The answers of the system calls on sockets that the client (\<open>src/shell.c\<close>) and the server
  (\<open>src/server.c\<close>) make. The environment of a run is the list of these answers.
\<close>

text \<open>\<open>Recv_again\<close> is -1 with \<open>errno\<close> EAGAIN; \<open>Recv_data d\<close> stores the bytes \<open>d\<close> and returns their number.\<close>

datatype recv_result = Recv_again | Recv_error | Recv_data string

text \<open>
  A call of \<open>select\<close> on one socket: -1 with EAGAIN, with EINTR or with another error; no
  data within the timeout; or data, with the answers of the calls of \<open>recv\<close> that follow.
\<close>

datatype select_result =
    Select_again | Select_intr | Select_error | Select_none | Select_ready "recv_result list"

text \<open>\<open>Send_again\<close> is -1 with EAGAIN; \<open>Sent n\<close> takes the first \<open>n\<close> bytes.\<close>

datatype send_result = Send_again | Send_error | Sent nat

text \<open>
  \<open>do n = recv (...); while (n == -1 && errno == EAGAIN)\<close>: the result and the bytes that
  were stored. The empty list of answers is a call that never returns.
\<close>

fun recv_loop :: "recv_result list \<Rightarrow> (int \<times> string) option" where
  "recv_loop [] = None"
| "recv_loop (Recv_again # rs) = recv_loop rs"
| "recv_loop (Recv_error # rs) = Some (-1, [])"
| "recv_loop (Recv_data d # rs) = Some (int (length d), d)"

text \<open>\<open>recv\<close> stores no more bytes than the buffer has.\<close>

fun recv_fits :: "nat \<Rightarrow> select_result \<Rightarrow> bool" where
  "recv_fits bufsize (Select_ready rs) = (\<forall>d. Recv_data d \<in> set rs \<longrightarrow> length d \<le> bufsize)"
| "recv_fits bufsize _ = True"

text \<open>The string that a buffer holds: its bytes before the first zero.\<close>

definition c_string :: "string \<Rightarrow> string" where
  "c_string d = takeWhile (\<lambda>c. c \<noteq> NUL) d"

lemma c_string_id [simp]: "NUL \<notin> set s \<Longrightarrow> c_string s = s"
  unfolding c_string_def by (rule takeWhile_eq_all_conv [THEN iffD2]) auto

end
