(* ===== verification/Shell.thy ===== *)
theory Shell
  imports Sockets
begin

text \<open>
  \<open>src/shell.c\<close>, the program \<open>bituctl\<close>: its arguments, the command line it builds and sends,
  the answer it reads and prints, and the interactive loop.
\<close>

section \<open>\<open>_escape_param\<close>\<close>

text \<open>The loop, with \<open>room\<close> the usable size of the block and \<open>ret\<close> what has been written.\<close>

fun escape_loop :: "nat \<Rightarrow> string \<Rightarrow> string \<Rightarrow> string option" where
  "escape_loop room [] ret = do {
     require (length ret < room);
     Some ret }"
| "escape_loop room (c # s) ret = do {
     ret \<leftarrow> (if c = blank \<or> c = quote then do {
               require (length ret < room);
               Some (ret @ [backslash]) }
             else Some ret);
     require (length ret < room);
     escape_loop room s (ret @ [c]) }"

definition escape_param :: "allocator \<Rightarrow> string \<Rightarrow> string option" where
  "escape_param U param = escape_loop (U (length param * 2)) param []"

section \<open>The command line of a single command\<close>

text \<open>
  \<open>cmdline\<close> holds the characters written so far, so that \<open>full_len\<close> is its length; the
  block has been requested with \<open>alloc\<close> bytes.
\<close>

fun add_params ::
    "allocator \<Rightarrow> string list \<Rightarrow> string \<Rightarrow> nat \<Rightarrow> (string \<times> nat) option" where
  "add_params U [] cmdline alloc = Some (cmdline, alloc)"
| "add_params U (p # ps) cmdline alloc = do {
     param \<leftarrow> escape_param U p;
     let alloc = (if alloc < length cmdline + length param
                  then grow alloc (length cmdline + length param) else alloc);
     require (length cmdline + length param \<le> U alloc);
     let cmdline = cmdline @ param;
     require (length cmdline < U alloc);
     add_params U ps (cmdline @ [blank]) alloc }"

definition build_cmdline :: "allocator \<Rightarrow> string \<Rightarrow> string list \<Rightarrow> string option" where
  "build_cmdline U cmd params = do {
     require (length cmd \<le> U 128);
     require (length cmd < U 128);
     (cmdline, _) \<leftarrow> add_params U params (cmd @ [blank]) 128;
     Some (butlast cmdline) }"

section \<open>Reading the answer\<close>

definition shell_recv1 :: "select_result \<Rightarrow> (int \<times> string) option" where
  "shell_recv1 r = (case r of
       Select_again \<Rightarrow> Some (0, [])
     | Select_intr \<Rightarrow> Some (-1, [])
     | Select_error \<Rightarrow> Some (-1, [])
     | Select_none \<Rightarrow> Some (0, [])
     | Select_ready rs \<Rightarrow> recv_loop rs)"

text \<open>
  The loop of \<open>bitu_shell_recv\<close>: \<open>out\<close> is what has been printed. The buffer has 128 bytes, and
  the terminating zero is stored at index \<open>n\<close>. The empty list of answers is a call that
  never returns.
\<close>

fun shell_recv_loop ::
    "select_result list \<Rightarrow> string \<Rightarrow> bool \<Rightarrow> nat \<Rightarrow> (string \<times> nat) option" where
  "shell_recv_loop [] out hasdata full_size = None"
| "shell_recv_loop (r # rs) out hasdata full_size = do {
     (n, buf) \<leftarrow> shell_recv1 r;
     if n < 0 \<or> n = 0 \<or> n = 1 then Some (if hasdata then out @ [newline] else out, full_size)
     else do {
       require (length buf < 128);
       shell_recv_loop rs (out @ c_string buf) True (full_size + length buf) } }"

definition bitu_shell_recv :: "select_result list \<Rightarrow> (string \<times> nat) option" where
  "bitu_shell_recv rs = shell_recv_loop rs [] False 0"

section \<open>The history file\<close>

text \<open>\<open>snprintf\<close> writes at most 255 characters and the terminating zero.\<close>

definition get_history_file :: "string option \<Rightarrow> string" where
  "get_history_file home =
     take 255 ((case home of None \<Rightarrow> ''~'' | Some h \<Rightarrow> h) @ ''/.bituctlhistory'')"

text \<open>
  The readline library keeps the lines of this session after those of the file; at the end
  \<open>_save_history_file\<close> writes all of them back.
\<close>

definition save_history_file :: "string option \<Rightarrow> string list \<Rightarrow> string list \<Rightarrow> string \<times> string list" where
  "save_history_file home old lines = (get_history_file home, old @ lines)"

section \<open>The options of the program\<close>

text \<open>
  What \<open>getopt_long\<close> finds on the command line. The option \<open>s\<close> has its argument in the
  same word (\<open>-sPATH\<close>, \<open>--server-socket=PATH\<close>) or in the next one.
\<close>

datatype shell_opt =
    Opt_socket_joined string | Opt_socket_separate string | Opt_help | Opt_version | Opt_invalid

primrec opt_words :: "shell_opt \<Rightarrow> string list" where
  "opt_words (Opt_socket_joined p) = [''-s'' @ p]"
| "opt_words (Opt_socket_separate p) = [''-s'', p]"
| "opt_words Opt_help = [''-h'']"
| "opt_words Opt_version = [''-v'']"
| "opt_words Opt_invalid = [''-?'']"

text \<open>\<open>getopt_long\<close> permutes \<open>argv\<close>: in the end all options precede the operands.\<close>

definition permuted_argv :: "string \<Rightarrow> shell_opt list \<Rightarrow> string list \<Rightarrow> string list" where
  "permuted_argv prname opts operands = prname # concat (map opt_words opts) @ operands"

datatype option_result = Exit_usage | Exit_version | Exit_failure | Options "string option" int

fun shell_options :: "shell_opt list \<Rightarrow> string option \<Rightarrow> int \<Rightarrow> option_result" where
  "shell_options [] socket_path arglen = Options socket_path arglen"
| "shell_options (Opt_socket_joined p # opts) socket_path arglen = shell_options opts (Some p) (arglen - 1)"
| "shell_options (Opt_socket_separate p # opts) socket_path arglen = shell_options opts (Some p) (arglen - 1)"
| "shell_options (Opt_help # opts) socket_path arglen = Exit_usage"
| "shell_options (Opt_version # opts) socket_path arglen = Exit_version"
| "shell_options (Opt_invalid # opts) socket_path arglen = Exit_failure"

definition tab :: char where
  "tab = CHR 0x09"

text \<open>The help text, and the line that \<open>-v\<close> prints; \<open>VERSION\<close> and \<open>PACKAGE_BUGREPORT\<close> come from the build.\<close>

definition usage :: "string \<Rightarrow> string \<Rightarrow> string" where
  "usage bugreport prname =
     ''Usage: '' @ prname @ '' [OPTIONS]'' @ [newline] @
     ''  bituctl is a helper program that sends commands to an'' @ [newline] @
     ''  already running bitU instance.'' @ [newline, newline] @
     ''General Options:'' @ [newline] @
     ''  -s,--server-socket=PATH'' @ [tab] @ '': Path to the socket file that server is listening to'' @ [newline] @
     ''  -v,--version'' @ [tab, tab, tab] @ '': Show current version and exit'' @ [newline] @
     ''  -h,--help'' @ [tab, tab, tab] @ '': Shows this help'' @ [newline, newline] @
     ''Report bugs to '' @ bugreport @ [newline, newline]"

definition version_line :: "string \<Rightarrow> string" where
  "version_line version = ''bitU v'' @ version @ '' '' @ [newline]"

section \<open>The interactive loop\<close>

text \<open>\<open>_close_connection\<close>: the messages that have been sent, with the good bye if \<open>send\<close> succeeds.\<close>

definition close_connection :: "bool \<Rightarrow> string list \<Rightarrow> string list" where
  "close_connection ok sent = (if ok then sent @ [''exit''] else sent)"

text \<open>
  One round: what \<open>readline\<close> returns (\<open>None\<close> is end of input), whether \<open>send\<close> succeeds, and the
  answers of the socket afterwards. The result is the list of the messages that were sent,
  the text that was printed and the lines added to the history; the round list must end with
  an exit of the loop.
\<close>

fun shell_loop ::
    "(string option \<times> bool \<times> select_result list) list \<Rightarrow> string list \<Rightarrow> string \<Rightarrow> string list \<Rightarrow>
     (string list \<times> string \<times> string list) option" where
  "shell_loop [] sent out history = None"
| "shell_loop ((None, ok, rs) # rounds) sent out history =
     Some (close_connection ok sent, out @ [newline], history)"
| "shell_loop ((Some line, ok, rs) # rounds) sent out history =
     (if line = [] then shell_loop rounds sent out history
      else let history = history @ [line] in
      if \<not> ok then Some (sent, out, history)
      else if line = ''exit'' then Some (sent @ [line], out, history)
      else do {
        (text, _) \<leftarrow> bitu_shell_recv rs;
        shell_loop rounds (sent @ [line]) (out @ text) history })"

section \<open>The program\<close>

text \<open>
  \<open>shell_env\<close>: whether \<open>socket\<close> and \<open>connect\<close> succeed, and for the single command whether \<open>send\<close>
  does and what the socket answers; the rounds of the interactive loop, the variable \<open>HOME\<close> and the
  lines of the history file; what the build has put into \<open>config.h\<close>.
\<close>

record shell_env =
  se_socket :: bool
  se_connect :: bool
  se_send :: bool
  se_answers :: "select_result list"
  se_rounds :: "(string option \<times> bool \<times> select_result list) list"
  se_home :: "string option"
  se_history :: "string list"
  se_version :: string
  se_bugreport :: string

text \<open>
  Whether the exit status is 0, the messages that were sent, what was printed, and the file of
  the history with its new content, if it is written.
\<close>

datatype shell_result = Shell_exit bool "string list" string "(string \<times> string list) option"

definition shell_banner :: "string \<Rightarrow> string" where
  "shell_banner version = ''bitU v'' @ version @ '' interactive shell connected!'' @ [newline] @
     ''Type `help'' @ [CHR 0x27] @ '' for more information'' @ [newline]"

definition shell_main ::
    "allocator \<Rightarrow> shell_env \<Rightarrow> string \<Rightarrow> shell_opt list \<Rightarrow> string list \<Rightarrow> shell_result option" where
  "shell_main U env prname opts operands = do {
     let argv = permuted_argv prname opts operands;
     let argc = length argv;
     case shell_options opts None (int argc - 1) of
       Exit_usage \<Rightarrow> Some (Shell_exit True [] (usage (se_bugreport env) prname) None)
     | Exit_version \<Rightarrow> Some (Shell_exit True [] (version_line (se_version env)) None)
     | Exit_failure \<Rightarrow> Some (Shell_exit False [] [] None)
     | Options socket_path arglen \<Rightarrow>
         let path = (case socket_path of None \<Rightarrow> ''/tmp/bitu.sock'' | Some p \<Rightarrow> p) in
         if \<not> se_socket env then Some (Shell_exit False [] [] None)
         else do {
           require (length path < 108);
           if \<not> se_connect env then Some (Shell_exit False [] [] None)
           else if 0 < arglen then do {
             let start_pos = nat (int argc - arglen);
             cmd \<leftarrow> nth_opt argv start_pos;
             cmdline \<leftarrow> build_cmdline U cmd (drop (Suc start_pos) argv);
             if \<not> se_send env then Some (Shell_exit False [] [] None)
             else do {
               (out, _) \<leftarrow> bitu_shell_recv (se_answers env);
               Some (Shell_exit True [cmdline] out None) } }
           else do {
             (sent, out, lines) \<leftarrow> shell_loop (se_rounds env) [] (shell_banner (se_version env)) [];
             Some (Shell_exit True sent out (Some (save_history_file (se_home env) (se_history env) lines))) } } }"

end
