(* ===== verification/Util_Correct.thy ===== *)
theory Util_Correct
  imports Util
begin

text \<open>
  The tokens of a command line, stated without the buffers of the code, and the refinement
  of that statement by \<open>bitu_util_extract_params\<close> on blocks of the GNU C library; what the
  function does where it has no defined result.
\<close>

section \<open>The tokens of a line\<close>

text \<open>
  \<open>q\<close>: inside quotes; \<open>p\<close>: the previous character; \<open>w\<close>: the token that has been begun.
\<close>

fun parse_toks :: "bool \<Rightarrow> char \<Rightarrow> string option \<Rightarrow> string \<Rightarrow> string list" where
  "parse_toks q p w [] = (case w of None \<Rightarrow> [] | Some t \<Rightarrow> [t])"
| "parse_toks q p w (c # cs) =
     (let q' = (if c = quote \<and> p \<noteq> backslash then \<not> q else q);
          t = (case w of None \<Rightarrow> [] | Some t \<Rightarrow> t) in
      if \<not> q' \<and> c = blank \<and> p \<noteq> backslash \<and> w \<noteq> None then t # parse_toks q' c None cs
      else if (c = backslash \<or> c = quote) \<and> p \<noteq> backslash then parse_toks q' c (Some t) cs
      else parse_toks q' c (Some (t @ [c])) cs)"

definition tokens :: "string \<Rightarrow> string list" where
  "tokens s = parse_toks False NUL None s"

section \<open>The loop\<close>

lemma grow_ge: "need \<le> grow alloc need" "alloc \<le> grow alloc need"
proof (induction alloc need rule: grow.induct)
  case (1 alloc need)
  {
    case 1 show ?case using 1 "1.IH" by (subst grow.simps) auto
  next
    case 2 show ?case using "1.IH"(2) by (subst grow.simps) auto
  }
qed

lemma grow_dvd: "128 dvd alloc \<Longrightarrow> 128 dvd grow alloc need"
proof (induction alloc need rule: grow.induct)
  case (1 alloc need)
  then show ?case by (subst grow.simps) auto
qed

lemma glibc_alloc_dvd: "128 dvd n \<Longrightarrow> Suc n < glibc_alloc n"
proof -
  assume "128 dvd n"
  then obtain k where k: "n = 128 * k" by (auto simp: dvd_def)
  have "(128 * k + 23) div 16 = 8 * k + 1"
    by presburger
  then show ?thesis
    by (simp add: glibc_alloc_def k)
qed

definition toks :: "extract_state \<Rightarrow> string list" where
  "toks st = (case ecmd st of None \<Rightarrow> [] | Some c \<Rightarrow> [c]) @ eparams st"

definition extract_inv :: "extract_state \<Rightarrow> bool" where
  "extract_inv st \<longleftrightarrow> (ecmd st = None \<longrightarrow> eparams st = []) \<and> 128 dvd allocated st \<and> 0 < allocated st \<and>
     (\<forall>t. tok st = Some t \<longrightarrow> length t \<le> Suc (allocated st) \<and> block st = allocated st)"

lemma toks_split:
  "extract_inv st \<Longrightarrow> toks st \<noteq> [] \<Longrightarrow> ecmd st = Some (hd (toks st)) \<and> eparams st = tl (toks st)"
  by (auto simp: toks_def extract_inv_def split: option.splits)

lemma store_token_run:
  assumes "extract_inv st" "tok st = Some t"
  shows "\<exists>st'. store_token True glibc_alloc st = Some (Some st') \<and> extract_inv st' \<and>
    toks st' = toks st @ [t] \<and> tok st' = None \<and> inside_quotes st' = inside_quotes st"
proof -
  have "length t \<le> Suc (allocated st)" "block st = allocated st"
    using assms by (auto simp: extract_inv_def)
  then have "length t < glibc_alloc (block st)"
    using glibc_alloc_dvd [of "allocated st"] assms(1) by (auto simp: extract_inv_def)
  then show ?thesis
    using assms by (auto simp: store_token_def extract_inv_def toks_def split: option.splits)
qed

lemma prepare_token_run:
  assumes "extract_inv st"
  shows "\<exists>st' t. prepare_token True st = Some (Some st') \<and> extract_inv st' \<and> toks st' = toks st \<and>
    t = (case tok st of None \<Rightarrow> [] | Some t \<Rightarrow> t) \<and> tok st' = Some t \<and> length t \<le> allocated st' \<and>
    inside_quotes st' = inside_quotes st"
proof -
  have a: "0 < allocated st" "128 dvd allocated st"
    using assms by (auto simp: extract_inv_def)
  have g: "tok_size st \<le> grow (allocated st) (tok_size st)" "0 < grow (allocated st) (tok_size st)"
    "128 dvd grow (allocated st) (tok_size st)"
    using grow_ge(1) [of "tok_size st" "allocated st"] grow_ge(2) [of "allocated st" "tok_size st"]
      grow_dvd [OF a(2)] a(1) by simp_all
  show ?thesis
    using assms g
    by (cases "tok st") (auto simp: prepare_token_def extract_inv_def toks_def tok_size_def Let_def)
qed

lemma unescaped_Suc: "unescaped c s (Suc j) = Some (char_at s (Suc j) = c \<and> char_at s j \<noteq> backslash)"
  by (simp add: unescaped_def)

lemma collect_char_run:
  assumes "extract_inv st" "t = (case tok st of None \<Rightarrow> [] | Some t \<Rightarrow> t)"
  shows "\<exists>st'. collect_char True glibc_alloc s (Suc j) st = Some (Some st') \<and> extract_inv st' \<and>
    toks st' = toks st \<and> inside_quotes st' = inside_quotes st \<and>
    tok st' = Some (if (char_at s (Suc j) = backslash \<or> char_at s (Suc j) = quote) \<and> char_at s j \<noteq> backslash
                    then t else t @ [char_at s (Suc j)])"
proof -
  obtain st1 where st1: "prepare_token True st = Some (Some st1)" "extract_inv st1" "toks st1 = toks st"
    "tok st1 = Some t" "length t \<le> allocated st1" "inside_quotes st1 = inside_quotes st"
    using prepare_token_run [OF assms(1)] assms(2) by auto
  have "length t < glibc_alloc (block st1)"
    using st1(2,4,5) glibc_alloc_ge [of "allocated st1"] glibc_alloc_dvd [of "allocated st1"]
    by (auto simp: extract_inv_def)
  then show ?thesis
    using st1 by (auto simp: collect_char_def unescaped_Suc extract_inv_def toks_def)
qed

text \<open>
  One round of the loop, on the terminating zero and on a character: the token is stored, or the
  character is collected.
\<close>

lemma extract_round_end:
  assumes "Suc j = length s" "extract_inv st"
  shows "\<exists>st'. extract_loop (\<lambda>_. True) glibc_alloc s (Suc j) st = Some (Some st') \<and> extract_inv st' \<and>
    toks st' = toks st @ (case tok st of None \<Rightarrow> [] | Some t \<Rightarrow> [t])"
proof -
  have n: "char_at s (Suc j) = NUL"
    using assms(1) by (simp add: char_at_def)
  have last: "extract_loop (\<lambda>_. True) glibc_alloc s (Suc (Suc j)) st = Some (Some st)" for st
    using assms(1) by (subst extract_loop.simps) simp
  have step: "extract_step True glibc_alloc s (Suc j) st =
      (if tok st = None then collect_char True glibc_alloc s (Suc j) st else store_token True glibc_alloc st)"
    by (simp add: extract_step_def unescaped_Suc n flip: assms(1))
  have not_less: "\<not> length s < Suc j"
    using assms(1) by simp
  show ?thesis
  proof (cases "tok st")
    case None
    obtain st' where "collect_char True glibc_alloc s (Suc j) st = Some (Some st')" "extract_inv st'"
      "toks st' = toks st"
      using collect_char_run [OF assms(2) refl] by blast
    then show ?thesis
      using None last step not_less by (subst extract_loop.simps) simp
  next
    case (Some t)
    obtain st' where "store_token True glibc_alloc st = Some (Some st')" "extract_inv st'"
      "toks st' = toks st @ [t]"
      using store_token_run [OF assms(2) Some] by blast
    then show ?thesis
      using Some last step not_less by (subst extract_loop.simps) simp
  qed
qed

lemma extract_round_char:
  assumes "Suc j < length s" "s ! Suc j = c" "extract_inv st"
  shows "\<exists>st'. extract_loop (\<lambda>_. True) glibc_alloc s (Suc j) st = extract_loop (\<lambda>_. True) glibc_alloc s (Suc (Suc j)) st' \<and>
    extract_inv st' \<and> (tok st' \<noteq> None \<or> toks st' \<noteq> []) \<and>
    (\<forall>cs. toks st @ parse_toks (inside_quotes st) (s ! j) (tok st) (c # cs) =
       toks st' @ parse_toks (inside_quotes st') c (tok st') cs)"
proof -
  let ?q = "if c = quote \<and> s ! j \<noteq> backslash then \<not> inside_quotes st else inside_quotes st"
  let ?st = "st\<lparr>inside_quotes := ?q\<rparr>"
  have ch: "char_at s (Suc j) = c" "char_at s j = s ! j"
    using assms(1,2) by (simp_all add: char_at_def)
  have inv: "extract_inv ?st" "toks ?st = toks st" "tok ?st = tok st"
    using assms(3) by (auto simp: extract_inv_def toks_def)
  have upd: "inside_quotes st \<Longrightarrow> st\<lparr>inside_quotes := True\<rparr> = st"
    "\<not> inside_quotes st \<Longrightarrow> st\<lparr>inside_quotes := False\<rparr> = st"
    by simp_all
  have loop: "extract_loop (\<lambda>_. True) glibc_alloc s (Suc j) st = extract_loop (\<lambda>_. True) glibc_alloc s (Suc (Suc j)) st'"
    if "extract_step True glibc_alloc s (Suc j) st = Some (Some st')" for st'
    using assms(1) that by (subst extract_loop.simps) simp
  have step: "extract_step True glibc_alloc s (Suc j) st =
      (if \<not> ?q \<and> c = blank \<and> s ! j \<noteq> backslash \<and> tok st \<noteq> None then store_token True glibc_alloc ?st
       else collect_char True glibc_alloc s (Suc j) ?st)"
    using assms(1) by (auto simp: extract_step_def unescaped_Suc ch Let_def upd)
  show ?thesis
  proof (cases "\<not> ?q \<and> c = blank \<and> s ! j \<noteq> backslash \<and> tok st \<noteq> None")
    case True
    then obtain t where t: "tok st = Some t"
      by auto
    obtain st' where st': "store_token True glibc_alloc ?st = Some (Some st')" "extract_inv st'"
      "toks st' = toks st @ [t]" "tok st' = None" "inside_quotes st' = ?q"
      using store_token_run [OF inv(1)] t inv by auto
    have "extract_step True glibc_alloc s (Suc j) st = Some (Some st')"
      unfolding step st'(1) [symmetric] by (rule if_P) (fact True)
    then show ?thesis
      using loop st' True t by (intro exI [of _ st']) (auto simp: Let_def)
  next
    case False
    obtain st' where st': "collect_char True glibc_alloc s (Suc j) ?st = Some (Some st')" "extract_inv st'"
      "toks st' = toks st" "inside_quotes st' = ?q"
      "tok st' = Some (if (c = backslash \<or> c = quote) \<and> s ! j \<noteq> backslash
         then (case tok st of None \<Rightarrow> [] | Some t \<Rightarrow> t)
         else (case tok st of None \<Rightarrow> [] | Some t \<Rightarrow> t) @ [c])"
      using collect_char_run [OF inv(1) refl, of s j] inv ch by auto
    have "extract_step True glibc_alloc s (Suc j) st = Some (Some st')"
      unfolding step st'(1) [symmetric] by (rule if_not_P) (fact False)
    then show ?thesis
      using loop st' False by (intro exI [of _ st']) (auto simp: Let_def)
  qed
qed

lemma extract_loop_run:
  assumes "drop (Suc j) s = cs" "j < length s" "extract_inv st" "tok st \<noteq> None \<or> toks st \<noteq> []"
  shows "\<exists>st'. extract_loop (\<lambda>_. True) glibc_alloc s (Suc j) st = Some (Some st') \<and> extract_inv st' \<and>
    toks st' = toks st @ parse_toks (inside_quotes st) (s ! j) (tok st) cs"
  using assms
proof (induction cs arbitrary: j st)
  case Nil
  then show ?case
    using extract_round_end [of j s st] by (cases "tok st") simp_all
next
  case (Cons c cs)
  have j: "Suc j < length s"
    using Cons.prems(1) by (metis drop_eq_Nil2 list.distinct(1) not_le)
  then have c: "s ! Suc j = c" "drop (Suc (Suc j)) s = cs"
    using Cons.prems(1) by (simp_all add: Cons_nth_drop_Suc [symmetric])
  obtain st' where st': "extract_loop (\<lambda>_. True) glibc_alloc s (Suc j) st = extract_loop (\<lambda>_. True) glibc_alloc s (Suc (Suc j)) st'"
    "extract_inv st'" "tok st' \<noteq> None \<or> toks st' \<noteq> []"
    "\<And>cs. toks st @ parse_toks (inside_quotes st) (s ! j) (tok st) (c # cs) =
       toks st' @ parse_toks (inside_quotes st') c (tok st') cs"
    using extract_round_char [OF j c(1) Cons.prems(3)] by blast
  from Cons.IH [OF c(2) j st'(2,3)] show ?case
    unfolding st'(1,4) c(1) .
qed

section \<open>The whole function\<close>

text \<open>
  \<open>plain_start s\<close>: the line begins with a character that is neither a quotation mark nor a
  backslash, and a command of one character stands alone.
\<close>

definition plain_start :: "string \<Rightarrow> bool" where
  "plain_start s \<longleftrightarrow> s \<noteq> [] \<and> hd s \<noteq> quote \<and> hd s \<noteq> backslash \<and> (\<forall>b cs. tl s = b # cs \<longrightarrow> b \<noteq> blank)"

lemma glibc_alloc_small: "n < 24 \<Longrightarrow> n < glibc_alloc m"
  using glibc_alloc_min [of m] by linarith

lemma extract_first:
  assumes "s = a # cs" "a \<noteq> quote" "a \<noteq> backslash" "a \<noteq> blank"
  shows "extract_step True glibc_alloc s 0 extract_init =
    Some (Some (extract_init\<lparr>tok := Some [a]\<rparr>))"
  using assms glibc_alloc_small [of 0 0]
  by (simp add: extract_step_def unescaped_def char_at_def extract_init_def collect_char_def
      prepare_token_def tok_size_def grow.simps)

lemma extract_second:
  assumes "s = a # b # cs" "a \<noteq> backslash" "b \<noteq> blank"
  shows "\<exists>st. extract_step True glibc_alloc s 1 (extract_init\<lparr>tok := Some [a]\<rparr>) = Some (Some st) \<and>
    extract_inv st \<and> toks st = [] \<and> inside_quotes st = (b = quote) \<and>
    tok st = Some (if b = backslash \<or> b = quote then [a] else [a, b])"
proof -
  have "grow 0 1 = 128"
    by (simp add: grow.simps)
  moreover have "1 < glibc_alloc 128"
    by (simp add: glibc_alloc_small)
  ultimately show ?thesis
    using assms
    by (auto simp: extract_step_def unescaped_def char_at_def extract_init_def collect_char_def
        prepare_token_def tok_size_def extract_inv_def toks_def numeral_eq_Suc)
qed

lemma extract_tokens:
  assumes "strip line = s" "plain_start s"
  shows "bitu_util_extract_params (\<lambda>_. True) glibc_alloc line =
    Some (Some (Some (hd (tokens s)), tl (tokens s)))"
proof -
  obtain a cs where s: "s = a # cs" and a: "a \<noteq> quote" "a \<noteq> backslash"
    using assms(2) by (cases s) (auto simp: plain_start_def)
  have "\<not> isspace a"
    using strip_ends(1) [of line] assms(1) s by simp
  then have a': "a \<noteq> blank"
    by auto
  let ?L = "extract_loop (\<lambda>_. True) glibc_alloc s"
  have l0: "?L 0 extract_init = ?L 1 (extract_init\<lparr>tok := Some [a]\<rparr>)"
    using extract_first [OF s a a'] by (subst extract_loop.simps) simp
  have line: "bitu_util_extract_params (\<lambda>_. True) glibc_alloc line =
      (case ?L 0 extract_init of None \<Rightarrow> None | Some None \<Rightarrow> Some None
       | Some (Some st) \<Rightarrow> Some (Some (ecmd st, eparams st)))"
    using assms(1) s by (auto simp: bitu_util_extract_params_def strstrip_eq split: option.splits)
  show ?thesis
  proof (cases cs)
    case Nil
    have "?L 1 (extract_init\<lparr>tok := Some [a]\<rparr>) = Some (Some (extract_init\<lparr>ecmd := Some [a]\<rparr>))"
      using s Nil glibc_alloc_small [of 1 0]
      by (simp add: extract_loop.simps [of _ _ "[a]" "Suc 0"] extract_loop.simps [of _ _ "[a]" "Suc (Suc 0)"]
          extract_step_def unescaped_def char_at_def extract_init_def store_token_def)
    then show ?thesis
      using l0 line a a' s Nil by (simp add: tokens_def extract_init_def)
  next
    case (Cons b cs')
    then have b: "b \<noteq> blank" and s2: "s = a # b # cs'"
      using assms(2) s by (auto simp: plain_start_def)
    obtain st where st: "extract_step True glibc_alloc s 1 (extract_init\<lparr>tok := Some [a]\<rparr>) = Some (Some st)"
      "extract_inv st" "toks st = []" "inside_quotes st = (b = quote)"
      "tok st = Some (if b = backslash \<or> b = quote then [a] else [a, b])"
      using extract_second [OF s2 a(2) b] by blast
    have l1: "?L 1 (extract_init\<lparr>tok := Some [a]\<rparr>) = ?L (Suc 1) st"
      using st(1) s2 by (subst extract_loop.simps) simp
    obtain st' where st': "?L (Suc 1) st = Some (Some st')" "extract_inv st'"
      "toks st' = toks st @ parse_toks (inside_quotes st) (s ! 1) (tok st) cs'"
      using extract_loop_run [of 1 s cs' st] st s2 by auto
    have t: "toks st' = tokens s"
      using st' st a a' b s2 by (auto simp: tokens_def)
    moreover have "parse_toks q p (Some t) xs \<noteq> []" for q p t xs
      by (induction xs arbitrary: q p t) (auto simp: Let_def)
    then have "toks st' \<noteq> []"
      using st'(3) st(5) by simp
    ultimately show ?thesis
      using toks_split [OF st'(2)] l0 l1 st'(1) line by simp
  qed
qed

end
