(* ===== verification/Shell_Correct.thy ===== *)
theory Shell_Correct
  imports Shell Util_Correct
begin

text \<open>
  The properties of \<open>src/util.c\<close> and \<open>src/shell.c\<close>: how lines are stripped and split, and that
  what \<open>bituctl\<close> sends for a command with parameters is split back into the same command
  and parameters by the server; and the inputs on which the two files go wrong.
\<close>

section \<open>Escaping\<close>

definition special :: "char \<Rightarrow> bool" where
  "special c \<longleftrightarrow> c = blank \<or> c = quote"

definition escape :: "string \<Rightarrow> string" where
  "escape s = concat (map (\<lambda>c. if special c then [backslash, c] else [c]) s)"

lemma escape_simps [simp]:
  "escape [] = []" "escape (c # s) = (if special c then [backslash, c] else [c]) @ escape s"
  by (simp_all add: escape_def)

lemma length_escape: "length (escape s) = length s + length (filter special s)"
  by (induction s) simp_all

lemma escape_plain: "\<forall>c \<in> set s. \<not> special c \<Longrightarrow> escape s = s"
  by (induction s) simp_all

lemma escape_Nil [simp]: "escape s = [] \<longleftrightarrow> s = []"
  by (cases s) simp_all

lemma last_escape: "s \<noteq> [] \<Longrightarrow> last (escape s) = last s"
  by (induction s) auto

lemma escape_loop_eq:
  "escape_loop room s ret =
     (if length ret + length (escape s) < room then Some (ret @ escape s) else None)"
  by (induction s arbitrary: ret) (auto simp: special_def require_def)

lemma escape_param_eq:
  "escape_param U s = (if length (escape s) < U (length s * 2) then Some (escape s) else None)"
  by (simp add: escape_param_def escape_loop_eq)

section \<open>Splitting what was escaped\<close>

lemma parse_escape:
  "backslash \<notin> set s \<Longrightarrow> p \<noteq> backslash \<Longrightarrow>
     parse_toks False p (Some t) (escape s @ rest) =
     parse_toks False (if s = [] then p else last s) (Some (t @ s)) rest"
proof (induction s arbitrary: p t)
  case Nil
  then show ?case by simp
next
  case (Cons c s)
  then have c: "c \<noteq> backslash" and s: "backslash \<notin> set s"
    by auto
  have "parse_toks False p (Some t) (escape (c # s) @ rest) =
      parse_toks False c (Some (t @ [c])) (escape s @ rest)"
    using c Cons.prems(2) by (auto simp: special_def Let_def)
  then show ?case
    using Cons.IH [OF s c, of "t @ [c]"] by simp
qed

lemma parse_begin: "c \<noteq> blank \<Longrightarrow> parse_toks q p None (c # cs) = parse_toks q p (Some []) (c # cs)"
  by (simp add: Let_def)

lemma parse_escape_begin:
  assumes "s \<noteq> []" "backslash \<notin> set s" "p \<noteq> backslash"
  shows "parse_toks False p None (escape s @ rest) = parse_toks False (last s) (Some s) rest"
proof -
  obtain a s' where a: "s = a # s'"
    using assms(1) by (cases s) auto
  obtain c cs where "escape s @ rest = c # cs" "c \<noteq> blank"
    by (cases "special a") (auto simp: a special_def)
  then show ?thesis
    using parse_begin [of c False p cs] parse_escape [OF assms(2,3), of "[]" rest] assms(1) by simp
qed

definition params_text :: "string list \<Rightarrow> string" where
  "params_text ps = concat (map (\<lambda>p. blank # escape p) ps)"

lemma parse_params:
  "p \<noteq> backslash \<Longrightarrow> \<forall>x \<in> set ps. x \<noteq> [] \<and> backslash \<notin> set x \<Longrightarrow>
     parse_toks False p (Some t) (params_text ps) = t # ps"
proof (induction ps arbitrary: p t)
  case Nil
  then show ?case by (simp add: params_text_def)
next
  case (Cons x ps)
  then have x: "x \<noteq> []" "backslash \<notin> set x"
    by auto
  then have x3: "last x \<noteq> backslash"
    using last_in_set [of x] by metis
  have "parse_toks False p (Some t) (params_text (x # ps)) =
      t # parse_toks False blank None (escape x @ params_text ps)"
    using Cons.prems(1) by (simp add: params_text_def Let_def)
  also have "parse_toks False blank None (escape x @ params_text ps) =
      parse_toks False (last x) (Some x) (params_text ps)"
    by (rule parse_escape_begin [OF x(1,2)]) simp
  also have "\<dots> = x # ps"
    by (rule Cons.IH [OF x3]) (use Cons.prems(2) in simp)
  finally show ?case .
qed

lemma tokens_cmdline:
  assumes "cmd \<noteq> []" "\<forall>c \<in> set cmd. c \<noteq> backslash \<and> \<not> special c"
    and "\<forall>x \<in> set ps. x \<noteq> [] \<and> backslash \<notin> set x"
  shows "tokens (cmd @ params_text ps) = cmd # ps"
proof -
  have b: "backslash \<notin> set cmd" "last cmd \<noteq> backslash"
    using assms(1,2) last_in_set [of cmd] by auto
  show ?thesis
    using parse_escape_begin [OF assms(1) b(1), of NUL "params_text ps"] parse_params [OF b(2) assms(3)]
      escape_plain [of cmd] assms(2)
    by (simp add: tokens_def)
qed

section \<open>What the client builds\<close>

lemma add_params_run:
  assumes "\<forall>x \<in> set ps. length (escape x) < U (length x * 2)"
    and "\<And>n. 128 dvd n \<Longrightarrow> n < U n" and "128 dvd alloc0"
  shows "\<exists>alloc. add_params U ps cmdline alloc0 =
    Some (cmdline @ concat (map (\<lambda>p. escape p @ [blank]) ps), alloc)"
  using assms(1,3)
proof (induction ps arbitrary: cmdline alloc0)
  case Nil
  then show ?case by simp
next
  case (Cons x ps)
  define alloc1 where "alloc1 = (if alloc0 < length cmdline + length (escape x)
      then grow alloc0 (length cmdline + length (escape x)) else alloc0)"
  have d: "128 dvd alloc1"
    using Cons.prems(2) grow_dvd by (simp add: alloc1_def)
  have "length cmdline + length (escape x) \<le> alloc1"
    using grow_ge(1) by (simp add: alloc1_def)
  then have "length cmdline + length (escape x) < U alloc1"
    using assms(2) [OF d] by simp
  then have "add_params U (x # ps) cmdline alloc0 = add_params U ps (cmdline @ escape x @ [blank]) alloc1"
    using Cons.prems(1) by (simp add: escape_param_eq alloc1_def [symmetric] Let_def)
  then show ?case
    using Cons.IH [OF _ d, of "cmdline @ escape x @ [blank]"] Cons.prems(1) by simp
qed

lemma params_text_shift:
  "blank # concat (map (\<lambda>p. escape p @ [blank]) ps) = params_text ps @ [blank]"
  by (induction ps) (simp_all add: params_text_def)

lemma build_cmdline_run:
  assumes "length cmd < U 128" "\<forall>x \<in> set ps. length (escape x) < U (length x * 2)"
    and "\<And>n. 128 dvd n \<Longrightarrow> n < U n"
  shows "build_cmdline U cmd ps = Some (cmd @ params_text ps)"
proof -
  obtain alloc where "add_params U ps (cmd @ [blank]) 128 =
      Some ((cmd @ [blank]) @ concat (map (\<lambda>p. escape p @ [blank]) ps), alloc)"
    using add_params_run [OF assms(2,3) dvd_refl] by blast
  moreover have "(cmd @ [blank]) @ concat (map (\<lambda>p. escape p @ [blank]) ps) = (cmd @ params_text ps) @ [blank]"
    using params_text_shift [of ps] by simp
  ultimately have "add_params U ps (cmd @ [blank]) 128 = Some ((cmd @ params_text ps) @ [blank], alloc)"
    by simp
  then show ?thesis
    using assms(1) butlast_snoc [of "cmd @ params_text ps" blank] by (simp add: build_cmdline_def)
qed

section \<open>Properties of \<open>src/util.c\<close>\<close>

text \<open>
  C32. \<open>bitu_util_strstrip\<close> removes exactly the white space around its argument; on a string
  of white space only, the empty string included, it reads before the first character.
\<close>
theorem strstrip_correct:
  "bitu_util_strstrip s =
     (if \<forall>c \<in> set s. isspace c then None else Some (strip s)) \<and>
   (\<exists>a z. s = a @ strip s @ z \<and> (\<forall>c \<in> set a \<union> set z. isspace c)) \<and>
   (strip s \<noteq> [] \<longrightarrow> \<not> isspace (hd (strip s)) \<and> \<not> isspace (last (strip s)))"
  using strstrip_eq [of s] strip_nonempty [of s] strip_parts [of s] strip_ends [of s] by auto

theorem strstrip_correct_witness:
  "bitu_util_strstrip '' to be stripped out! '' = Some ''to be stripped out!'' \<and>
   bitu_util_strstrip ''  '' = None"
  using strstrip_correct [of "'' to be stripped out! ''"] strstrip_correct [of "''  ''"]
  by (simp add: isspace_def strip_def)

text \<open>
  C23. On a line that begins with an ordinary character and whose command has not just one
  character in front of others, \<open>bitu_util_extract_params\<close> has a defined result on blocks of
  the GNU C library, returns \<open>TA_OK\<close>, and yields the tokens of the stripped line: the first
  one as the command and the others as the parameters.
\<close>
theorem extract_params_tokens:
  assumes "plain_start (strip line)"
  shows "bitu_util_extract_params (\<lambda>_. True) glibc_alloc line =
    Some (Some (Some (hd (tokens (strip line))), tl (tokens (strip line))))"
  by (rule extract_tokens [OF refl assms])

theorem extract_params_tokens_witness:
  "bitu_util_extract_params (\<lambda>_. True) glibc_alloc
     (''cmd param3 param4 '' @ [quote] @ ''single param with spaces'' @ [quote] @ '' blehxx'') =
   Some (Some (Some ''cmd'', [''param3'', ''param4'', ''single param with spaces'', ''blehxx'']))"
proof -
  let ?line = "''cmd param3 param4 '' @ [quote] @ ''single param with spaces'' @ [quote] @ '' blehxx''"
  have s: "strip ?line = ?line"
    by (rule strip_id) (simp_all add: isspace_def)
  have "plain_start ?line"
    by (simp add: plain_start_def quote_def backslash_def blank_def)
  then have "bitu_util_extract_params (\<lambda>_. True) glibc_alloc ?line =
      Some (Some (Some (hd (tokens ?line)), tl (tokens ?line)))"
    using extract_params_tokens [of ?line] s by simp
  moreover have "tokens ?line = [''cmd'', ''param3'', ''param4'', ''single param with spaces'', ''blehxx'']"
    by code_simp
  ultimately show ?thesis
    by simp
qed

text \<open>
  \<open>bitu_util_extract_params\<close> reads before the first character of the stripped line when
  that line begins with a quotation mark or a backslash, whatever the allocator does.
\<close>
theorem extract_params_bad_start:
  assumes "hd (strip line) = quote \<or> hd (strip line) = backslash"
    and "mem 0"
  shows "bitu_util_extract_params mem U line = None"
proof (cases "strip line")
  case Nil
  then show ?thesis
    by (simp add: bitu_util_extract_params_def strstrip_eq)
next
  case (Cons a cs)
  have "extract_step True U (a # cs) 0 extract_init = None"
    using assms(1) Cons
    by (auto simp: extract_step_def unescaped_def char_at_def extract_init_def collect_char_def prepare_token_def
        tok_size_def grow.simps)
  then have "extract_loop mem U (a # cs) 0 extract_init = None"
    using assms(2) by (subst extract_loop.simps) simp
  then show ?thesis
    using Cons by (simp add: bitu_util_extract_params_def strstrip_eq)
qed

theorem extract_params_bad_start_witness:
  "bitu_util_extract_params (\<lambda>_. True) glibc_alloc [quote, CHR 0x61, quote] = None"
  by (rule extract_params_bad_start) (simp_all add: strip_def isspace_def quote_def)

text \<open>
  By the C standard alone, where a block may be written only as far as it was requested,
  the function has no defined result on any line: the first character of the first token
  goes to a block of size 0.
\<close>
theorem extract_params_needs_slack:
  assumes "mem 0"
  shows "bitu_util_extract_params mem strict_alloc line = None"
proof (cases "strip line")
  case Nil
  then show ?thesis
    by (simp add: bitu_util_extract_params_def strstrip_eq)
next
  case (Cons a cs)
  then have "a \<noteq> blank"
    using strip_ends(1) [of line] by auto
  then have "extract_step True strict_alloc (a # cs) 0 extract_init = None"
    by (auto simp: extract_step_def unescaped_def char_at_def extract_init_def collect_char_def prepare_token_def
        tok_size_def grow.simps strict_alloc_def)
  then have "extract_loop mem strict_alloc (a # cs) 0 extract_init = None"
    using assms by (subst extract_loop.simps) simp
  then show ?thesis
    using Cons by (simp add: bitu_util_extract_params_def strstrip_eq)
qed

theorem extract_params_needs_slack_witness:
  "bitu_util_extract_params (\<lambda>_. True) strict_alloc ''list plugins'' = None"
  by (rule extract_params_needs_slack) simp

lemma extract_step_True: "extract_step True U s i st \<noteq> Some None"
proof -
  have 1: "store_token True U st \<noteq> Some None" for st
    by (auto simp: store_token_def split: bind_splits option.splits)
  have "prepare_token True st \<noteq> Some None" for st
    by (simp add: prepare_token_def Let_def)
  then have 2: "collect_char True U s i st \<noteq> Some None" for st
    by (auto simp: collect_char_def split: bind_splits option.splits if_splits)
  show ?thesis
    by (auto simp: extract_step_def Let_def 1 2 split: bind_splits)
qed

lemma extract_loop_error:
  "extract_loop mem U s i st = Some None \<Longrightarrow> \<exists>k \<le> length s. \<not> mem k"
proof (induction mem U s i st rule: extract_loop.induct)
  case (1 mem U s i st)
  have i: "i \<le> length s"
    using "1.prems" by (subst (asm) extract_loop.simps) (auto split: if_splits)
  show ?case
  proof (cases "mem i")
    case True
    then obtain st' where st': "extract_step (mem i) U s i st = Some (Some st')"
      "extract_loop mem U s (Suc i) st' = Some None"
      using "1.prems" extract_step_True [of U s i st] i
      by (subst (asm) extract_loop.simps) (auto split: option.splits)
    then show ?thesis
      using "1.IH" [OF _ st'(1)] i by simp
  next
    case False
    then show ?thesis
      using i by blast
  qed
qed

text \<open>
  The only way to the error return of \<open>bitu_util_extract_params\<close> is a failing
  allocation: the test for an empty line is never true, as stripping such a line is already
  undefined.
\<close>
theorem extract_params_error:
  assumes "bitu_util_extract_params mem U line = Some None"
  shows "\<exists>i \<le> length (strip line). \<not> mem i"
  using assms extract_loop_error [of mem U "strip line" 0 extract_init]
  by (auto simp: bitu_util_extract_params_def strstrip_eq split: if_splits bind_splits option.splits)

theorem extract_params_error_witness:
  "\<exists>i \<le> length (strip ''get a''). \<not> (\<lambda>i. i \<noteq> 1) (i :: nat)"
proof (rule extract_params_error)
  show "bitu_util_extract_params (\<lambda>i. i \<noteq> 1) glibc_alloc ''get a'' = Some None"
    by code_simp
qed

section \<open>Properties of \<open>src/shell.c\<close>\<close>

lemma cmdline_parsed:
  assumes "2 \<le> length cmd" "length cmd < 136" "\<forall>c \<in> set cmd. c \<noteq> backslash \<and> \<not> special c"
    and "\<not> isspace (hd cmd)" "\<not> isspace (last (last (cmd # params)))"
    and "\<forall>p \<in> set params. backslash \<notin> set p \<and> (\<exists>c \<in> set p. \<not> special c)"
  shows "build_cmdline glibc_alloc cmd params = Some (cmd @ params_text params)"
    and "plain_start (cmd @ params_text params)"
    and "strip (cmd @ params_text params) = cmd @ params_text params"
    and "tokens (cmd @ params_text params) = cmd # params"
proof -
  let ?line = "cmd @ params_text params"
  have ne: "cmd \<noteq> []" "\<forall>p \<in> set params. p \<noteq> []"
    using assms(1,6) by auto
  have room: "length (escape p) < glibc_alloc (length p * 2)" if p: "p \<in> set params" for p
  proof -
    have "length (filter special p) < length p"
      using assms(6) p length_filter_less by metis
    then show ?thesis
      using glibc_alloc_ge [of "length p * 2"] by (simp add: length_escape)
  qed
  have "glibc_alloc 128 = 136"
    by (simp add: glibc_alloc_def)
  then show "build_cmdline glibc_alloc cmd params = Some ?line"
    using assms(2) room glibc_alloc_dvd by (intro build_cmdline_run) (auto intro: Suc_lessD)
  have last: "last ?line = last (last (cmd # params))"
  proof (cases params rule: rev_cases)
    case Nil
    then show ?thesis by (simp add: params_text_def)
  next
    case (snoc ps p)
    then show ?thesis
      using ne(2) by (simp add: params_text_def last_escape)
  qed
  show s: "strip ?line = ?line"
    using assms(4,5) ne(1) last by (intro strip_id) auto
  obtain a b cs where cmd: "cmd = a # b # cs"
    using assms(1) by (cases cmd; cases "tl cmd") auto
  show "plain_start ?line"
    using assms(3) by (auto simp: plain_start_def cmd special_def)
  show "tokens ?line = cmd # params"
    by (rule tokens_cmdline) (use assms(3,6) ne in auto)
qed

text \<open>
  C3. The round trip of a command: what \<open>bituctl\<close> builds from a command and its parameters on
  blocks of the GNU C library is split by the server into that command and these
  parameters, for a command of at least two ordinary characters and non-empty parameters
  without a backslash, each with a character that needs no escape, the last of which does
  not end with white space.
\<close>
theorem bituctl_roundtrip:
  assumes "2 \<le> length cmd" "length cmd < 136" "\<forall>c \<in> set cmd. c \<noteq> backslash \<and> \<not> special c"
    and "\<not> isspace (hd cmd)" "\<not> isspace (last (last (cmd # params)))"
    and "\<forall>p \<in> set params. backslash \<notin> set p \<and> (\<exists>c \<in> set p. \<not> special c)"
  shows "\<exists>line. build_cmdline glibc_alloc cmd params = Some line \<and>
    bitu_util_extract_params (\<lambda>_. True) glibc_alloc line = Some (Some (Some cmd, params))"
  using cmdline_parsed [OF assms] extract_tokens [of "cmd @ params_text params" "cmd @ params_text params"] by simp

theorem bituctl_roundtrip_witness:
  "\<exists>line. build_cmdline glibc_alloc ''set'' [''name'', ''Lincoln de Sousa''] = Some line \<and>
    bitu_util_extract_params (\<lambda>_. True) glibc_alloc line =
      Some (Some (Some ''set'', [''name'', ''Lincoln de Sousa'']))"
  by (rule bituctl_roundtrip)
    (auto simp: special_def isspace_def blank_def quote_def backslash_def)

text \<open>
  \<open>_escape_param\<close> allocates twice the length of the parameter and no byte for the
  terminating zero: by the C standard it writes beyond its block exactly when every
  character has to be escaped, the empty parameter included.
\<close>
theorem escape_param_overflow:
  "escape_param strict_alloc param = (if \<forall>c \<in> set param. special c then None else Some (escape param))"
proof -
  have "length (filter special param) < length param \<longleftrightarrow> \<not> (\<forall>c \<in> set param. special c)"
    using filter_True [of param special] length_filter_less [of _ param special] by fastforce
  then show ?thesis
    by (auto simp: escape_param_eq strict_alloc_def length_escape)
qed

theorem escape_param_overflow_witness:
  "escape_param strict_alloc ''a b'' = Some (''a'' @ [backslash] @ '' b'') \<and>
   escape_param strict_alloc [] = None"
  using escape_param_overflow [of "''a b''"] escape_param_overflow [of "[]"]
  by (simp add: special_def blank_def quote_def)

text \<open>
  On the GNU C library the slack of a block hides this for most lengths, but a parameter of
  12, 20, 28, ... blanks or quotation marks still overruns it.
\<close>
theorem escape_param_overflow_glibc:
  assumes "\<forall>c \<in> set param. special c" "length param = 8 * k + 12"
  shows "escape_param glibc_alloc param = None"
proof -
  have "length (escape param) = 16 * k + 24"
    using assms by (simp add: length_escape)
  moreover have "(16 * k + 47) div 16 = k + 2"
    by presburger
  then have "glibc_alloc (length param * 2) = 16 * k + 24"
    using assms(2) by (simp add: glibc_alloc_def algebra_simps)
  ultimately show ?thesis
    by (simp add: escape_param_eq)
qed

theorem escape_param_overflow_glibc_witness:
  "escape_param glibc_alloc (replicate 12 blank) = None"
  by (rule escape_param_overflow_glibc [where k = 0]) (simp_all add: special_def)

lemma shell_recv_run:
  assumes "\<forall>d \<in> set ds. 2 \<le> length d \<and> length d < 128 \<and> NUL \<notin> set d" "ds \<noteq> []"
  shows "bitu_shell_recv (map (\<lambda>d. Select_ready [Recv_data d]) ds @ [Select_none]) =
    Some (concat ds @ [newline], length (concat ds))"
proof -
  have "shell_recv_loop (map (\<lambda>d. Select_ready [Recv_data d]) ds @ [Select_none]) out hasdata n =
      Some (if hasdata \<or> ds \<noteq> [] then out @ concat ds @ [newline] else out, n + length (concat ds))"
    for out hasdata n
    using assms(1)
    by (induction ds arbitrary: out hasdata n) (auto simp: shell_recv1_def)
  then show ?thesis
    using assms(2) by (simp add: bitu_shell_recv_def)
qed

text \<open>
  C33. The client prints an answer that arrives in pieces of 2 to 127 bytes completely and in
  order, ends it with one line break, and returns its length.
\<close>
theorem shell_recv_prints_answer:
  assumes "\<forall>d \<in> set ds. 2 \<le> length d \<and> length d < 128 \<and> NUL \<notin> set d" "ds \<noteq> []"
  shows "bitu_shell_recv (map (\<lambda>d. Select_ready [Recv_data d]) ds @ [Select_none]) =
    Some (concat ds @ [newline], length (concat ds))"
  by (rule shell_recv_run [OF assms])

theorem shell_recv_prints_answer_witness:
  "bitu_shell_recv [Select_ready [Recv_data ''ab''], Select_ready [Recv_data ''cd''], Select_none] =
    Some (''abcd'' @ [newline], 4)"
  using shell_recv_prints_answer [of "[''ab'', ''cd'']"] by (simp add: NUL_def)

text \<open>
  The client takes a piece of one byte for the terminator: it drops the byte and stops
  reading, so that an answer of one character is never shown.
\<close>
theorem shell_recv_drops_single_byte:
  "bitu_shell_recv (Select_ready [Recv_data [c]] # rs) = Some ([], 0)"
  by (simp add: bitu_shell_recv_def shell_recv1_def)

text \<open>
  A piece that fills the buffer of 128 bytes makes the client store the terminating zero
  behind it.
\<close>
theorem shell_recv_overflow:
  assumes "length d = 128"
  shows "bitu_shell_recv (Select_ready [Recv_data d] # rs) = None"
  using assms by (simp add: bitu_shell_recv_def shell_recv1_def)

theorem shell_recv_overflow_witness:
  "bitu_shell_recv [Select_ready [Recv_data (replicate 128 blank)], Select_none] = None"
  by (rule shell_recv_overflow) simp

section \<open>The options of \<open>bituctl\<close>\<close>

text \<open>
  The path of the socket may be given in the same word as the option or in the next one. In
  the first case \<open>bituctl\<close> runs the command given after it; in the second case it counts one
  word too few and sends the path of the socket as the command.
\<close>
theorem bituctl_socket_option:
  assumes "se_socket env" "se_connect env" "se_send env" "length path < 108"
    and "bitu_shell_recv (se_answers env) = Some (out, n)"
    and "build_cmdline U cmd params = Some line" "build_cmdline U path (cmd # params) = Some line'"
  shows "shell_main U env prname [Opt_socket_joined path] (cmd # params) = Some (Shell_exit True [line] out None) \<and>
    shell_main U env prname [Opt_socket_separate path] (cmd # params) = Some (Shell_exit True [line'] out None)"
  using assms by (simp add: shell_main_def permuted_argv_def Let_def)

theorem bituctl_socket_option_witness:
  "shell_main glibc_alloc \<lparr>se_socket = True, se_connect = True, se_send = True, se_answers = [Select_none],
      se_rounds = [], se_home = None, se_history = [], se_version = [], se_bugreport = []\<rparr> ''bituctl'' [Opt_socket_joined ''/run/b''] [''env''] = Some (Shell_exit True [''env''] [] None) \<and>
   shell_main glibc_alloc \<lparr>se_socket = True, se_connect = True, se_send = True, se_answers = [Select_none],
      se_rounds = [], se_home = None, se_history = [], se_version = [], se_bugreport = []\<rparr> ''bituctl'' [Opt_socket_separate ''/run/b''] [''env''] =
    Some (Shell_exit True [''/run/b env''] [] None)"
proof (rule bituctl_socket_option)
  show "build_cmdline glibc_alloc ''env'' [] = Some ''env''"
    and "build_cmdline glibc_alloc ''/run/b'' [''env''] = Some ''/run/b env''"
    and "bitu_shell_recv (se_answers \<lparr>se_socket = True, se_connect = True, se_send = True,
      se_answers = [Select_none], se_rounds = [], se_home = None, se_history = [], se_version = [],
      se_bugreport = []\<rparr>) = Some ([], 0)"
    by code_simp+
qed simp_all

end
