(* ===== verification/TaList.thy ===== *)
theory TaList
  imports Prelude
begin

text \<open>
  The linked lists of the library taningia (\<open>ta_list_t\<close>), whose code is not part of the
  repository. A list is a list of data pointers, which is what the code reads through the
  fields \<open>data\<close> and \<open>next\<close>; the library's functions are parameters of the model, collected
  in a record, and \<open>ta_list_ok\<close> states what their callers rely on.
\<close>

record 'd ta_list_api =
  ta_append :: "'d list \<Rightarrow> 'd \<Rightarrow> 'd list"
  ta_prepend :: "'d list \<Rightarrow> 'd \<Rightarrow> 'd list"
  ta_pop :: "'d list \<Rightarrow> 'd list \<times> 'd option"
  ta_len :: "'d list \<Rightarrow> nat"

text \<open>
  \<open>ta_list_append\<close> adds at the end and \<open>ta_list_prepend\<close> at the front; \<open>ta_list_pop\<close> unlinks the
  last node and gives it back, or NULL for an empty list; \<open>ta_list_len\<close> counts the nodes.
\<close>

definition ta_list_ok :: "'d ta_list_api \<Rightarrow> bool" where
  "ta_list_ok T \<longleftrightarrow>
     (\<forall>xs x. ta_append T xs x = xs @ [x]) \<and> (\<forall>xs x. ta_prepend T xs x = x # xs) \<and>
     ta_pop T [] = ([], None) \<and> (\<forall>xs x. ta_pop T (xs @ [x]) = (xs, Some x)) \<and>
     (\<forall>xs. ta_len T xs = length xs)"

text \<open>Functions with this behaviour, for concrete runs.\<close>

definition plain_list_api :: "'d ta_list_api" where
  "plain_list_api = \<lparr>ta_append = \<lambda>xs x. xs @ [x], ta_prepend = \<lambda>xs x. x # xs,
     ta_pop = \<lambda>xs. if xs = [] then ([], None) else (butlast xs, Some (last xs)), ta_len = length\<rparr>"

lemma plain_list_ok: "ta_list_ok plain_list_api"
  by (simp add: ta_list_ok_def plain_list_api_def)

locale ta_list =
  fixes T :: "'d ta_list_api"
  assumes ok: "ta_list_ok T"
begin

lemma append_law [simp]: "ta_append T xs x = xs @ [x]"
  and prepend_law [simp]: "ta_prepend T xs x = x # xs"
  and pop_Nil [simp]: "ta_pop T [] = ([], None)"
  and pop_snoc [simp]: "ta_pop T (xs @ [x]) = (xs, Some x)"
  and len_law [simp]: "ta_len T xs = length xs"
  using ok by (auto simp: ta_list_ok_def)

lemma pop_law: "xs \<noteq> [] \<Longrightarrow> ta_pop T xs = (butlast xs, Some (last xs))"
  using pop_snoc [of "butlast xs" "last xs"] by simp

lemma append_all: "foldl (ta_append T) xs ys = xs @ ys"
  by (induction ys arbitrary: xs) simp_all

end

interpretation plain: ta_list plain_list_api
  by unfold_locales (rule plain_list_ok)

end
