(* ===== verification/Queue.thy ===== *)
theory Queue
  imports TaList
begin

text \<open>
  The command queue of \<open>src/transport.c\<close> (\<open>bitu_queue_t\<close>): the list and its bound, and the
  threads that work on it. Every transport's thread is a producer and calls
  \<open>bitu_queue_add\<close>; one thread runs \<open>bitu_queue_consume\<close>. One step of the system is one step of a
  thread between two of its calls of the thread library.
\<close>

section \<open>The queue\<close>

text \<open>A data pointer is \<open>None\<close> when it is NULL.\<close>

record 'c bitu_queue =
  q_list :: "'c option list"
  q_running :: bool
  q_maxsize :: nat

definition COMMAND_QUEUE_SIZE :: nat where
  "COMMAND_QUEUE_SIZE = 10"

definition bitu_queue_new :: "'c bitu_queue" where
  "bitu_queue_new = \<lparr>q_list = [], q_running = False, q_maxsize = COMMAND_QUEUE_SIZE\<rparr>"

text \<open>
  The blocks of a queue, and those that \<open>bitu_queue_free\<close> releases: not the cells of the list.
\<close>

datatype 'c queue_block = Mutex | Not_full | Not_empty | Queue_block | Cell "'c option"

definition bitu_queue_free :: "'c bitu_queue \<Rightarrow> 'c queue_block list" where
  "bitu_queue_free q = [Mutex, Not_full, Not_empty, Queue_block]"

definition queue_blocks :: "'c bitu_queue \<Rightarrow> 'c queue_block list" where
  "queue_blocks q = [Mutex, Not_full, Not_empty, Queue_block] @ map Cell (q_list q)"

lemma queue_free_complete: "set (queue_blocks q) \<subseteq> set (bitu_queue_free q) \<longleftrightarrow> q_list q = []"
  by (cases "q_list q") (auto simp: queue_blocks_def bitu_queue_free_def)

text \<open>\<open>_bitu_queue_pop\<close>: NULL for an empty list.\<close>

definition bitu_queue_pop :: "'c option ta_list_api \<Rightarrow> 'c bitu_queue \<Rightarrow> 'c bitu_queue \<times> 'c option" where
  "bitu_queue_pop T q =
     (let (xs, popped_out) = ta_pop T (q_list q) in
      (q\<lparr>q_list := xs\<rparr>, case popped_out of None \<Rightarrow> None | Some data \<Rightarrow> data))"

text \<open>
  \<open>bitu_queue_add\<close> when no other thread runs: on a full queue the call waits for ever.
\<close>

definition bitu_queue_add ::
    "'c option ta_list_api \<Rightarrow> 'c bitu_queue \<Rightarrow> 'c option \<Rightarrow> 'c bitu_queue option" where
  "bitu_queue_add T q data =
     (if q_maxsize q \<le> ta_len T (q_list q) then None
      else Some (q\<lparr>q_list := ta_prepend T (q_list q) data\<rparr>))"

section \<open>Threads\<close>

text \<open>Where a producer is in \<open>bitu_queue_add (queue, data)\<close>.\<close>

datatype 'c producer =
    P_idle
  | P_lock "'c option"    (* before pthread_mutex_lock *)
  | P_check "'c option"   (* at the condition of the while loop *)
  | P_wait "'c option"    (* waiting for not_full *)
  | P_wake "'c option"    (* woken up, before pthread_cond_wait has the mutex again *)
  | P_insert "'c option"  (* before ta_list_prepend *)
  | P_unlock              (* before pthread_mutex_unlock *)
  | P_signal              (* before pthread_cond_signal *)

text \<open>Where the consumer is in \<open>bitu_queue_consume\<close>.\<close>

datatype 'c consumer =
    C_start               (* before queue->running = 1 *)
  | C_test                (* at the condition of the outer loop *)
  | C_lock
  | C_check               (* at the condition of the inner loop *)
  | C_wait                (* waiting for not_empty *)
  | C_wake
  | C_pop                 (* before _bitu_queue_pop *)
  | C_call 'c             (* in the callback *)
  | C_unlock
  | C_signal
  | C_done

datatype tid = Producer nat | Consumer

text \<open>
  \<open>owner\<close> is the thread that holds the mutex. The last three fields do not exist in the
  program: the data pointers in the order in which they were put into the list, in the
  order in which they were taken out, and the arguments of the callback.
\<close>

record 'c qsys =
  queue :: "'c bitu_queue"
  owner :: "tid option"
  producers :: "'c producer list"
  consumer :: "'c consumer"
  added :: "'c option list"
  popped :: "'c option list"
  called :: "'c list"

abbreviation set_producer :: "'c qsys \<Rightarrow> nat \<Rightarrow> 'c producer \<Rightarrow> 'c qsys" where
  "set_producer s i p \<equiv> s\<lparr>producers := (producers s)[i := p]\<rparr>"

definition at :: "'c qsys \<Rightarrow> nat \<Rightarrow> 'c producer \<Rightarrow> bool" where
  "at s i p \<longleftrightarrow> i < length (producers s) \<and> producers s ! i = p"

text \<open>
  \<open>pthread_cond_signal\<close> wakes up one of the threads that wait for the condition, if there
  are any. For \<open>not_empty\<close> that can only be the consumer.
\<close>

definition signal_not_empty :: "'c qsys \<Rightarrow> 'c qsys" where
  "signal_not_empty s = (if consumer s = C_wait then s\<lparr>consumer := C_wake\<rparr> else s)"

definition waiting :: "'c producer \<Rightarrow> bool" where
  "waiting p = (case p of P_wait _ \<Rightarrow> True | _ \<Rightarrow> False)"

text \<open>
  The steps that the threads make on their own. For \<open>not_full\<close> any waiting producer may be
  the one that is woken up.
\<close>

inductive qstep :: "'c option ta_list_api \<Rightarrow> 'c qsys \<Rightarrow> 'c qsys \<Rightarrow> bool" for T where
  P_lock: "at s i (P_lock d) \<Longrightarrow> owner s = None \<Longrightarrow>
     qstep T s ((set_producer s i (P_check d))\<lparr>owner := Some (Producer i)\<rparr>)"
| P_full: "at s i (P_check d) \<Longrightarrow> q_maxsize (queue s) \<le> ta_len T (q_list (queue s)) \<Longrightarrow>
     qstep T s ((set_producer s i (P_wait d))\<lparr>owner := None\<rparr>)"
| P_room: "at s i (P_check d) \<Longrightarrow> \<not> q_maxsize (queue s) \<le> ta_len T (q_list (queue s)) \<Longrightarrow>
     qstep T s (set_producer s i (P_insert d))"
| P_wake: "at s i (P_wake d) \<Longrightarrow> owner s = None \<Longrightarrow>
     qstep T s ((set_producer s i (P_check d))\<lparr>owner := Some (Producer i)\<rparr>)"
| P_insert: "at s i (P_insert d) \<Longrightarrow>
     qstep T s ((set_producer s i P_unlock)\<lparr>
       queue := (queue s)\<lparr>q_list := ta_prepend T (q_list (queue s)) d\<rparr>, added := added s @ [d]\<rparr>)"
| P_unlock: "at s i P_unlock \<Longrightarrow> qstep T s ((set_producer s i P_signal)\<lparr>owner := None\<rparr>)"
| P_signal: "at s i P_signal \<Longrightarrow> qstep T s (signal_not_empty (set_producer s i P_idle))"
| C_start: "consumer s = C_start \<Longrightarrow>
     qstep T s (s\<lparr>consumer := C_test, queue := (queue s)\<lparr>q_running := True\<rparr>\<rparr>)"
| C_test: "consumer s = C_test \<Longrightarrow>
     qstep T s (s\<lparr>consumer := if q_running (queue s) then C_lock else C_done\<rparr>)"
| C_lock: "consumer s = C_lock \<Longrightarrow> owner s = None \<Longrightarrow>
     qstep T s (s\<lparr>consumer := C_check, owner := Some Consumer\<rparr>)"
| C_empty: "consumer s = C_check \<Longrightarrow> ta_len T (q_list (queue s)) = 0 \<Longrightarrow>
     qstep T s (s\<lparr>consumer := C_wait, owner := None\<rparr>)"
| C_some: "consumer s = C_check \<Longrightarrow> ta_len T (q_list (queue s)) \<noteq> 0 \<Longrightarrow>
     qstep T s (s\<lparr>consumer := C_pop\<rparr>)"
| C_wake: "consumer s = C_wake \<Longrightarrow> owner s = None \<Longrightarrow>
     qstep T s (s\<lparr>consumer := C_check, owner := Some Consumer\<rparr>)"
| C_pop: "consumer s = C_pop \<Longrightarrow> bitu_queue_pop T (queue s) = (q, data) \<Longrightarrow>
     qstep T s (s\<lparr>queue := q, popped := popped s @ [data],
       consumer := case data of None \<Rightarrow> C_unlock | Some d \<Rightarrow> C_call d\<rparr>)"
| C_call: "consumer s = C_call d \<Longrightarrow>
     qstep T s (s\<lparr>called := called s @ [d], consumer := C_unlock\<rparr>)"
| C_unlock: "consumer s = C_unlock \<Longrightarrow> qstep T s (s\<lparr>consumer := C_signal, owner := None\<rparr>)"
| C_signal: "consumer s = C_signal \<Longrightarrow> at s i (P_wait d) \<Longrightarrow>
     qstep T s ((set_producer s i (P_wake d))\<lparr>consumer := C_test\<rparr>)"
| C_signal_none: "consumer s = C_signal \<Longrightarrow> \<forall>p \<in> set (producers s). \<not> waiting p \<Longrightarrow>
     qstep T s (s\<lparr>consumer := C_test\<rparr>)"

text \<open>
  The steps of the environment: a transport calls \<open>bitu_queue_add\<close>, and \<open>pthread_cond_wait\<close>
  returns without a signal, as POSIX allows.
\<close>

inductive qenv :: "'c qsys \<Rightarrow> 'c qsys \<Rightarrow> bool" where
  Call: "at s i P_idle \<Longrightarrow> qenv s (set_producer s i (P_lock d))"
| Spurious_producer: "at s i (P_wait d) \<Longrightarrow> qenv s (set_producer s i (P_wake d))"
| Spurious_consumer: "consumer s = C_wait \<Longrightarrow> qenv s (s\<lparr>consumer := C_wake\<rparr>)"

definition qinit :: "nat \<Rightarrow> 'c qsys" where
  "qinit n = \<lparr>queue = bitu_queue_new, owner = None, producers = replicate n P_idle, consumer = C_start,
     added = [], popped = [], called = []\<rparr>"

inductive qreach :: "'c option ta_list_api \<Rightarrow> nat \<Rightarrow> 'c qsys \<Rightarrow> bool" for T n where
  init: "qreach T n (qinit n)"
| step: "qreach T n s \<Longrightarrow> qstep T s s' \<Longrightarrow> qreach T n s'"
| env: "qreach T n s \<Longrightarrow> qenv s s' \<Longrightarrow> qreach T n s'"

text \<open>Nothing is left to do: the queue is empty, no call is under way, and the consumer waits.\<close>

definition quiescent :: "'c qsys \<Rightarrow> bool" where
  "quiescent s \<longleftrightarrow> q_list (queue s) = [] \<and> set (producers s) \<subseteq> {P_idle} \<and> consumer s = C_wait"

inductive_cases qstepE: "qstep T s s'"
inductive_cases qenvE: "qenv s s'"

end
