(* ===== verification/Queue_Correct.thy ===== *)
theory Queue_Correct
  imports Queue "HOL-Library.Multiset"
begin

text \<open>
  The invariants of the command queue's threads, one group per lemma: who holds the mutex, the
  bounds of the list, the order of the commands, and the signals that are still to come.
\<close>

section \<open>Counting producers\<close>

definition count_p :: "('c producer \<Rightarrow> bool) \<Rightarrow> 'c qsys \<Rightarrow> nat" where
  "count_p P s = length (filter P (producers s))"

lemma count_list_update:
  "i < length xs \<Longrightarrow> length (filter P (xs[i := x])) + (if P (xs ! i) then 1 else 0) =
     length (filter P xs) + (if P x then 1 else 0)"
proof (induction xs arbitrary: i)
  case (Cons y xs)
  then show ?case by (cases i) auto
qed simp

lemma count_p_set:
  "at s i p \<Longrightarrow> count_p P (set_producer s i p') + (if P p then 1 else 0) = count_p P s + (if P p' then 1 else 0)"
  using count_list_update [of i "producers s" P p'] by (auto simp: count_p_def at_def)

lemma count_p_upd [simp]:
  "count_p P (s\<lparr>queue := q\<rparr>) = count_p P s" "count_p P (s\<lparr>owner := x\<rparr>) = count_p P s"
  "count_p P (s\<lparr>consumer := c\<rparr>) = count_p P s" "count_p P (s\<lparr>added := xs\<rparr>) = count_p P s"
  "count_p P (s\<lparr>popped := xs\<rparr>) = count_p P s" "count_p P (s\<lparr>called := ys\<rparr>) = count_p P s"
  by (simp_all add: count_p_def)

lemma count_p_pos: "0 < count_p P s \<longleftrightarrow> (\<exists>p \<in> set (producers s). P p)"
  by (auto simp: count_p_def filter_empty_conv)

lemma count_p_pos_at: "at s i p \<Longrightarrow> P p \<Longrightarrow> 0 < count_p P s"
  by (auto simp: count_p_pos at_def)

lemma signal_not_empty_simps [simp]:
  "producers (signal_not_empty s) = producers s" "queue (signal_not_empty s) = queue s"
  "owner (signal_not_empty s) = owner s" "added (signal_not_empty s) = added s"
  "popped (signal_not_empty s) = popped s" "called (signal_not_empty s) = called s"
  "consumer (signal_not_empty s) = (if consumer s = C_wait then C_wake else consumer s)"
  by (simp_all add: signal_not_empty_def)

lemma count_p_signal [simp]: "count_p P (signal_not_empty s) = count_p P s"
  by (simp add: count_p_def)

section \<open>The mutex\<close>

text \<open>The program points between \<open>pthread_mutex_lock\<close> and \<open>pthread_mutex_unlock\<close>.\<close>

fun p_holds :: "'c producer \<Rightarrow> bool" where
  "p_holds (P_check _) = True"
| "p_holds (P_insert _) = True"
| "p_holds P_unlock = True"
| "p_holds _ = False"

fun c_holds :: "'c consumer \<Rightarrow> bool" where
  "c_holds C_check = True"
| "c_holds C_pop = True"
| "c_holds (C_call _) = True"
| "c_holds C_unlock = True"
| "c_holds _ = False"

definition lock_inv :: "'c qsys \<Rightarrow> bool" where
  "lock_inv s \<longleftrightarrow>
     (\<forall>i < length (producers s). p_holds (producers s ! i) \<longleftrightarrow> owner s = Some (Producer i)) \<and>
     (\<forall>i. owner s = Some (Producer i) \<longrightarrow> i < length (producers s)) \<and>
     (c_holds (consumer s) \<longleftrightarrow> owner s = Some Consumer)"

lemma lock_inv_at: "lock_inv s \<Longrightarrow> at s i p \<Longrightarrow> p_holds p \<longleftrightarrow> owner s = Some (Producer i)"
  by (auto simp: lock_inv_def at_def)

lemma lock_inv_step: "qstep T s s' \<Longrightarrow> lock_inv s \<Longrightarrow> lock_inv s'"
proof (induction rule: qstep.induct)
  case (C_pop s q data)
  then show ?case by (auto simp: lock_inv_def at_def split: option.splits)
qed (auto simp: lock_inv_def at_def nth_list_update)

lemma lock_inv_env: "qenv s s' \<Longrightarrow> lock_inv s \<Longrightarrow> lock_inv s'"
  by (induction rule: qenv.induct) (auto simp: lock_inv_def at_def nth_list_update)

section \<open>The list\<close>

fun inserting :: "'c producer \<Rightarrow> bool" where
  "inserting (P_insert _) = True"
| "inserting _ = False"

definition list_inv :: "'c qsys \<Rightarrow> bool" where
  "list_inv s \<longleftrightarrow> q_maxsize (queue s) = 10 \<and> length (q_list (queue s)) \<le> 10 \<and>
     (0 < count_p inserting s \<longrightarrow> length (q_list (queue s)) < 10) \<and>
     (consumer s = C_pop \<longrightarrow> q_list (queue s) \<noteq> []) \<and>
     (consumer s = C_start \<or> q_running (queue s)) \<and> consumer s \<noteq> C_done"

lemma inserting_holds: "inserting p \<Longrightarrow> p_holds p"
  by (cases p) auto

lemma lock_inv_alone:
  assumes "lock_inv s" "at s i p" "p_holds p"
  shows "count_p inserting s \<le> (if inserting p then 1 else 0)" "\<not> c_holds (consumer s)"
proof -
  have o: "owner s = Some (Producer i)"
    using lock_inv_at [OF assms(1,2)] assms(3) by simp
  then show "\<not> c_holds (consumer s)"
    using assms(1) by (simp add: lock_inv_def)
  have others: "\<not> inserting (producers s ! j)" if "j < length (producers s)" "j \<noteq> i" for j
    using assms(1) o that inserting_holds by (auto simp: lock_inv_def)
  have i: "i < length (producers s)" "producers s ! i = p"
    using assms(2) by (auto simp: at_def)
  then have "length (filter inserting ((producers s)[i := P_idle])) = 0"
    using others by (auto simp: filter_empty_conv in_set_conv_nth nth_list_update split: if_splits)
  then show "count_p inserting s \<le> (if inserting p then 1 else 0)"
    using count_list_update [OF i(1), of inserting P_idle] i(2) by (auto simp: count_p_def)
qed

lemma lock_inv_consumer:
  assumes "lock_inv s" "c_holds (consumer s)"
  shows "count_p inserting s = 0"
proof -
  have "\<not> inserting p" if p: "p \<in> set (producers s)" for p
  proof -
    obtain j where "j < length (producers s)" "producers s ! j = p"
      using p by (auto simp: in_set_conv_nth)
    then show ?thesis
      using assms inserting_holds [of p] by (auto simp: lock_inv_def)
  qed
  then show ?thesis
    by (auto simp: count_p_def filter_empty_conv)
qed

text \<open>The queue on a library of lists that keeps its promises.\<close>

locale queue_list = ta_list T for T :: "'c option ta_list_api"
begin

lemma pop_run:
  "q_list q \<noteq> [] \<Longrightarrow> bitu_queue_pop T q = (q\<lparr>q_list := butlast (q_list q)\<rparr>, last (q_list q))"
  by (simp add: bitu_queue_pop_def pop_law)

lemma list_inv_step: "qstep T s s' \<Longrightarrow> lock_inv s \<Longrightarrow> list_inv s \<Longrightarrow> list_inv s'"
proof (induction rule: qstep.induct)
  case (P_insert s i d)
  show ?case
    using P_insert(3) lock_inv_alone [OF P_insert(2,1)] count_p_pos_at [OF P_insert(1), of inserting]
      count_p_set [OF P_insert(1), of inserting P_unlock]
    by (auto simp: list_inv_def)
next
  case (P_room s i d)
  show ?case
    using P_room(2-4) lock_inv_alone(2) [OF P_room(3,1)] by (auto simp: list_inv_def)
next
  case (C_pop s q data)
  have ne: "q_list (queue s) \<noteq> []"
    using C_pop by (simp add: list_inv_def)
  then have q: "q = (queue s)\<lparr>q_list := butlast (q_list (queue s))\<rparr>"
    using C_pop(2) pop_run by simp
  have "count_p inserting s = 0"
    using lock_inv_consumer [OF C_pop(3)] C_pop(1) by simp
  then show ?case
    using C_pop(1,4) by (auto simp: list_inv_def q split: option.splits)
next
  case (P_lock s i d)
  then show ?case
    using count_p_set [OF P_lock(1), of inserting "P_check d"] by (auto simp: list_inv_def)
next
  case (P_full s i d)
  then show ?case
    using count_p_set [OF P_full(1), of inserting "P_wait d"] by (auto simp: list_inv_def)
next
  case (P_wake s i d)
  then show ?case
    using count_p_set [OF P_wake(1), of inserting "P_check d"] by (auto simp: list_inv_def)
next
  case (P_unlock s i)
  then show ?case
    using count_p_set [OF P_unlock(1), of inserting "P_signal"] by (auto simp: list_inv_def)
next
  case (P_signal s i)
  then show ?case
    using count_p_set [OF P_signal(1), of inserting "P_idle"] by (auto simp: list_inv_def)
next
  case (C_signal s i d)
  then show ?case
    using count_p_set [OF C_signal(2), of inserting "P_wake d"] by (auto simp: list_inv_def)
qed (auto simp: list_inv_def)

lemma list_inv_env: "qenv s s' \<Longrightarrow> list_inv s \<Longrightarrow> list_inv s'"
proof (induction rule: qenv.induct)
  case (Call s i d)
  then show ?case
    using count_p_set [OF Call(1), of inserting "P_lock d"] by (auto simp: list_inv_def)
next
  case (Spurious_producer s i d)
  then show ?case
    using count_p_set [OF Spurious_producer(1), of inserting "P_wake d"] by (auto simp: list_inv_def)
qed (auto simp: list_inv_def)

end

section \<open>The order of the commands\<close>

definition somes :: "'c option list \<Rightarrow> 'c list" where
  "somes xs = concat (map (\<lambda>x. case x of None \<Rightarrow> [] | Some d \<Rightarrow> [d]) xs)"

lemma somes_append [simp]: "somes (xs @ ys) = somes xs @ somes ys"
  by (simp add: somes_def)

lemma somes_simps [simp]: "somes [] = []" "somes (None # xs) = somes xs" "somes (Some d # xs) = d # somes xs"
  by (simp_all add: somes_def)

definition in_call :: "'c qsys \<Rightarrow> 'c list" where
  "in_call s = (case consumer s of C_call d \<Rightarrow> [d] | _ \<Rightarrow> [])"

definition fifo_inv :: "'c qsys \<Rightarrow> bool" where
  "fifo_inv s \<longleftrightarrow> added s = popped s @ rev (q_list (queue s)) \<and> somes (popped s) = called s @ in_call s"

context queue_list
begin

lemma fifo_inv_step: "qstep T s s' \<Longrightarrow> list_inv s \<Longrightarrow> fifo_inv s \<Longrightarrow> fifo_inv s'"
proof (induction rule: qstep.induct)
  case (C_pop s q data)
  have ne: "q_list (queue s) \<noteq> []"
    using C_pop by (simp add: list_inv_def)
  then have q: "q = (queue s)\<lparr>q_list := butlast (q_list (queue s))\<rparr>" "data = last (q_list (queue s))"
    using C_pop(2) pop_run by simp_all
  have "rev (q_list (queue s)) = data # rev (butlast (q_list (queue s)))"
    using ne q(2) by (metis append_butlast_last_id rev_eq_Cons_iff rev_rev_ident)
  then show ?case
    using C_pop(1,4) q by (auto simp: fifo_inv_def in_call_def split: option.splits)
qed (auto simp: fifo_inv_def in_call_def split: consumer.splits)

end

lemma fifo_inv_env: "qenv s s' \<Longrightarrow> fifo_inv s \<Longrightarrow> fifo_inv s'"
  by (induction rule: qenv.induct) (auto simp: fifo_inv_def in_call_def)

section \<open>Signals that are still to come\<close>

text \<open>A producer that is going to signal \<open>not_empty\<close>, and one that is going to look at the list.\<close>

fun telling :: "'c producer \<Rightarrow> bool" where
  "telling P_unlock = True"
| "telling P_signal = True"
| "telling _ = False"

fun active :: "'c producer \<Rightarrow> bool" where
  "active (P_check _) = True"
| "active (P_wake _) = True"
| "active (P_insert _) = True"
| "active _ = False"

text \<open>The consumer is going to signal \<open>not_full\<close>.\<close>

fun c_telling :: "'c consumer \<Rightarrow> bool" where
  "c_telling (C_call _) = True"
| "c_telling C_unlock = True"
| "c_telling C_signal = True"
| "c_telling _ = False"

definition wake_inv :: "'c qsys \<Rightarrow> bool" where
  "wake_inv s \<longleftrightarrow>
     (consumer s = C_wait \<longrightarrow> q_list (queue s) = [] \<or> 0 < count_p telling s) \<and>
     (0 < count_p waiting s \<longrightarrow>
        10 \<le> length (q_list (queue s)) + count_p active s + (if c_telling (consumer s) then 1 else 0))"

lemma waiting_simps [simp]:
  "waiting (P_wait d)" "\<not> waiting P_idle" "\<not> waiting (P_lock d)" "\<not> waiting (P_check d)"
  "\<not> waiting (P_wake d)" "\<not> waiting (P_insert d)" "\<not> waiting P_unlock" "\<not> waiting P_signal"
  by (simp_all add: waiting_def)

lemmas count_p_sets = count_p_set [where P = telling] count_p_set [where P = waiting] count_p_set [where P = active]

context queue_list
begin

lemma wake_inv_step: "qstep T s s' \<Longrightarrow> list_inv s \<Longrightarrow> wake_inv s \<Longrightarrow> wake_inv s'"
proof (induction rule: qstep.induct)
  case (P_lock s i d)
  then show ?case
    using count_p_sets [OF P_lock(1), of "P_check d"] by (auto simp: wake_inv_def)
next
  case (P_full s i d)
  then show ?case
    using count_p_sets [OF P_full(1), of "P_wait d"] by (auto simp: wake_inv_def list_inv_def)
next
  case (P_room s i d)
  then show ?case
    using count_p_sets [OF P_room(1), of "P_insert d"] by (auto simp: wake_inv_def)
next
  case (P_wake s i d)
  then show ?case
    using count_p_sets [OF P_wake(1), of "P_check d"] by (auto simp: wake_inv_def)
next
  case (P_insert s i d)
  then show ?case
    using count_p_sets [OF P_insert(1), of P_unlock] by (auto simp: wake_inv_def)
next
  case (P_unlock s i)
  then show ?case
    using count_p_sets [OF P_unlock(1), of P_signal] by (auto simp: wake_inv_def)
next
  case (P_signal s i)
  then show ?case
    using count_p_sets [OF P_signal(1), of P_idle] by (auto simp: wake_inv_def)
next
  case (C_signal s i d)
  then show ?case
    using count_p_sets [OF C_signal(2), of "P_wake d"] by (auto simp: wake_inv_def)
next
  case (C_signal_none s)
  then have "count_p waiting s = 0"
    by (auto simp: count_p_def filter_empty_conv)
  then show ?case
    using C_signal_none by (auto simp: wake_inv_def)
next
  case (C_pop s q data)
  have "q_list (queue s) \<noteq> []"
    using C_pop by (simp add: list_inv_def)
  then have "q = (queue s)\<lparr>q_list := butlast (q_list (queue s))\<rparr>"
    using C_pop(2) pop_run by simp
  then show ?case
    using C_pop(1,4) by (cases data) (auto simp: wake_inv_def)
qed (auto simp: wake_inv_def)

end

lemma wake_inv_env: "qenv s s' \<Longrightarrow> wake_inv s \<Longrightarrow> wake_inv s'"
proof (induction rule: qenv.induct)
  case (Call s i d)
  then show ?case
    using count_p_sets [OF Call(1), of "P_lock d"] by (auto simp: wake_inv_def)
next
  case (Spurious_producer s i d)
  then show ?case
    using count_p_sets [OF Spurious_producer(1), of "P_wake d"] by (auto simp: wake_inv_def)
qed (auto simp: wake_inv_def)

section \<open>Reachable states\<close>

context queue_list
begin

lemma reach_invs:
  "qreach T n s \<Longrightarrow> lock_inv s \<and> list_inv s \<and> fifo_inv s \<and> wake_inv s"
proof (induction rule: qreach.induct)
  case init
  show ?case
    by (auto simp: qinit_def lock_inv_def list_inv_def fifo_inv_def wake_inv_def in_call_def count_p_def
        bitu_queue_new_def COMMAND_QUEUE_SIZE_def)
next
  case (step s s')
  then show ?case
    using lock_inv_step list_inv_step fifo_inv_step wake_inv_step by blast
next
  case (env s s')
  then show ?case
    using lock_inv_env list_inv_env fifo_inv_env wake_inv_env by blast
qed

text \<open>The thread that holds the mutex can go on.\<close>

lemma holder_steps:
  assumes "lock_inv s" "owner s \<noteq> None"
  shows "\<exists>s'. qstep T s s'"
proof (cases "owner s")
  case None
  then show ?thesis using assms(2) by simp
next
  case (Some t)
  show ?thesis
  proof (cases t)
    case (Producer i)
    then have at: "at s i (producers s ! i)" and h: "p_holds (producers s ! i)"
      using assms(1) Some by (auto simp: lock_inv_def at_def)
    then consider d where "at s i (P_check d)" | d where "at s i (P_insert d)" | "at s i P_unlock"
      by (cases "producers s ! i") auto
    then show ?thesis
      by cases (blast intro: qstep.intros)+
  next
    case Consumer
    then have "c_holds (consumer s)"
      using assms(1) Some by (simp add: lock_inv_def)
    then consider "consumer s = C_check" | "consumer s = C_pop" | d where "consumer s = C_call d" | "consumer s = C_unlock"
      by (cases "consumer s") auto
    then show ?thesis
    proof cases
      case 2
      obtain q data where "bitu_queue_pop T (queue s) = (q, data)"
        by (cases "bitu_queue_pop T (queue s)")
      then show ?thesis
        using qstep.C_pop [OF 2] by blast
    qed (blast intro: qstep.intros)+
  qed
qed

lemma progress:
  assumes "lock_inv s" "list_inv s" "wake_inv s" "\<not> quiescent s"
  shows "\<exists>s'. qstep T s s'"
proof (rule ccontr)
  assume stuck: "\<nexists>s'. qstep T s s'"
  then have free: "owner s = None"
    using holder_steps assms(1) by blast
  have p: "p = P_idle \<or> waiting p" if mem: "p \<in> set (producers s)" for p
  proof -
    obtain i where i: "at s i p"
      using mem by (auto simp: at_def in_set_conv_nth)
    show ?thesis
      using stuck free i lock_inv_at [OF assms(1) i] by (cases p) (auto intro: qstep.intros)
  qed
  have "\<not> telling p \<and> \<not> active p" if "p \<in> set (producers s)" for p
    using p [OF that] by (cases p) auto
  then have none: "count_p telling s = 0" "count_p active s = 0"
    by (auto simp: count_p_def filter_empty_conv)
  have "consumer s \<noteq> C_signal"
  proof
    assume sig: "consumer s = C_signal"
    show False
    proof (cases "\<exists>p \<in> set (producers s). waiting p")
      case True
      then obtain i p where p: "at s i p" "waiting p"
        by (auto simp: at_def in_set_conv_nth)
      then obtain d where "at s i (P_wait d)"
        by (cases p) auto
      then show False
        using stuck qstep.C_signal [OF sig] by blast
    next
      case False
      then show False
        using stuck qstep.C_signal_none [OF sig] by blast
    qed
  qed
  then have c: "consumer s = C_wait"
    using stuck free assms(1,2)
    by (cases "consumer s") (auto simp: lock_inv_def list_inv_def intro: qstep.intros)
  then have "q_list (queue s) = []"
    using assms(3) none by (simp add: wake_inv_def)
  moreover from this have "count_p waiting s = 0"
    using assms(3) none c by (auto simp: wake_inv_def)
  then have "set (producers s) \<subseteq> {P_idle}"
    using p by (auto simp: count_p_def filter_empty_conv)
  ultimately show False
    using assms(4) c by (simp add: quiescent_def)
qed

end

section \<open>Every run comes to rest\<close>

lemma sum_list_update_add:
  "i < length xs \<Longrightarrow> sum_list (map f (xs[i := x])) + f (xs ! i) = sum_list (map f xs) + (f x :: 'a :: comm_monoid_add)"
proof (induction xs arbitrary: i)
  case (Cons y xs)
  then show ?case by (cases i) (auto simp: add_ac)
qed simp

lemma sum_producers:
  "at s i p \<Longrightarrow> sum_list (map f (producers (set_producer s i p'))) + f p =
     sum_list (map f (producers s)) + (f p' :: 'a :: comm_monoid_add)"
  using sum_list_update_add [of i "producers s" f p'] by (auto simp: at_def)

fun uninserted :: "'c producer \<Rightarrow> bool" where
  "uninserted P_idle = False"
| "uninserted P_unlock = False"
| "uninserted P_signal = False"
| "uninserted _ = True"

fun p_weight :: "'c producer \<Rightarrow> nat" where
  "p_weight P_idle = 0"
| "p_weight P_signal = 4"
| "p_weight P_unlock = 5"
| "p_weight (P_wait _) = 5"
| "p_weight (P_insert _) = 6"
| "p_weight (P_check _) = 7"
| "p_weight (P_wake _) = 8"
| "p_weight (P_lock _) = 8"

fun c_weight :: "'c consumer \<Rightarrow> nat" where
  "c_weight C_done = 0"
| "c_weight C_wait = 0"
| "c_weight C_pop = 1"
| "c_weight C_check = 2"
| "c_weight C_lock = 3"
| "c_weight C_wake = 3"
| "c_weight C_test = 4"
| "c_weight C_start = 5"
| "c_weight C_signal = 8"
| "c_weight C_unlock = 9"
| "c_weight (C_call _) = 10"

text \<open>How many commands have not been popped, and how far the threads are from waiting.\<close>

definition qmeasure :: "'c qsys \<Rightarrow> nat \<times> nat" where
  "qmeasure s = (length (q_list (queue s)) + count_p uninserted s,
     sum_list (map p_weight (producers s)) + c_weight (consumer s))"

lemmas measure_updates = count_p_set [where P = uninserted] sum_producers [where f = p_weight]

context queue_list
begin

lemma qmeasure_decreases:
  "qstep T s s' \<Longrightarrow> list_inv s \<Longrightarrow> (qmeasure s', qmeasure s) \<in> less_than <*lex*> less_than"
proof (induction rule: qstep.induct)
  case (C_pop s q data)
  have "q_list (queue s) \<noteq> []"
    using C_pop by (simp add: list_inv_def)
  then have "q = (queue s)\<lparr>q_list := butlast (q_list (queue s))\<rparr>" "0 < length (q_list (queue s))"
    using C_pop(2) pop_run by simp_all
  then show ?case
    by (simp add: qmeasure_def)
next
  case (P_lock s i d)
  show ?case using measure_updates [OF P_lock(1), of "P_check d"] by (simp add: qmeasure_def)
next
  case (P_full s i d)
  show ?case using measure_updates [OF P_full(1), of "P_wait d"] by (simp add: qmeasure_def)
next
  case (P_room s i d)
  show ?case using measure_updates [OF P_room(1), of "P_insert d"] by (simp add: qmeasure_def)
next
  case (P_wake s i d)
  show ?case using measure_updates [OF P_wake(1), of "P_check d"] by (simp add: qmeasure_def)
next
  case (P_insert s i d)
  show ?case using measure_updates [OF P_insert(1), of P_unlock] by (simp add: qmeasure_def)
next
  case (P_unlock s i)
  show ?case using measure_updates [OF P_unlock(1), of P_signal] by (simp add: qmeasure_def)
next
  case (P_signal s i)
  show ?case using measure_updates [OF P_signal(1), of P_idle] by (simp add: qmeasure_def)
next
  case (C_signal s i d)
  show ?case using measure_updates [OF C_signal(2), of "P_wake d"] C_signal by (simp add: qmeasure_def)
qed (auto simp: qmeasure_def)

end

section \<open>No command is lost or invented\<close>

text \<open>The data pointers of the calls of \<open>bitu_queue_add\<close> that have not yet inserted them.\<close>

fun in_flight :: "'c producer \<Rightarrow> 'c option multiset" where
  "in_flight (P_lock d) = {#d#}"
| "in_flight (P_check d) = {#d#}"
| "in_flight (P_wait d) = {#d#}"
| "in_flight (P_wake d) = {#d#}"
| "in_flight (P_insert d) = {#d#}"
| "in_flight _ = {#}"

definition pending :: "'c qsys \<Rightarrow> 'c option multiset" where
  "pending s = sum_list (map in_flight (producers s))"

lemma pending_set: "at s i p \<Longrightarrow> pending (set_producer s i p') + in_flight p = pending s + in_flight p'"
  using sum_producers [of s i p in_flight p'] by (simp add: pending_def)

lemma pending_upd [simp]:
  "pending (s\<lparr>queue := q\<rparr>) = pending s" "pending (s\<lparr>owner := x\<rparr>) = pending s"
  "pending (s\<lparr>consumer := c\<rparr>) = pending s" "pending (s\<lparr>added := xs\<rparr>) = pending s"
  "pending (s\<lparr>popped := xs\<rparr>) = pending s" "pending (s\<lparr>called := ys\<rparr>) = pending s"
  "pending (signal_not_empty s) = pending s"
  by (simp_all add: pending_def)

lemma conserved_step: "qstep T s s' \<Longrightarrow> mset (added s') + pending s' = mset (added s) + pending s"
proof (induction rule: qstep.induct)
  case (P_lock s i d)
  show ?case using pending_set [OF P_lock(1), of "P_check d"] by simp
next
  case (P_full s i d)
  show ?case using pending_set [OF P_full(1), of "P_wait d"] by simp
next
  case (P_room s i d)
  show ?case using pending_set [OF P_room(1), of "P_insert d"] by simp
next
  case (P_wake s i d)
  show ?case using pending_set [OF P_wake(1), of "P_check d"] by simp
next
  case (P_insert s i d)
  show ?case using pending_set [OF P_insert(1), of P_unlock] by simp
next
  case (P_unlock s i)
  show ?case using pending_set [OF P_unlock(1), of P_signal] by simp
next
  case (P_signal s i)
  show ?case using pending_set [OF P_signal(1), of P_idle] by simp
next
  case (C_signal s i d)
  show ?case using pending_set [OF C_signal(2), of "P_wake d"] by simp
qed simp_all

lemma conserved_run: "(qstep T)\<^sup>*\<^sup>* s s' \<Longrightarrow> mset (added s') + pending s' = mset (added s) + pending s"
  by (induction rule: rtranclp_induct) (auto dest: conserved_step)

lemma pending_idle: "set (producers s) \<subseteq> {P_idle} \<Longrightarrow> pending s = {#}"
proof -
  have "set ps \<subseteq> {P_idle} \<Longrightarrow> sum_list (map in_flight ps) = {#}" for ps :: "'c producer list"
    by (induction ps) auto
  then show "set (producers s) \<subseteq> {P_idle} \<Longrightarrow> pending s = {#}"
    by (simp add: pending_def)
qed

end
