(* ===== verification/Queue_Props.thy ===== *)
theory Queue_Props
  imports Queue_Correct
begin

text \<open>
  The properties of the command queue: mutual exclusion and bounds, the order of the commands,
  no deadlock, and that every run comes to rest with every command handed to the callback
  once. Each of them holds for any number of transports and for every interleaving of
  their threads with the consumer, spurious wake-ups included.
\<close>

section \<open>The queue without threads\<close>

text \<open>The contract of a bounded queue, and what its clients may conclude.\<close>

locale bounded_fifo =
  fixes enq :: "'q \<Rightarrow> 'e \<Rightarrow> 'q option"
    and deq :: "'q \<Rightarrow> 'q \<times> 'e option"
    and content :: "'q \<Rightarrow> 'e list"
    and room :: "'q \<Rightarrow> nat"
  assumes enq_law: "0 < room q \<Longrightarrow> \<exists>q'. enq q x = Some q' \<and> content q' = content q @ [x] \<and> room q' = room q - 1"
    and enq_full: "room q = 0 \<Longrightarrow> enq q x = None"
    and deq_law: "content q = x # xs \<Longrightarrow> \<exists>q'. deq q = (q', Some x) \<and> content q' = xs"
begin

fun enq_all :: "'q \<Rightarrow> 'e list \<Rightarrow> 'q option" where
  "enq_all q [] = Some q"
| "enq_all q (x # xs) = (case enq q x of None \<Rightarrow> None | Some q' \<Rightarrow> enq_all q' xs)"

fun deq_n :: "'q \<Rightarrow> nat \<Rightarrow> 'e option list" where
  "deq_n q 0 = []"
| "deq_n q (Suc n) = (let (q', x) = deq q in x # deq_n q' n)"

lemma enq_all_law:
  "length xs \<le> room q \<Longrightarrow> \<exists>q'. enq_all q xs = Some q' \<and> content q' = content q @ xs"
proof (induction xs arbitrary: q)
  case (Cons x xs)
  then obtain q' where "enq q x = Some q'" "content q' = content q @ [x]" "room q' = room q - 1"
    using enq_law [of q x] by auto
  then show ?case
    using Cons.IH [of q'] Cons.prems by auto
qed simp

lemma deq_all_law: "deq_n q (length (content q)) = map Some (content q)"
proof (induction "content q" arbitrary: q)
  case (Cons x xs)
  then obtain q' where q': "deq q = (q', Some x)" "content q' = xs"
    using deq_law [of q x xs] by auto
  then have "deq_n q' (length xs) = map Some xs"
    using Cons.hyps(1) [of q'] by simp
  then show ?case
    using q' Cons.hyps(2) [symmetric] by simp
qed simp

end

definition q_content :: "'c bitu_queue \<Rightarrow> 'c option list" where
  "q_content q = rev (q_list q)"

definition q_room :: "'c bitu_queue \<Rightarrow> nat" where
  "q_room q = q_maxsize q - length (q_list q)"

text \<open>Taking out one element, together with the information whether there was one.\<close>

definition queue_take :: "'c option ta_list_api \<Rightarrow> 'c bitu_queue \<Rightarrow> 'c bitu_queue \<times> 'c option option" where
  "queue_take T q = (if ta_len T (q_list q) = 0 then (q, None)
     else (let (q, data) = bitu_queue_pop T q in (q, Some data)))"

sublocale queue_list \<subseteq> fifo: bounded_fifo "bitu_queue_add T" "queue_take T" q_content q_room
proof unfold_locales
  fix q :: "'c bitu_queue" and x xs
  show "\<exists>q'. bitu_queue_add T q x = Some q' \<and> q_content q' = q_content q @ [x] \<and> q_room q' = q_room q - 1"
    if "0 < q_room q"
    using that by (simp add: bitu_queue_add_def q_content_def q_room_def)
  show "bitu_queue_add T q x = None" if "q_room q = 0"
    using that by (simp add: bitu_queue_add_def q_room_def)
  show "\<exists>q'. queue_take T q = (q', Some x) \<and> q_content q' = xs" if c: "q_content q = x # xs"
  proof -
    have l: "q_list q = rev xs @ [x]"
      using c by (simp add: q_content_def rev_eq_Cons_iff)
    then show ?thesis
      by (simp add: queue_take_def pop_run q_content_def)
  qed
qed

interpretation plainq: queue_list plain_list_api
  by unfold_locales

section \<open>Properties\<close>

lemma queue_listI: "ta_list_ok T \<Longrightarrow> queue_list T"
  by (simp add: queue_list_def ta_list_def)

text \<open>A system with one transport that has just called \<open>bitu_queue_add\<close>.\<close>

definition one_call :: "string qsys" where
  "one_call = set_producer (qinit 1) 0 (P_lock (Some ''list plugins''))"

lemma one_call_reach: "qreach plain_list_api 1 one_call"
  unfolding one_call_def by (rule qreach.env [OF qreach.init qenv.Call]) (simp add: at_def qinit_def)

text \<open>
  C22. Mutual exclusion and bounds: at any time at most one thread is between locking and
  unlocking the mutex of the queue, and then it is its owner; the list never holds more than
  \<open>COMMAND_QUEUE_SIZE\<close> commands; a producer that is about to insert finds a free slot and a
  consumer that is about to pop finds a command.
\<close>
theorem queue_exclusion_and_bounds:
  assumes "ta_list_ok T" "qreach T n s"
  shows "(\<forall>i j p p'. at s i p \<and> at s j p' \<and> p_holds p \<and> p_holds p' \<longrightarrow> i = j) \<and>
    (\<forall>i p. at s i p \<and> p_holds p \<longrightarrow> owner s = Some (Producer i) \<and> \<not> c_holds (consumer s)) \<and>
    length (q_list (queue s)) \<le> COMMAND_QUEUE_SIZE \<and>
    (\<forall>i d. at s i (P_insert d) \<longrightarrow> length (q_list (queue s)) < COMMAND_QUEUE_SIZE) \<and>
    (consumer s = C_pop \<longrightarrow> q_list (queue s) \<noteq> [])"
proof -
  have inv: "lock_inv s" "list_inv s"
    using queue_list.reach_invs [OF queue_listI [OF assms(1)] assms(2)] by simp_all
  have o: "owner s = Some (Producer i)" if "at s i p" "p_holds p" for i p
    using lock_inv_at [OF inv(1) that(1)] that(2) by simp
  have "\<not> c_holds (consumer s)" if "at s i p" "p_holds p" for i p
    using o [OF that] inv(1) by (simp add: lock_inv_def)
  moreover have "length (q_list (queue s)) < COMMAND_QUEUE_SIZE" if "at s i (P_insert d)" for i d
    using count_p_pos_at [OF that, of inserting] inv(2) by (simp add: list_inv_def COMMAND_QUEUE_SIZE_def)
  moreover have "i = j" if "at s i p \<and> at s j p' \<and> p_holds p \<and> p_holds p'" for i j p p'
    using o [of i p] o [of j p'] that by simp
  ultimately show ?thesis
    using o inv(2) by (auto simp: list_inv_def COMMAND_QUEUE_SIZE_def)
qed

theorem queue_exclusion_and_bounds_witness:
  "length (q_list (queue one_call)) \<le> COMMAND_QUEUE_SIZE"
  using queue_exclusion_and_bounds [OF plain_list_ok one_call_reach] by blast

text \<open>
  C14. First in, first out, exactly once: what has been taken out, followed by what is in the
  queue, is what was put in, in the order of the insertions; and the callback has been
  called on the non-null commands taken out, in this order, each once.
\<close>
theorem queue_fifo:
  assumes "ta_list_ok T" "qreach T n s"
  shows "added s = popped s @ rev (q_list (queue s)) \<and> somes (popped s) = called s @ in_call s"
  using queue_list.reach_invs [OF queue_listI [OF assms(1)] assms(2)] by (simp add: fifo_inv_def)

theorem queue_fifo_witness: "added one_call = popped one_call @ rev (q_list (queue one_call))"
  using queue_fifo [OF plain_list_ok one_call_reach] by blast

text \<open>
  C8. No deadlock and no lost wake-up: unless the queue is empty, no call of
  \<open>bitu_queue_add\<close> is under way and the consumer waits, some thread can go on without help from
  the environment. The consumer never leaves its loop, since nothing resets \<open>running\<close>.
\<close>
theorem queue_no_deadlock:
  assumes "ta_list_ok T" "qreach T n s"
  shows "(quiescent s \<or> (\<exists>s'. qstep T s s')) \<and> consumer s \<noteq> C_done"
proof -
  have inv: "lock_inv s" "list_inv s" "wake_inv s"
    using queue_list.reach_invs [OF queue_listI [OF assms(1)] assms(2)] by simp_all
  then have "consumer s \<noteq> C_done"
    by (simp add: list_inv_def)
  then show ?thesis
    using queue_list.progress [OF queue_listI [OF assms(1)] inv] by blast
qed

theorem queue_no_deadlock_witness: "\<exists>s'. qstep plain_list_api one_call s'"
proof -
  have "\<not> quiescent one_call"
    by (simp add: one_call_def qinit_def quiescent_def)
  then show ?thesis
    using queue_no_deadlock [OF plain_list_ok one_call_reach] by blast
qed

lemma reach_run: "qreach T n s \<Longrightarrow> (qstep T)\<^sup>*\<^sup>* s s' \<Longrightarrow> qreach T n s'"
  by (erule rtranclp_induct) (auto intro: qreach.step)

lemma final_calls:
  assumes "ta_list_ok T" "qreach T n s" "(qstep T)\<^sup>*\<^sup>* s s'" "\<nexists>s''. qstep T s' s''"
  shows "quiescent s' \<and> mset (added s') = mset (added s) + pending s \<and> called s' = somes (added s')"
proof -
  have ql: "queue_list T"
    by (rule queue_listI [OF assms(1)])
  have r: "qreach T n s'"
    by (rule reach_run [OF assms(2,3)])
  have q: "quiescent s'"
    using queue_list.progress [OF ql] queue_list.reach_invs [OF ql r] assms(4) by blast
  then have "pending s' = {#}" and "q_list (queue s') = []" and "in_call s' = []"
    by (simp_all add: quiescent_def pending_idle in_call_def)
  then show ?thesis
    using q conserved_run [OF assms(3)] queue_list.reach_invs [OF ql r] by (simp add: fifo_inv_def)
qed

text \<open>Every run can be continued until it ends.\<close>

lemma maximal_run:
  assumes "ta_list_ok T" "qreach T n s"
  shows "\<exists>s'. (qstep T)\<^sup>*\<^sup>* s s' \<and> (\<nexists>s''. qstep T s' s'')"
proof -
  have ql: "queue_list T"
    by (rule queue_listI [OF assms(1)])
  have "wf (inv_image (less_than <*lex*> less_than) qmeasure)"
    by auto
  then show ?thesis
    using assms(2)
  proof (induction s rule: wf_induct_rule)
    case (less s)
    show ?case
    proof (cases "\<exists>s'. qstep T s s'")
      case True
      then obtain s' where s': "qstep T s s'"
        by blast
      have "(s', s) \<in> inv_image (less_than <*lex*> less_than) qmeasure"
        using queue_list.qmeasure_decreases [OF ql s'] queue_list.reach_invs [OF ql less.prems] by simp
      then show ?thesis
        using less.IH qreach.step [OF less.prems s'] s' by (meson converse_rtranclp_into_rtranclp)
    qed blast
  qed
qed

text \<open>
  C1. Every command is served: if the transports make no further calls, every run of the threads
  ends; and where it ends the queue is empty, every call of \<open>bitu_queue_add\<close> has returned,
  every command that was under way has been inserted, and the callback has been called on all
  commands in the order of their insertion.
\<close>
theorem queue_drains:
  assumes "ta_list_ok T" "qreach T n s"
  shows "(\<nexists>f. f 0 = s \<and> (\<forall>k. qstep T (f k) (f (Suc k)))) \<and>
    (\<forall>s'. (qstep T)\<^sup>*\<^sup>* s s' \<and> (\<nexists>s''. qstep T s' s'') \<longrightarrow>
       quiescent s' \<and> mset (added s') = mset (added s) + pending s \<and> called s' = somes (added s'))"
proof -
  have ql: "queue_list T"
    by (rule queue_listI [OF assms(1)])
  have no_run: "\<nexists>f. f 0 = s \<and> (\<forall>k. qstep T (f k) (f (Suc k)))"
  proof
    assume "\<exists>f. f 0 = s \<and> (\<forall>k. qstep T (f k) (f (Suc k)))"
    then obtain f where f: "f 0 = s" "\<And>k. qstep T (f k) (f (Suc k))"
      by blast
    have "qreach T n (f k)" for k
      by (induction k) (use assms(2) f in \<open>auto intro: qreach.step\<close>)
    then have "(qmeasure (f (Suc k)), qmeasure (f k)) \<in> less_than <*lex*> less_than" for k
      using queue_list.qmeasure_decreases [OF ql f(2)] queue_list.reach_invs [OF ql] by blast
    then have "\<exists>g. \<forall>k. (g (Suc k), g k) \<in> less_than <*lex*> less_than"
      by (intro exI [of _ "\<lambda>k. qmeasure (f k)"]) simp
    moreover have "wf (less_than <*lex*> less_than)"
      by auto
    ultimately show False
      by (simp only: wf_iff_no_infinite_down_chain not_True_eq_False)
  qed
  show ?thesis
    using no_run final_calls [OF assms] by blast
qed

theorem queue_drains_witness:
  "\<nexists>f. f 0 = one_call \<and> (\<forall>k. qstep plain_list_api (f k) (f (Suc k)))"
  using queue_drains [OF plain_list_ok one_call_reach] by blast

lemmas step_run = converse_rtranclp_into_rtranclp [where r = "qstep T" for T]

text \<open>
  The steps of one producer that finds the mutex free, to the end of the call or to the point where it waits; in between
  nobody else moves.
\<close>

lemma producer_steps:
  assumes "at s i (P_lock d)" "owner s = None"
  shows "q_maxsize (queue s) \<le> ta_len T (q_list (queue s)) \<Longrightarrow> (qstep T)\<^sup>*\<^sup>* s (set_producer s i (P_wait d))"
    and "\<not> q_maxsize (queue s) \<le> ta_len T (q_list (queue s)) \<Longrightarrow>
      (qstep T)\<^sup>*\<^sup>* s (signal_not_empty ((set_producer s i P_idle)\<lparr>
        queue := (queue s)\<lparr>q_list := ta_prepend T (q_list (queue s)) d\<rparr>, added := added s @ [d]\<rparr>))"
proof -
  let ?s1 = "(set_producer s i (P_check d))\<lparr>owner := Some (Producer i)\<rparr>"
  have i: "i < length (producers s)"
    using assms(1) by (simp add: at_def)
  have 1: "qstep T s ?s1"
    by (rule qstep.P_lock [OF assms])
  have a1: "at ?s1 i (P_check d)"
    using i by (simp add: at_def)
  {
    let ?s2 = "(set_producer ?s1 i (P_wait d))\<lparr>owner := None\<rparr>"
    assume "q_maxsize (queue s) \<le> ta_len T (q_list (queue s))"
    then have "qstep T ?s1 ?s2"
      by (intro qstep.P_full [OF a1]) simp
    then have "(qstep T)\<^sup>*\<^sup>* s ?s2"
      using 1 by (meson converse_rtranclp_into_rtranclp rtranclp.rtrancl_refl)
    moreover have "?s2 = set_producer s i (P_wait d)"
      using assms(2) by (cases s) simp
    ultimately show "(qstep T)\<^sup>*\<^sup>* s (set_producer s i (P_wait d))"
      by simp
  next
    let ?s2 = "set_producer ?s1 i (P_insert d)"
    let ?s3 = "(set_producer ?s2 i P_unlock)\<lparr>
       queue := (queue ?s2)\<lparr>q_list := ta_prepend T (q_list (queue ?s2)) d\<rparr>, added := added ?s2 @ [d]\<rparr>"
    let ?s4 = "(set_producer ?s3 i P_signal)\<lparr>owner := None\<rparr>"
    let ?s5 = "signal_not_empty (set_producer ?s4 i P_idle)"
    assume room: "\<not> q_maxsize (queue s) \<le> ta_len T (q_list (queue s))"
    have 2: "qstep T ?s1 ?s2"
      by (rule qstep.P_room [OF a1]) (use room in simp)
    have 3: "qstep T ?s2 ?s3"
      by (rule qstep.P_insert) (use i in \<open>simp add: at_def\<close>)
    have 4: "qstep T ?s3 ?s4"
      by (rule qstep.P_unlock) (use i in \<open>simp add: at_def\<close>)
    have 5: "qstep T ?s4 ?s5"
      by (rule qstep.P_signal) (use i in \<open>simp add: at_def\<close>)
    have "(qstep T)\<^sup>*\<^sup>* s ?s5"
      by (rule step_run [OF 1], rule step_run [OF 2], rule step_run [OF 3], rule step_run [OF 4],
          rule r_into_rtranclp [where r = "qstep T", OF 5])
    moreover have "set_producer ?s4 i P_idle = (set_producer s i P_idle)\<lparr>
        queue := (queue s)\<lparr>q_list := ta_prepend T (q_list (queue s)) d\<rparr>, added := added s @ [d]\<rparr>"
      using assms(2) by (cases s) simp
    ultimately show "(qstep T)\<^sup>*\<^sup>* s (signal_not_empty ((set_producer s i P_idle)\<lparr>
        queue := (queue s)\<lparr>q_list := ta_prepend T (q_list (queue s)) d\<rparr>, added := added s @ [d]\<rparr>))"
      by simp
  }
qed

text \<open>So the steps make up the function of the sequential model, which the transports use.\<close>

lemma queue_add_implemented:
  assumes "at s i (P_lock d)" "owner s = None"
  shows "\<exists>s'. (qstep T)\<^sup>*\<^sup>* s s' \<and> (case bitu_queue_add T (queue s) d of
      Some q \<Rightarrow> queue s' = q \<and> at s' i P_idle
    | None \<Rightarrow> queue s' = queue s \<and> at s' i (P_wait d))"
proof (cases "q_maxsize (queue s) \<le> ta_len T (q_list (queue s))")
  case True
  then show ?thesis
    using producer_steps(1) [OF assms True] assms(1) by (intro exI conjI) (assumption, simp add: bitu_queue_add_def at_def)
next
  case False
  then show ?thesis
    using producer_steps(2) [OF assms False] assms(1)
    by (intro exI conjI) (assumption, simp add: bitu_queue_add_def at_def signal_not_empty_def)
qed

lemma reach_maxsize: "ta_list_ok T \<Longrightarrow> qreach T n s \<Longrightarrow> q_maxsize (queue s) = 10"
  using queue_list.reach_invs [OF queue_listI] by (fastforce simp: list_inv_def)

text \<open>A waiting producer goes on only when the consumer signals.\<close>

lemma waiting_stays:
  "qstep T s s' \<Longrightarrow> at s i (P_wait d) \<Longrightarrow> consumer s \<noteq> C_signal \<Longrightarrow> at s' i (P_wait d)"
  by (induction rule: qstep.induct) (auto simp: at_def nth_list_update signal_not_empty_def split: if_splits)

text \<open>
  C31. One call of \<open>bitu_queue_add\<close>, in any reachable state in which the mutex is free, when no other thread moves before it
  ends. As long as the queue holds fewer than ten commands, the call returns: its command is behind all the others, and
  the consumer has been woken if it was waiting. With ten commands the call waits: the queue is as it
  was, and only the consumer's signal lets the caller go on. In both cases the mutex is free again and the
  other callers are where they were.
\<close>
theorem queue_add_call:
  assumes "ta_list_ok T" "qreach T n s" "at s i (P_lock d)" "owner s = None"
  shows "\<exists>s'. (qstep T)\<^sup>*\<^sup>* s s' \<and> owner s' = None \<and> (\<forall>j. j \<noteq> i \<longrightarrow> producers s' ! j = producers s ! j) \<and>
    (if length (q_content (queue s)) < 10
     then at s' i P_idle \<and> q_content (queue s') = q_content (queue s) @ [d] \<and>
       consumer s' = (if consumer s = C_wait then C_wake else consumer s)
     else at s' i (P_wait d) \<and> queue s' = queue s \<and> consumer s' = consumer s \<and>
       (\<forall>s''. qstep T s' s'' \<longrightarrow> at s'' i (P_wait d) \<or> consumer s' = C_signal))"
proof -
  have T: "ta_list T"
    by (rule ta_list.intro [OF assms(1)])
  note len = ta_list.len_law [OF T] and prepend = ta_list.prepend_law [OF T]
  show ?thesis
  proof (cases "length (q_content (queue s)) < 10")
    case True
    let ?s' = "signal_not_empty ((set_producer s i P_idle)\<lparr>
      queue := (queue s)\<lparr>q_list := ta_prepend T (q_list (queue s)) d\<rparr>, added := added s @ [d]\<rparr>)"
    have "(qstep T)\<^sup>*\<^sup>* s ?s'"
      using True reach_maxsize [OF assms(1,2)]
      by (intro producer_steps(2) [OF assms(3,4)]) (simp add: q_content_def len)
    then show ?thesis
      using True assms(3,4)
      by (intro exI [of _ ?s']) (simp add: at_def signal_not_empty_def q_content_def prepend)
  next
    case False
    let ?s' = "set_producer s i (P_wait d)"
    have wait: "at ?s' i (P_wait d)"
      using assms(3) by (simp add: at_def)
    have "(qstep T)\<^sup>*\<^sup>* s ?s'"
      using False reach_maxsize [OF assms(1,2)]
      by (intro producer_steps(1) [OF assms(3,4)]) (simp add: q_content_def len)
    then show ?thesis
      using False assms(4) wait waiting_stays [OF _ wait] by (intro exI [of _ ?s']) auto
  qed
qed

text \<open>The consumer has been started and waits, as it does before the first command.\<close>

definition consumer_waits :: "string qsys" where
  "consumer_waits = (qinit 1)\<lparr>queue := bitu_queue_new\<lparr>q_running := True\<rparr>, consumer := C_wait\<rparr>"

lemma consumer_waits_reach: "qreach plain_list_api 1 consumer_waits"
proof -
  let ?s = "(qinit 1)\<lparr>queue := bitu_queue_new\<lparr>q_running := True\<rparr>\<rparr> :: string qsys"
  have "qstep plain_list_api (qinit 1 :: string qsys) (?s\<lparr>consumer := C_test\<rparr>)"
    using qstep.C_start [of "qinit 1 :: string qsys" plain_list_api] by (simp add: qinit_def)
  moreover have "qstep plain_list_api (?s\<lparr>consumer := C_test\<rparr>) (?s\<lparr>consumer := C_lock\<rparr>)"
    using qstep.C_test [of "?s\<lparr>consumer := C_test\<rparr>" plain_list_api] by simp
  moreover have "qstep plain_list_api (?s\<lparr>consumer := C_lock\<rparr>) (?s\<lparr>consumer := C_check, owner := Some Consumer\<rparr>)"
    using qstep.C_lock [of "?s\<lparr>consumer := C_lock\<rparr>" plain_list_api] by (simp add: qinit_def)
  moreover have "qstep plain_list_api (?s\<lparr>consumer := C_check, owner := Some Consumer\<rparr>) consumer_waits"
    using qstep.C_empty [of "?s\<lparr>consumer := C_check, owner := Some Consumer\<rparr>" plain_list_api]
    by (simp add: qinit_def consumer_waits_def bitu_queue_new_def)
  ultimately show ?thesis
    by (meson qreach.init qreach.step)
qed

theorem queue_add_call_witness:
  "\<exists>s'. (qstep plain_list_api)\<^sup>*\<^sup>* (set_producer consumer_waits 0 (P_lock (Some ''list plugins''))) s' \<and>
    q_content (queue s') = [Some ''list plugins''] \<and> consumer s' = C_wake \<and> at s' 0 P_idle"
proof -
  let ?s = "set_producer consumer_waits 0 (P_lock (Some ''list plugins''))"
  have "at consumer_waits 0 P_idle"
    by (simp add: consumer_waits_def qinit_def at_def)
  then have reach: "qreach plain_list_api 1 ?s"
    by (intro qreach.env [OF consumer_waits_reach] qenv.Call)
  have s: "at ?s 0 (P_lock (Some ''list plugins''))" "owner ?s = None" "q_content (queue ?s) = []" "consumer ?s = C_wait"
    by (simp_all add: consumer_waits_def qinit_def at_def q_content_def bitu_queue_new_def)
  show ?thesis
    using queue_add_call [OF plain_list_ok reach s(1,2)] s(3,4) by auto
qed

end
