(* ===== verification/Server.thy ===== *)
theory Server
  imports Sockets Dictionary
begin

text \<open>
  \<open>src/server.c\<close> and \<open>src/server-priv.h\<close>: the server that the local transport runs on a Unix
  socket. It serves one client at a time: a client is registered in a hash table under a
  fresh identifier, its messages are collected from pieces of at most 128 bytes and handed
  to the callback, and it is removed when it says good bye. The answers of the system calls
  and the text of a new identifier are arguments; writing to the log is left out.
\<close>

datatype ta_status = TA_OK | TA_ERROR

section \<open>Clients\<close>

record bitu_client =
  client_id :: string
  client_socket :: int

definition bitu_client_new :: "allocator \<Rightarrow> string \<Rightarrow> int \<Rightarrow> bitu_client option" where
  "bitu_client_new U uuid socket = do {
     i \<leftarrow> bitu_util_uuid4 U uuid;
     Some \<lparr>client_id = i, client_socket = socket\<rparr> }"

definition bitu_client_get_id :: "bitu_client \<Rightarrow> string" where
  "bitu_client_get_id client = client_id client"

definition bitu_client_get_socket :: "bitu_client \<Rightarrow> int" where
  "bitu_client_get_socket client = client_socket client"

section \<open>The server\<close>

text \<open>
  \<open>sv_sock\<close> is \<open>None\<close> before \<open>bitu_server_connect\<close> has been called; \<open>sv_callback\<close> says whether
  \<open>callbacks.message_received\<close> is non-NULL; \<open>sv_data\<close> is the pointer the server's owner may
  store, here the address of a transport.
\<close>

record bitu_server =
  sv_sock_path :: string
  sv_sock :: "int option"
  sv_clients :: "(string, bitu_client) hashtable"
  sv_callback :: bool
  sv_data :: "nat option"
  sv_can_run :: bool

definition bitu_server_new :: "string \<Rightarrow> bool \<Rightarrow> bitu_server option" where
  "bitu_server_new sock_path callback = do {
     table \<leftarrow> hashtable_create True True hash_string string_equal False True;
     clients \<leftarrow> table;
     Some \<lparr>sv_sock_path = sock_path, sv_sock = None, sv_clients = clients,
       sv_callback = callback, sv_data = None, sv_can_run = True\<rparr> }"

text \<open>What \<open>bitu_server_free\<close> frees besides the server: the clients that are still connected.\<close>

definition bitu_server_free :: "bitu_server \<Rightarrow> bitu_client list option" where
  "bitu_server_free server = do {
     (_, clients) \<leftarrow> hashtable_destroy (sv_clients server);
     require (sv_sock server \<noteq> None);
     Some clients }"

definition bitu_server_set_data :: "bitu_server \<Rightarrow> nat \<Rightarrow> bitu_server" where
  "bitu_server_set_data server data = server\<lparr>sv_data := Some data\<rparr>"

definition bitu_server_get_data :: "bitu_server \<Rightarrow> nat option" where
  "bitu_server_get_data server = sv_data server"

definition bitu_server_is_running :: "bitu_server \<Rightarrow> ta_status" where
  "bitu_server_is_running server = (if sv_can_run server then TA_OK else TA_ERROR)"

definition bitu_server_disconnect :: "bitu_server \<Rightarrow> bitu_server \<times> ta_status" where
  "bitu_server_disconnect server = (server\<lparr>sv_can_run := False\<rparr>, TA_OK)"

text \<open>The results of \<open>socket\<close> (-1 for an error), \<open>bind\<close> and \<open>listen\<close>. The path of the socket has
  108 bytes.\<close>

record socket_env =
  env_socket :: int
  env_bind :: bool
  env_listen :: bool

definition bitu_server_connect ::
    "socket_env \<Rightarrow> bitu_server \<Rightarrow> (bitu_server \<times> ta_status) option" where
  "bitu_server_connect env server = (
     let server = server\<lparr>sv_sock := Some (env_socket env)\<rparr> in
     if env_socket env = -1 then Some (server, TA_ERROR)
     else do {
       require (length (sv_sock_path server) < 108);
       if \<not> env_bind env then Some (server, TA_ERROR)
       else if \<not> env_listen env then Some (server, TA_ERROR)
       else Some (server, TA_OK) })"

section \<open>Receiving\<close>

definition bitu_server_recv :: "select_result \<Rightarrow> (int \<times> string) option" where
  "bitu_server_recv r = (case r of
       Select_again \<Rightarrow> Some (0, [])
     | Select_intr \<Rightarrow> Some (0, [])
     | Select_error \<Rightarrow> Some (-1, [])
     | Select_none \<Rightarrow> Some (0, [])
     | Select_ready rs \<Rightarrow> recv_loop rs)"

text \<open>
  The inner loop of \<open>bitu_server_run\<close>: it collects one message. \<open>str\<close> is NULL or the bytes that
  have been copied, \<open>alloc\<close> the size requested for its block, and \<open>mem\<close> says for each round
  whether \<open>realloc\<close> succeeds. When it fails, a non-null \<open>str\<close> has been freed and is written to
  after the loop.
\<close>

fun recv_message ::
    "(nat \<Rightarrow> bool) \<Rightarrow> allocator \<Rightarrow> select_result list \<Rightarrow> string option \<Rightarrow> nat \<Rightarrow> nat \<Rightarrow> string option option" where
  "recv_message mem U [] str alloc round = None"
| "recv_message mem U (r # rs) str alloc round = do {
     (n, buf) \<leftarrow> bitu_server_recv r;
     let text = (case str of None \<Rightarrow> [] | Some s \<Rightarrow> s);
     if n = 0 \<or> n < 0 then
       (case str of None \<Rightarrow> Some None
        | Some s \<Rightarrow> do {
            require (length s < U alloc);
            Some (Some s) })
     else do {
       require (length buf < 128);
       let full_len = length text;
       if alloc < full_len + length buf then
         if \<not> mem round then (if str = None then Some None else None)
         else do {
           let alloc = grow alloc (full_len + length buf);
           require (full_len + length buf \<le> U alloc);
           recv_message mem U rs (Some (text @ buf)) alloc (Suc round) }
       else do {
         require (full_len + length buf \<le> U alloc);
         recv_message mem U rs (Some (text @ buf)) alloc (Suc round) } } }"

section \<open>Sending\<close>

text \<open>\<open>wire\<close> is what the client's socket has received.\<close>

fun send_loop :: "string \<Rightarrow> nat \<Rightarrow> send_result list \<Rightarrow> nat \<Rightarrow> string \<Rightarrow> (string \<times> ta_status) option" where
  "send_loop message bufsize [] sent wire = (if sent < bufsize then None else Some (wire, TA_OK))"
| "send_loop message bufsize (r # rs) sent wire =
     (if sent < bufsize then
        (case r of
           Send_again \<Rightarrow> send_loop message bufsize rs sent wire
         | Send_error \<Rightarrow> Some (wire, TA_ERROR)
         | Sent n \<Rightarrow> send_loop message bufsize rs (sent + n) (wire @ take n message))
      else Some (wire, TA_OK))"

text \<open>A null message is sent as one zero byte.\<close>

definition bitu_server_send ::
    "bitu_server \<Rightarrow> send_result list \<Rightarrow> string option \<Rightarrow> string \<Rightarrow> (string \<times> ta_status) option" where
  "bitu_server_send server rs msg to = do {
     client \<leftarrow> hashtable_get (sv_clients server) to;
     case client of None \<Rightarrow> Some ([], TA_ERROR)
     | Some client \<Rightarrow>
         let message = (case msg of None \<Rightarrow> [NUL] | Some m \<Rightarrow> m) in
         send_loop message (length message) rs 0 [] }"

section \<open>The main loop\<close>

text \<open>The client says good bye: nothing was received, \<open>exit\<close>, or less than two characters.\<close>

definition says_goodbye :: "string option \<Rightarrow> bool" where
  "says_goodbye str = (case str of None \<Rightarrow> True
     | Some s \<Rightarrow> c_string s = ''exit'' \<or> length (c_string s) < 2)"

text \<open>
  The loop over the messages of one client, with the answers of \<open>select\<close> and \<open>recv\<close> for each
  message. The callback \<open>cb\<close> works on a state of its own.
\<close>

fun session_loop ::
    "allocator \<Rightarrow> ('s \<Rightarrow> bitu_server \<Rightarrow> string \<Rightarrow> string \<Rightarrow> 's option) \<Rightarrow> bitu_server \<Rightarrow> string \<Rightarrow>
     select_result list list \<Rightarrow> 's \<Rightarrow> (bitu_server \<times> 's) option" where
  "session_loop U cb server cid [] st = None"
| "session_loop U cb server cid (events # rest) st = do {
     str \<leftarrow> recv_message (\<lambda>_. True) U events None 0 0;
     if says_goodbye str then do {
       (clients, _) \<leftarrow> hashtable_del (sv_clients server) cid;
       Some (server\<lparr>sv_clients := clients\<rparr>, st) }
     else do {
       s \<leftarrow> str;
       st \<leftarrow> (if sv_callback server then cb st server cid (c_string s) else Some st);
       session_loop U cb server cid rest st } }"

text \<open>
  The result of \<open>accept\<close>; an error comes with the information whether the server has been
  disconnected in the meantime.
\<close>

datatype accept_result =
    Accept_intr
  | Accept_error bool
  | Accepted int string "select_result list list"   (* socket, identifier, messages *)

fun bitu_server_run ::
    "allocator \<Rightarrow> ('s \<Rightarrow> bitu_server \<Rightarrow> string \<Rightarrow> string \<Rightarrow> 's option) \<Rightarrow> bitu_server \<Rightarrow>
     accept_result list \<Rightarrow> 's \<Rightarrow> (bitu_server \<times> 's) option" where
  "bitu_server_run U cb server [] st = (if sv_can_run server then None else Some (server, st))"
| "bitu_server_run U cb server (r # rs) st =
     (if \<not> sv_can_run server then Some (server, st)
      else case r of
        Accept_intr \<Rightarrow> bitu_server_run U cb server rs st
      | Accept_error stopped \<Rightarrow>
          let server = (if stopped then server\<lparr>sv_can_run := False\<rparr> else server) in
          if \<not> sv_can_run server then Some (server, st) else bitu_server_run U cb server rs st
      | Accepted sock uuid messages \<Rightarrow> do {
          client \<leftarrow> bitu_client_new U uuid sock;
          let cid = bitu_client_get_id client;
          (clients, _) \<leftarrow> hashtable_set True True (sv_clients server) cid client;
          (server, st) \<leftarrow> session_loop U cb (server\<lparr>sv_clients := clients\<rparr>) cid messages st;
          bitu_server_run U cb server rs st })"

end
