(* ===== verification/Iteration.thy ===== *)
theory Iteration
  imports Dictionary
begin

text \<open>
  The loop that the clients of the hash table run over all its entries,
  \<open>do BODY while ((iter = hashtable_iter_next (table, iter)) != NULL)\<close>, and its meaning as a
  fold over the entries of the table. The body may leave the function with a result
  (\<open>Inr\<close>) or go on with new locals (\<open>Inl\<close>).
\<close>

partial_function (option) hashtable_walk ::
    "('k, 'v) hashtable \<Rightarrow> ('a \<Rightarrow> 'k \<Rightarrow> 'v \<Rightarrow> ('a + 'r) option) \<Rightarrow> ptr \<Rightarrow> 'a \<Rightarrow> ('a + 'r) option" where
  "hashtable_walk h body iter locals = do {
     k \<leftarrow> hashtable_iter_key h iter;
     v \<leftarrow> hashtable_iter_value h iter;
     r \<leftarrow> body locals k v;
     case r of Inr x \<Rightarrow> Some (Inr x)
     | Inl locals \<Rightarrow> do {
         next \<leftarrow> hashtable_iter_next h iter;
         case next of None \<Rightarrow> Some (Inl locals)
         | Some iter \<Rightarrow> hashtable_walk h body iter locals } }"

declare hashtable_walk.simps [code]

fun fold_until :: "('a \<Rightarrow> 'k \<Rightarrow> 'v \<Rightarrow> ('a + 'r) option) \<Rightarrow> 'a \<Rightarrow> ('k \<times> 'v) list \<Rightarrow> ('a + 'r) option" where
  "fold_until body locals [] = Some (Inl locals)"
| "fold_until body locals ((k, v) # es) = do {
     r \<leftarrow> body locals k v;
     case r of Inr x \<Rightarrow> Some (Inr x)
     | Inl locals \<Rightarrow> fold_until body locals es }"

lemma walk_chain:
  assumes "chain (ht_next h) (n # L)" "nodes_live h (n # L)"
  shows "hashtable_walk h body (PairList n) locals = fold_until body locals (map (entry_of h) (n # L))"
  using assms
proof (induction L arbitrary: n locals)
  case Nil
  then obtain p where "ht_pairs h n = Some p"
    by auto
  then show ?case
    using Nil iter_next_at [of h "PairList n" "[]"]
    by (subst hashtable_walk.simps)
       (simp add: hashtable_iter_key_def hashtable_iter_value_def list_to_pair_def entry_of_def iter_at_def domI
        split: option.splits sum.splits)
next
  case (Cons m L)
  then obtain p where "ht_pairs h n = Some p"
    by auto
  moreover from this have "entry_of h n = (pair_key p, pair_value p)"
    by (simp add: entry_of_def)
  moreover have "hashtable_iter_next h (PairList n) = Some (Some (PairList m))"
    using Cons.prems iter_next_at [of h "PairList n" "m # L"] by (simp add: iter_at_def)
  ultimately show ?case
    using Cons.IH [of m] Cons.prems
    by (subst hashtable_walk.simps)
       (simp add: hashtable_iter_key_def hashtable_iter_value_def list_to_pair_def
        split: option.splits sum.splits)
qed

text \<open>The whole loop with the test for an empty table in front of it.\<close>

lemma walk_table:
  fixes h :: "('b, 'c) hashtable"
  assumes "ht_wf h"
  obtains "hashtable_iter h = Some None" "ht_entries h = []"
  | p where "hashtable_iter h = Some (Some p)" "ht_entries h \<noteq> []"
      "\<And>body (locals :: 'a). hashtable_walk h body p locals = (fold_until body locals (ht_entries h) :: ('a + 'r) option)"
proof -
  obtain B where r: "ht_rep h B"
    using assms by (auto simp: ht_wf_def)
  have e: "ht_entries h = map (entry_of h) (nodes B)"
    by (rule ht_entries_rep(1) [OF r])
  have c: "chain (ht_next h) (nodes B)" "nodes_live h (nodes B)"
    using r ring_chain [of "ht_next h" "ht_prev h" "[]" "nodes B"] by (auto simp: ht_rep_def core_def)
  show ?thesis
  proof (cases "nodes B")
    case Nil
    then show ?thesis
      using that(1) iter_start [OF r] e by (simp add: iter_at_def)
  next
    case (Cons n L)
    show ?thesis
    proof (rule that(2))
      show "hashtable_iter h = Some (Some (PairList n))"
        using iter_start [OF r] Cons by (simp add: iter_at_def)
      show "ht_entries h \<noteq> []"
        using e Cons by simp
      show "hashtable_walk h body (PairList n) locals = fold_until body locals (ht_entries h)"
        for body :: "'a \<Rightarrow> 'b \<Rightarrow> 'c \<Rightarrow> ('a + 'r) option" and locals
        unfolding e Cons by (rule walk_chain) (use c Cons in simp_all)
    qed
  qed
qed

lemma fold_until_foldl:
  "(\<And>a k v. body a k v = Some (Inl (f a (k, v)))) \<Longrightarrow> fold_until body locals es = Some (Inl (foldl f locals es))"
  by (induction es arbitrary: locals) auto

text \<open>Collecting the keys in a list.\<close>

lemma fold_keys:
  assumes "\<And>xs x. app xs x = xs @ [x]"
  shows "fold_until (\<lambda>ks k v. Some (Inl (app ks k))) ks es = Some (Inl (ks @ map fst es))"
  by (induction es arbitrary: ks) (auto simp: assms)

end
