(* ===== verification/Transport.thy ===== *)
theory Transport
  imports Server Queue Iteration
begin

text \<open>
  \<open>src/transport.c\<close> without the queue, and the three backends \<open>src/transport-local.c\<close>,
  \<open>src/transport-xmpp.c\<close> and \<open>src/transport-irc.c\<close>: commands, transports and the connection
  manager, which keeps the transports in a hash table under their URIs. Transports are
  objects in a store, the table holds their addresses.

  Return codes: \<open>TA_OK\<close> and \<open>BITU_CONN_STATUS_OK\<close> are the same number, as the code itself
  relies on; every other code is different from it.
\<close>

section \<open>Status codes\<close>

datatype conn_status =
    STATUS_OK
  | STATUS_ERROR
  | STATUS_SPAWNED
  | STATUS_TRANSPORT_NOT_FOUND
  | STATUS_CONNECTION_FAILED
  | STATUS_ALREADY_RUNNING
  | STATUS_RUNNING_FAILED
  | STATUS_ALREADY_SHUTDOWN
  | STATUS_STILL_RUNNING

text \<open>What a callback of a transport returns: a code of the library or one of the enumeration.\<close>

datatype rc = Ta ta_status | Conn conn_status

definition rc_ok :: "rc \<Rightarrow> bool" where
  "rc_ok r \<longleftrightarrow> r = Ta TA_OK \<or> r = Conn STATUS_OK"

section \<open>Errors\<close>

text \<open>The errors of \<open>include/bitu/errors.h\<close>, which \<open>ta_error_set\<close> records, with their numbers.\<close>

datatype bitu_error =
    ERROR_TRANSPORT_INVALID_URL
  | ERROR_TRANSPORT_NOT_SUPPORTED
  | ERROR_TRANSPORT_IRC_NOSESSION
  | ERROR_TRANSPORT_IRC_CONN
  | ERROR_TRANSPORT_IRC_RUN

fun error_number :: "bitu_error \<Rightarrow> int" where
  "error_number ERROR_TRANSPORT_INVALID_URL = 100"
| "error_number ERROR_TRANSPORT_NOT_SUPPORTED = 101"
| "error_number ERROR_TRANSPORT_IRC_NOSESSION = 200"
| "error_number ERROR_TRANSPORT_IRC_CONN = 201"
| "error_number ERROR_TRANSPORT_IRC_RUN = 202"

section \<open>Commands\<close>

record bitu_command =
  command_transport :: "nat option"
  command_from :: "string option"
  command_cmd :: string
  command_name :: "string option"
  command_params :: "string list"
  command_nparams :: int

definition bitu_command_new ::
    "allocator \<Rightarrow> nat option \<Rightarrow> string \<Rightarrow> string option \<Rightarrow> bitu_command option" where
  "bitu_command_new U transport cmd from = do {
     c \<leftarrow> bitu_util_strstrip cmd;
     r \<leftarrow> bitu_util_extract_params (\<lambda>_. True) U cmd;
     Some (case r of
         Some (name, params) \<Rightarrow>
           \<lparr>command_transport = transport, command_from = from, command_cmd = c,
            command_name = name, command_params = params, command_nparams = int (length params)\<rparr>
       | None \<Rightarrow>
           \<lparr>command_transport = transport, command_from = from, command_cmd = c,
            command_name = None, command_params = [], command_nparams = -1\<rparr>) }"

text \<open>The strings that \<open>bitu_command_new\<close> has allocated, and those that \<open>bitu_command_free\<close> releases.\<close>

definition command_strings :: "bitu_command \<Rightarrow> string list" where
  "command_strings c = command_cmd c # (case command_from c of None \<Rightarrow> [] | Some f \<Rightarrow> [f]) @
     (case command_name c of None \<Rightarrow> [] | Some n \<Rightarrow> [n]) @ command_params c"

definition bitu_command_free :: "bitu_command \<Rightarrow> string list" where
  "bitu_command_free c = command_cmd c # (case command_from c of None \<Rightarrow> [] | Some f \<Rightarrow> [f])"

lemma command_free_leaks:
  "command_strings c = bitu_command_free c @
     (case command_name c of None \<Rightarrow> [] | Some n \<Rightarrow> [n]) @ command_params c"
  by (simp add: command_strings_def bitu_command_free_def)

text \<open>The fields of a command.\<close>

definition bitu_command_get_transport :: "bitu_command \<Rightarrow> nat option" where
  "bitu_command_get_transport command = command_transport command"

definition bitu_command_get_from :: "bitu_command \<Rightarrow> string option" where
  "bitu_command_get_from command = command_from command"

definition bitu_command_get_cmd :: "bitu_command \<Rightarrow> string" where
  "bitu_command_get_cmd command = command_cmd command"

definition bitu_command_get_name :: "bitu_command \<Rightarrow> string option" where
  "bitu_command_get_name command = command_name command"

definition bitu_command_get_params :: "bitu_command \<Rightarrow> string list" where
  "bitu_command_get_params command = command_params command"

definition bitu_command_get_nparams :: "bitu_command \<Rightarrow> int" where
  "bitu_command_get_nparams command = command_nparams command"

declare bitu_command_get_transport_def [simp] bitu_command_get_from_def [simp] bitu_command_get_cmd_def [simp]
  bitu_command_get_name_def [simp] bitu_command_get_params_def [simp] bitu_command_get_nparams_def [simp]

section \<open>Transports\<close>

text \<open>
  The URI of a transport: what the library's accessors return for it, and its text. Parsing
  is the library's; it is a parameter of the operations below.
\<close>

record iri =
  iri_scheme :: "string option"
  iri_user :: "string option"
  iri_host :: "string option"
  iri_port :: nat
  iri_path :: "string option"
  iri_fragment :: "string option"
  iri_text :: string

text \<open>\<open>xc_live\<close> is false once the last reference to the client has been given up.\<close>

record xmpp_client =
  xc_jid :: string
  xc_password :: string
  xc_server :: "string option"
  xc_port :: nat
  xc_live :: bool

record irc_session =
  irc_host :: "string option"
  irc_port :: nat
  irc_nick :: string

datatype tr_data = Data_server bitu_server | Data_xmpp xmpp_client | Data_irc irc_session

text \<open>
  The five callbacks of a transport, each one the function of a backend; \<open>None\<close> is a field that has not been set.
\<close>

datatype backend = Local | Xmpp | Irc

record callbacks =
  cb_connect :: "backend option"
  cb_disconnect :: "backend option"
  cb_is_running :: "backend option"
  cb_run :: "backend option"
  cb_send :: "backend option"

definition all_of :: "backend \<Rightarrow> callbacks" where
  "all_of b = \<lparr>cb_connect = Some b, cb_disconnect = Some b, cb_is_running = Some b, cb_run = Some b, cb_send = Some b\<rparr>"

lemma all_of_simps [simp]:
  "cb_connect (all_of b) = Some b" "cb_disconnect (all_of b) = Some b" "cb_is_running (all_of b) = Some b"
  "cb_run (all_of b) = Some b" "cb_send (all_of b) = Some b" "all_of b = all_of c \<longleftrightarrow> b = c"
  by (auto simp: all_of_def)

text \<open>The pointer to the queue: without a value, null, or the queue of the manager.\<close>

datatype queue_ref = No_value | Null | Manager_queue

text \<open>The logger a transport points to; \<open>Logger_freed\<close> is a pointer to a logger that is gone.\<close>

datatype logger = Logger | Logger_freed

record bitu_transport =
  tr_uri :: iri
  tr_data :: "tr_data option"
  tr_logger :: logger
  tr_callbacks :: callbacks
  tr_commands :: queue_ref

text \<open>A call of one of the logging functions on the transport's logger.\<close>

definition tr_log :: "bitu_transport \<Rightarrow> unit option" where
  "tr_log t = require (tr_logger t = Logger)"

section \<open>The fields of a transport\<close>

definition bitu_transport_get_uri :: "bitu_transport \<Rightarrow> iri" where
  "bitu_transport_get_uri t = tr_uri t"

definition bitu_transport_get_data :: "bitu_transport \<Rightarrow> tr_data option" where
  "bitu_transport_get_data t = tr_data t"

definition bitu_transport_set_data :: "bitu_transport \<Rightarrow> tr_data option \<Rightarrow> bitu_transport" where
  "bitu_transport_set_data t data = t\<lparr>tr_data := data\<rparr>"

definition bitu_transport_get_logger :: "bitu_transport \<Rightarrow> logger" where
  "bitu_transport_get_logger t = tr_logger t"

definition bitu_transport_set_logger :: "bitu_transport \<Rightarrow> logger \<Rightarrow> bitu_transport" where
  "bitu_transport_set_logger t logger = t\<lparr>tr_logger := logger\<rparr>"

declare bitu_transport_get_uri_def [simp] bitu_transport_get_data_def [simp] bitu_transport_set_data_def [simp]
  bitu_transport_get_logger_def [simp] bitu_transport_set_logger_def [simp]

definition bitu_transport_set_callback_connect :: "bitu_transport \<Rightarrow> backend \<Rightarrow> bitu_transport" where
  "bitu_transport_set_callback_connect t callback =
     t\<lparr>tr_callbacks := (tr_callbacks t)\<lparr>cb_connect := Some callback\<rparr>\<rparr>"

definition bitu_transport_set_callback_disconnect :: "bitu_transport \<Rightarrow> backend \<Rightarrow> bitu_transport" where
  "bitu_transport_set_callback_disconnect t callback =
     t\<lparr>tr_callbacks := (tr_callbacks t)\<lparr>cb_disconnect := Some callback\<rparr>\<rparr>"

definition bitu_transport_set_callback_is_running :: "bitu_transport \<Rightarrow> backend \<Rightarrow> bitu_transport" where
  "bitu_transport_set_callback_is_running t callback =
     t\<lparr>tr_callbacks := (tr_callbacks t)\<lparr>cb_is_running := Some callback\<rparr>\<rparr>"

definition bitu_transport_set_callback_run :: "bitu_transport \<Rightarrow> backend \<Rightarrow> bitu_transport" where
  "bitu_transport_set_callback_run t callback =
     t\<lparr>tr_callbacks := (tr_callbacks t)\<lparr>cb_run := Some callback\<rparr>\<rparr>"

definition bitu_transport_set_callback_send :: "bitu_transport \<Rightarrow> backend \<Rightarrow> bitu_transport" where
  "bitu_transport_set_callback_send t callback =
     t\<lparr>tr_callbacks := (tr_callbacks t)\<lparr>cb_send := Some callback\<rparr>\<rparr>"

text \<open>Each backend registers its five callbacks and returns \<open>TA_OK\<close>.\<close>

definition bitu_local_transport :: "bitu_transport \<Rightarrow> bitu_transport \<times> ta_status" where
  "bitu_local_transport t = (
     let t = bitu_transport_set_callback_connect t Local;
         t = bitu_transport_set_callback_disconnect t Local;
         t = bitu_transport_set_callback_is_running t Local;
         t = bitu_transport_set_callback_run t Local;
         t = bitu_transport_set_callback_send t Local in
     (t, TA_OK))"

definition bitu_xmpp_transport :: "bitu_transport \<Rightarrow> bitu_transport \<times> ta_status" where
  "bitu_xmpp_transport t = (
     let t = bitu_transport_set_callback_connect t Xmpp;
         t = bitu_transport_set_callback_disconnect t Xmpp;
         t = bitu_transport_set_callback_is_running t Xmpp;
         t = bitu_transport_set_callback_run t Xmpp;
         t = bitu_transport_set_callback_send t Xmpp in
     (t, TA_OK))"

definition bitu_irc_transport :: "bitu_transport \<Rightarrow> bitu_transport \<times> ta_status" where
  "bitu_irc_transport t = (
     let t = bitu_transport_set_callback_connect t Irc;
         t = bitu_transport_set_callback_disconnect t Irc;
         t = bitu_transport_set_callback_is_running t Irc;
         t = bitu_transport_set_callback_run t Irc;
         t = bitu_transport_set_callback_send t Irc in
     (t, TA_OK))"

lemma backend_registered [simp]:
  "bitu_local_transport t = (t\<lparr>tr_callbacks := all_of Local\<rparr>, TA_OK)"
  "bitu_xmpp_transport t = (t\<lparr>tr_callbacks := all_of Xmpp\<rparr>, TA_OK)"
  "bitu_irc_transport t = (t\<lparr>tr_callbacks := all_of Irc\<rparr>, TA_OK)"
  by (simp_all add: bitu_local_transport_def bitu_xmpp_transport_def bitu_irc_transport_def all_of_def
      bitu_transport_set_callback_connect_def bitu_transport_set_callback_disconnect_def
      bitu_transport_set_callback_is_running_def bitu_transport_set_callback_run_def bitu_transport_set_callback_send_def)

text \<open>
  \<open>parse\<close> is \<open>ta_iri_set_from_string\<close>. \<open>Inl\<close> is the null pointer, with the error that is recorded, which is one of
  the library when the parser fails. The callbacks and the pointer to the queue are not initialised by
  \<open>malloc\<close>: the backend and the manager do that. For a scheme that no backend handles the message of the error is made
  from the scheme after the IRI which it belongs to has been released.
\<close>

definition bitu_transport_new ::
    "(string \<Rightarrow> iri option) \<Rightarrow> string \<Rightarrow> (bitu_error option + bitu_transport) option" where
  "bitu_transport_new parse uri = (case parse uri of
       None \<Rightarrow> Some (Inl None)
     | Some iri \<Rightarrow> (case iri_scheme iri of
           None \<Rightarrow> Some (Inl (Some ERROR_TRANSPORT_INVALID_URL))
         | Some scheme \<Rightarrow>
             let transport = \<lparr>tr_uri = iri, tr_data = None, tr_logger = Logger,
                               tr_callbacks = \<lparr>cb_connect = None, cb_disconnect = None, cb_is_running = None,
                                 cb_run = None, cb_send = None\<rparr>, tr_commands = No_value\<rparr>;
                 (transport, rc) =
                   (if scheme = ''file'' then bitu_local_transport transport
                    else if scheme = ''xmpp'' then bitu_xmpp_transport transport
                    else if scheme = ''irc'' then bitu_irc_transport transport
                    else (transport, TA_ERROR)) in
             if rc = TA_OK then Some (Inr transport) else None))"

lemma transport_new_eq:
  "bitu_transport_new parse uri = (case parse uri of
       None \<Rightarrow> Some (Inl None)
     | Some iri \<Rightarrow> (case iri_scheme iri of
           None \<Rightarrow> Some (Inl (Some ERROR_TRANSPORT_INVALID_URL))
         | Some scheme \<Rightarrow> map_option (\<lambda>b. Inr \<lparr>tr_uri = iri, tr_data = None, tr_logger = Logger, tr_callbacks = all_of b,
             tr_commands = No_value\<rparr>) (map_of [(''file'', Local), (''xmpp'', Xmpp), (''irc'', Irc)] scheme)))"
  by (auto simp: bitu_transport_new_def Let_def split: option.splits)

section \<open>The answers of the outside world to one call\<close>

record backend_env =
  be_sock :: socket_env
  be_srv :: "(string \<times> nat) list"      (* the targets of the SRV query *)
  be_default_port :: nat                  (* IKS_JABBER_PORT *)
  be_xmpp_connect :: ta_status
  be_xmpp_running :: ta_status
  be_irc_session :: bool
  be_irc_connect :: bool
  be_irc_connected :: bool
  be_send :: ta_status                    (* of the xmpp and irc libraries *)
  be_wire :: "send_result list"           (* of send () *)
  be_thread :: bool                       (* whether pthread_create succeeds *)

section \<open>The local transport\<close>

definition local_load_server :: "nat \<Rightarrow> bitu_transport \<Rightarrow> (bitu_transport \<times> bitu_server) option" where
  "local_load_server a t = do {
     path \<leftarrow> iri_path (bitu_transport_get_uri t);
     server \<leftarrow> bitu_server_new path True;
     let server = bitu_server_set_data server a;
     let t = bitu_transport_set_data t (Some (Data_server server));
     Some (bitu_transport_set_logger t Logger, server) }"

definition local_connect :: "backend_env \<Rightarrow> nat \<Rightarrow> bitu_transport \<Rightarrow> (bitu_transport \<times> rc) option" where
  "local_connect env a t = (case bitu_transport_get_data t of
       None \<Rightarrow> do {
         (t, server) \<leftarrow> local_load_server a t;
         (server, rc) \<leftarrow> bitu_server_connect (be_sock env) server;
         let t = bitu_transport_set_data t (Some (Data_server server));
         Some (t, if rc \<noteq> TA_OK then Conn STATUS_CONNECTION_FAILED else Conn STATUS_OK) }
     | Some _ \<Rightarrow> Some (t, Conn STATUS_ALREADY_RUNNING))"

text \<open>The transport's logger is the server's: it goes with \<open>bitu_server_free\<close>.\<close>

definition local_disconnect :: "bitu_transport \<Rightarrow> (bitu_transport \<times> rc) option" where
  "local_disconnect t = (case bitu_transport_get_data t of
       None \<Rightarrow> Some (t, Conn STATUS_ALREADY_SHUTDOWN)
     | Some (Data_server server) \<Rightarrow> do {
         let (server, status) = bitu_server_disconnect server;
         _ \<leftarrow> bitu_server_free server;
         let t = bitu_transport_set_data (t\<lparr>tr_logger := Logger_freed\<rparr>) None;
         Some (t, Conn (if status = TA_OK then STATUS_OK else STATUS_ERROR)) }
     | Some _ \<Rightarrow> None)"

definition local_is_running :: "bitu_transport \<Rightarrow> rc option" where
  "local_is_running t = (case bitu_transport_get_data t of
       None \<Rightarrow> Some (Ta TA_ERROR)
     | Some (Data_server server) \<Rightarrow> Some (Ta (bitu_server_is_running server))
     | Some _ \<Rightarrow> None)"

definition local_send ::
    "backend_env \<Rightarrow> bitu_transport \<Rightarrow> string option \<Rightarrow> string \<Rightarrow> (string \<times> rc) option" where
  "local_send env t msg to = (case bitu_transport_get_data t of
       Some (Data_server server) \<Rightarrow> do {
         (wire, rc) \<leftarrow> bitu_server_send server (be_wire env) msg to;
         Some (wire, Ta rc) }
     | _ \<Rightarrow> None)"

section \<open>The XMPP transport\<close>

text \<open>
  \<open>_query_service\<close>: the first target counts. The loop releases the first target once for every
  target of the answer, so that a second one makes it release an object that is gone.
\<close>

definition query_service :: "backend_env \<Rightarrow> string option \<Rightarrow> nat \<Rightarrow> (string option \<times> nat) option" where
  "query_service env server port = (case be_srv env of
       [] \<Rightarrow> Some (server, port)
     | [(h, p)] \<Rightarrow> Some (Some h, p)
     | _ \<Rightarrow> None)"

text \<open>
  \<open>password = strchr (user, ':') + 1; user = strndup (user, password - user - 1)\<close>: both are
  undefined on a null pointer or when there is no colon.
\<close>

definition split_user :: "string option \<Rightarrow> (string \<times> string) option" where
  "split_user user = do {
     u \<leftarrow> user;
     require (CHR 0x3A \<in> set u);
     Some (takeWhile (\<lambda>c. c \<noteq> CHR 0x3A) u, tl (dropWhile (\<lambda>c. c \<noteq> CHR 0x3A) u)) }"

text \<open>\<open>snprintf (jid, jid_len, "%s@%s%s", user, host, resource)\<close>\<close>

definition make_jid :: "string \<Rightarrow> string \<Rightarrow> string \<Rightarrow> string" where
  "make_jid user host resource =
     (let jid_len = length user + length host + length resource + 2 in
      take (jid_len - 1) (user @ [CHR 0x40] @ host @ resource))"

definition xmpp_connect :: "backend_env \<Rightarrow> bitu_transport \<Rightarrow> (bitu_transport \<times> rc) option" where
  "xmpp_connect env t = do {
     let iri = bitu_transport_get_uri t;
     (user, password) \<leftarrow> split_user (iri_user iri);
     (server, port) \<leftarrow> query_service env None (iri_port iri);
     let port = (if port \<noteq> 0 then port else be_default_port env);
     case iri_host iri of
       None \<Rightarrow> Some (t, Ta TA_ERROR)
     | Some host \<Rightarrow>
         let resource = (case iri_path iri of None \<Rightarrow> ''/bitU'' | Some r \<Rightarrow> r);
             client = \<lparr>xc_jid = make_jid user host resource, xc_password = password,
                       xc_server = server, xc_port = port, xc_live = True\<rparr>;
             t = bitu_transport_set_logger (bitu_transport_set_data t (Some (Data_xmpp client))) Logger in
         Some (t, if be_xmpp_connect env = TA_OK then Conn STATUS_OK else Conn STATUS_CONNECTION_FAILED) }"

text \<open>The error that \<open>_xmpp_connect\<close> records when it comes to its test: a colon in \<open>user\<close> is needed before.\<close>

definition xmpp_connect_error :: "bitu_transport \<Rightarrow> bitu_error option" where
  "xmpp_connect_error t =
     (if iri_host (bitu_transport_get_uri t) = None then Some ERROR_TRANSPORT_INVALID_URL else None)"

text \<open>
  The transport's logger is the client's: it goes with the last reference to the client. The pointer to the client stays.
\<close>

definition xmpp_disconnect :: "bitu_transport \<Rightarrow> (bitu_transport \<times> rc) option" where
  "xmpp_disconnect t = (case bitu_transport_get_data t of
       None \<Rightarrow> Some (t, Conn STATUS_ALREADY_SHUTDOWN)
     | Some (Data_xmpp client) \<Rightarrow> do {
         require (xc_live client);
         Some (t\<lparr>tr_data := Some (Data_xmpp (client\<lparr>xc_live := False\<rparr>)), tr_logger := Logger_freed\<rparr>, Conn STATUS_OK) }
     | Some _ \<Rightarrow> None)"

definition xmpp_is_running :: "backend_env \<Rightarrow> bitu_transport \<Rightarrow> rc option" where
  "xmpp_is_running env t = (case bitu_transport_get_data t of
       None \<Rightarrow> Some (Ta TA_ERROR)
     | Some (Data_xmpp client) \<Rightarrow> do {
         require (xc_live client);
         Some (Ta (be_xmpp_running env)) }
     | Some _ \<Rightarrow> None)"

definition xmpp_send ::
    "backend_env \<Rightarrow> bitu_transport \<Rightarrow> string option \<Rightarrow> string \<Rightarrow> (string \<times> rc) option" where
  "xmpp_send env t msg to = (case bitu_transport_get_data t of
       Some (Data_xmpp client) \<Rightarrow> do {
         require (xc_live client);
         Some (case msg of None \<Rightarrow> [] | Some m \<Rightarrow> m, Ta (be_send env)) }
     | _ \<Rightarrow> None)"

section \<open>The IRC transport\<close>

definition IRC_PORT :: nat where
  "IRC_PORT = 6667"

definition irc_get_session :: "backend_env \<Rightarrow> irc_session option" where
  "irc_get_session env =
     (if be_irc_session env then Some \<lparr>irc_host = None, irc_port = 0, irc_nick = []\<rparr> else None)"

definition irc_connect :: "backend_env \<Rightarrow> bitu_transport \<Rightarrow> (bitu_transport \<times> rc) option" where
  "irc_connect env t =
     (let session = (case bitu_transport_get_data t of None \<Rightarrow> map_option Data_irc (irc_get_session env) | Some d \<Rightarrow> Some d) in
      case session of
        None \<Rightarrow> Some (t, Conn STATUS_CONNECTION_FAILED)
      | Some (Data_irc s) \<Rightarrow>
          let iri = bitu_transport_get_uri t;
              nick = (case iri_user iri of None \<Rightarrow> ''bitU'' | Some n \<Rightarrow> n);
              port = (if iri_port iri \<noteq> 0 then iri_port iri else IRC_PORT) in
          if \<not> be_irc_connect env then Some (t, Conn STATUS_CONNECTION_FAILED)
          else Some (bitu_transport_set_data t
                       (Some (Data_irc (s\<lparr>irc_host := iri_host iri, irc_port := port, irc_nick := nick\<rparr>))), Conn STATUS_OK)
      | Some _ \<Rightarrow> None)"

text \<open>The errors that \<open>_irc_get_session\<close> and \<open>_irc_connect\<close> record.\<close>

definition irc_connect_error :: "backend_env \<Rightarrow> bitu_transport \<Rightarrow> bitu_error option" where
  "irc_connect_error env t =
     (if bitu_transport_get_data t = None \<and> irc_get_session env = None then Some ERROR_TRANSPORT_IRC_NOSESSION
      else if \<not> be_irc_connect env then Some ERROR_TRANSPORT_IRC_CONN
      else None)"

text \<open>\<open>irc_disconnect\<close> and \<open>irc_destroy_session\<close> want a session, not a null pointer.\<close>

definition irc_disconnect :: "bitu_transport \<Rightarrow> (bitu_transport \<times> rc) option" where
  "irc_disconnect t = (case bitu_transport_get_data t of
       Some (Data_irc s) \<Rightarrow> Some (bitu_transport_set_data t None, Conn STATUS_OK)
     | _ \<Rightarrow> None)"

definition irc_is_running :: "backend_env \<Rightarrow> bitu_transport \<Rightarrow> rc option" where
  "irc_is_running env t = (case bitu_transport_get_data t of
       None \<Rightarrow> Some (Ta TA_ERROR)
     | Some (Data_irc s) \<Rightarrow> Some (Ta (if be_irc_connected env then TA_OK else TA_ERROR))
     | Some _ \<Rightarrow> None)"

text \<open>The message is printed with \<open>%s\<close> first, which a null pointer is not an argument for.\<close>

definition irc_send ::
    "backend_env \<Rightarrow> bitu_transport \<Rightarrow> string option \<Rightarrow> string \<Rightarrow> (string \<times> rc) option" where
  "irc_send env t msg to = (case bitu_transport_get_data t of
       Some (Data_irc s) \<Rightarrow> do {
         m \<leftarrow> msg;
         Some (m, Ta (be_send env)) }
     | _ \<Rightarrow> None)"

section \<open>The interface of transports\<close>

definition bitu_transport_connect ::
    "backend_env \<Rightarrow> nat \<Rightarrow> bitu_transport \<Rightarrow> (bitu_transport \<times> rc) option" where
  "bitu_transport_connect env a t = do {
     tr_log t;
     callback \<leftarrow> cb_connect (tr_callbacks t);
     case callback of
       Local \<Rightarrow> local_connect env a t
     | Xmpp \<Rightarrow> xmpp_connect env t
     | Irc \<Rightarrow> irc_connect env t }"

definition bitu_transport_disconnect :: "bitu_transport \<Rightarrow> (bitu_transport \<times> rc) option" where
  "bitu_transport_disconnect t = do {
     tr_log t;
     callback \<leftarrow> cb_disconnect (tr_callbacks t);
     case callback of
       Local \<Rightarrow> local_disconnect t
     | Xmpp \<Rightarrow> xmpp_disconnect t
     | Irc \<Rightarrow> irc_disconnect t }"

definition bitu_transport_is_running :: "backend_env \<Rightarrow> bitu_transport \<Rightarrow> rc option" where
  "bitu_transport_is_running env t = do {
     callback \<leftarrow> cb_is_running (tr_callbacks t);
     case callback of
       Local \<Rightarrow> local_is_running t
     | Xmpp \<Rightarrow> xmpp_is_running env t
     | Irc \<Rightarrow> irc_is_running env t }"

text \<open>The first component is what is handed to the client's socket or to the library.\<close>

definition bitu_transport_send ::
    "backend_env \<Rightarrow> bitu_transport \<Rightarrow> string option \<Rightarrow> string \<Rightarrow> (string \<times> rc) option" where
  "bitu_transport_send env t msg to = do {
     callback \<leftarrow> cb_send (tr_callbacks t);
     case callback of
       Local \<Rightarrow> local_send env t msg to
     | Xmpp \<Rightarrow> xmpp_send env t msg to
     | Irc \<Rightarrow> irc_send env t msg to }"

section \<open>The connection manager\<close>

text \<open>
  \<open>cm_heap\<close> is the store of transports; \<open>cm_threads\<close> lists the transports for which a thread
  with their main loop has been started, \<open>cm_consumers\<close> counts the consumer threads.
\<close>

record conn_manager =
  cm_transports :: "(string, nat) hashtable"
  cm_commands :: "bitu_command bitu_queue"
  cm_heap :: "nat \<rightharpoonup> bitu_transport"
  cm_brk :: nat
  cm_threads :: "nat list"
  cm_consumers :: nat

definition bitu_conn_manager_new :: "conn_manager option" where
  "bitu_conn_manager_new = do {
     table \<leftarrow> hashtable_create True True hash_string string_equal True True;
     transports \<leftarrow> table;
     Some \<lparr>cm_transports = transports, cm_commands = bitu_queue_new, cm_heap = Map.empty,
       cm_brk = 0, cm_threads = [], cm_consumers = 0\<rparr> }"

text \<open>The result \<open>None\<close> in the second component is the null pointer.\<close>

definition bitu_conn_manager_add ::
    "(string \<Rightarrow> iri option) \<Rightarrow> conn_manager \<Rightarrow> string \<Rightarrow> (conn_manager \<times> nat option) option" where
  "bitu_conn_manager_add parse m uri = do {
     found \<leftarrow> hashtable_get (cm_transports m) uri;
     case found of Some a \<Rightarrow> Some (m, Some a)
     | None \<Rightarrow> do {
         new \<leftarrow> bitu_transport_new parse uri;
         case new of
           Inl e \<Rightarrow> Some (m, None)
         | Inr t \<Rightarrow> do {
             let a = cm_brk m;
             (table, _) \<leftarrow> hashtable_set True True (cm_transports m) uri a;
             Some (m\<lparr>cm_heap := (cm_heap m)(a \<mapsto> t\<lparr>tr_commands := Manager_queue\<rparr>), cm_brk := Suc a,
                     cm_transports := table\<rparr>, Some a) } } }"

text \<open>The transports that a change of the table has released are freed.\<close>

definition free_released ::
    "(string, nat) hashtable \<Rightarrow> (string, nat) hashtable \<Rightarrow> (nat \<rightharpoonup> bitu_transport) \<Rightarrow> (nat \<rightharpoonup> bitu_transport)" where
  "free_released h h' heap = heap |` (- set (drop (length (ht_freed_values h)) (ht_freed_values h')))"

definition bitu_conn_manager_remove ::
    "backend_env \<Rightarrow> conn_manager \<Rightarrow> string \<Rightarrow> (conn_manager \<times> conn_status) option" where
  "bitu_conn_manager_remove env m uri = do {
     found \<leftarrow> hashtable_get (cm_transports m) uri;
     case found of None \<Rightarrow> Some (m, STATUS_TRANSPORT_NOT_FOUND)
     | Some a \<Rightarrow> do {
         t \<leftarrow> cm_heap m a;
         rc \<leftarrow> bitu_transport_is_running env t;
         if rc_ok rc then Some (m, STATUS_STILL_RUNNING)
         else do {
           (table, _) \<leftarrow> hashtable_del (cm_transports m) uri;
           Some (m\<lparr>cm_transports := table, cm_heap := free_released (cm_transports m) table (cm_heap m)\<rparr>,
                 STATUS_OK) } } }"

definition bitu_conn_manager_get_n_transports :: "conn_manager \<Rightarrow> nat" where
  "bitu_conn_manager_get_n_transports m = unat (ht_size (cm_transports m))"

definition bitu_conn_manager_get_transports :: "string ta_list_api \<Rightarrow> conn_manager \<Rightarrow> string list option" where
  "bitu_conn_manager_get_transports T m = do {
     iter \<leftarrow> hashtable_iter (cm_transports m);
     case iter of None \<Rightarrow> Some []
     | Some p \<Rightarrow> do {
         r \<leftarrow> hashtable_walk (cm_transports m) (\<lambda>keys k v. Some (Inl (ta_append T keys k) :: string list + unit)) p [];
         case r of Inl keys \<Rightarrow> Some keys | Inr _ \<Rightarrow> None } }"

definition bitu_conn_manager_get_transport :: "conn_manager \<Rightarrow> string \<Rightarrow> nat option option" where
  "bitu_conn_manager_get_transport m uri = hashtable_get (cm_transports m) uri"

definition bitu_conn_manager_shutdown :: "conn_manager \<Rightarrow> string \<Rightarrow> (conn_manager \<times> conn_status) option" where
  "bitu_conn_manager_shutdown m uri = do {
     found \<leftarrow> bitu_conn_manager_get_transport m uri;
     case found of None \<Rightarrow> Some (m, STATUS_TRANSPORT_NOT_FOUND)
     | Some a \<Rightarrow> do {
         t \<leftarrow> cm_heap m a;
         tr_log t;
         (t, rc) \<leftarrow> bitu_transport_disconnect t;
         let m = m\<lparr>cm_heap := (cm_heap m)(a \<mapsto> t)\<rparr>;
         Some (m, if rc_ok rc then STATUS_OK else STATUS_ALREADY_SHUTDOWN) } }"

definition bitu_conn_manager_run ::
    "backend_env \<Rightarrow> conn_manager \<Rightarrow> string \<Rightarrow> (conn_manager \<times> conn_status) option" where
  "bitu_conn_manager_run env m uri = do {
     found \<leftarrow> bitu_conn_manager_get_transport m uri;
     case found of None \<Rightarrow> Some (m, STATUS_TRANSPORT_NOT_FOUND)
     | Some a \<Rightarrow> do {
         t \<leftarrow> cm_heap m a;
         (t, rc) \<leftarrow> bitu_transport_connect env a t;
         let m = m\<lparr>cm_heap := (cm_heap m)(a \<mapsto> t)\<rparr>;
         if rc_ok rc then do {
           m \<leftarrow> bitu_util_start_new_thread (be_thread env) (\<lambda>m. m\<lparr>cm_threads := cm_threads m @ [a]\<rparr>) m;
           Some (m, STATUS_SPAWNED) }
         else do {
           tr_log t;
           (m, _) \<leftarrow> bitu_conn_manager_shutdown m uri;
           Some (m, STATUS_CONNECTION_FAILED) } } }"

definition bitu_conn_manager_consume :: "bool \<Rightarrow> conn_manager \<Rightarrow> conn_manager option" where
  "bitu_conn_manager_consume created m =
     bitu_util_start_new_thread created (\<lambda>m. m\<lparr>cm_consumers := Suc (cm_consumers m)\<rparr>) m"

section \<open>Commands on their way to the queue\<close>

definition bitu_transport_queue_command ::
    "bitu_command option ta_list_api \<Rightarrow> conn_manager \<Rightarrow> nat \<Rightarrow> bitu_command \<Rightarrow> (conn_manager \<times> ta_status) option" where
  "bitu_transport_queue_command T m a cmd = do {
     t \<leftarrow> cm_heap m a;
     case tr_commands t of
       No_value \<Rightarrow> None
     | Null \<Rightarrow> Some (m, TA_ERROR)
     | Manager_queue \<Rightarrow> do {
         tr_log t;
         q \<leftarrow> bitu_queue_add T (cm_commands m) (Some cmd);
         Some (m\<lparr>cm_commands := q\<rparr>, TA_OK) } }"

text \<open>
  What \<open>_message_received\<close> of the local transport, \<open>message_received_cb\<close> of the XMPP transport and
  \<open>_irc_event_notice\<close> have in common: a message from \<open>sender\<close> on the transport \<open>a\<close>.
\<close>

definition message_received ::
    "bitu_command option ta_list_api \<Rightarrow> allocator \<Rightarrow> backend_env \<Rightarrow> conn_manager \<Rightarrow> nat \<Rightarrow>
     string \<Rightarrow> string \<Rightarrow> conn_manager option" where
  "message_received T U env m a sender message = do {
     command \<leftarrow> bitu_command_new U (Some a) message (Some sender);
     (m, rc) \<leftarrow> bitu_transport_queue_command T m a command;
     if rc = TA_ERROR then do {
       t \<leftarrow> cm_heap m a;
       _ \<leftarrow> bitu_transport_send env t (Some ''Sorry sir, I couldn't queue your command'') sender;
       Some m }
     else Some m }"

section \<open>Main loops and callbacks\<close>

text \<open>\<open>_message_received\<close>, the callback of the server of a local transport.\<close>

definition local_message_received ::
    "bitu_command option ta_list_api \<Rightarrow> allocator \<Rightarrow> backend_env \<Rightarrow> conn_manager \<Rightarrow> bitu_server \<Rightarrow>
     string \<Rightarrow> string \<Rightarrow> conn_manager option" where
  "local_message_received T U env m server client message = do {
     transport \<leftarrow> bitu_server_get_data server;
     message_received T U env m transport client message }"

text \<open>The main loop of a local transport: the server with this callback.\<close>

definition local_run ::
    "bitu_command option ta_list_api \<Rightarrow> allocator \<Rightarrow> backend_env \<Rightarrow> conn_manager \<Rightarrow> nat \<Rightarrow>
     accept_result list \<Rightarrow> (bitu_server \<times> conn_manager) option" where
  "local_run T U env m a events = do {
     t \<leftarrow> cm_heap m a;
     case bitu_transport_get_data t of
       Some (Data_server server) \<Rightarrow> bitu_server_run U (local_message_received T U env) server events m
     | _ \<Rightarrow> None }"

text \<open>
  \<open>message_received_cb\<close>: a packet without a body is no message. The sender is the full JID of the
  packet.
\<close>

definition xmpp_message_received ::
    "bitu_command option ta_list_api \<Rightarrow> allocator \<Rightarrow> backend_env \<Rightarrow> conn_manager \<Rightarrow> nat \<Rightarrow>
     string \<Rightarrow> string option \<Rightarrow> conn_manager option" where
  "xmpp_message_received T U env m a from_full body = (case body of
       None \<Rightarrow> Some m
     | Some rawbody \<Rightarrow> message_received T U env m a from_full rawbody)"

text \<open>
  \<open>presence_noticed_cb\<close>: what is printed for the presence of a contact, nothing for the own one;
  \<open>partial\<close> gives the JID without its resource, as \<open>iks_id_new\<close> finds it.
\<close>

definition xmpp_presence_noticed :: "(string \<Rightarrow> string) \<Rightarrow> xmpp_client \<Rightarrow> string \<Rightarrow> string option" where
  "xmpp_presence_noticed partial client from_full =
     (if partial from_full = partial (xc_jid client) then None
      else Some (''Presence: '' @ from_full @ [newline]))"

text \<open>
  The five hooks that \<open>_xmpp_connect\<close> connects to the events of the client; the one for messages gets
  the transport.
\<close>

datatype xmpp_hook =
    Connected_cb | Auth_cb | Auth_failed_cb | Message_received_cb nat | Presence_noticed_cb

definition xmpp_hooks :: "nat \<Rightarrow> (string \<times> xmpp_hook) list" where
  "xmpp_hooks a = [(''connected'', Connected_cb), (''authenticated'', Auth_cb),
     (''authentication-failed'', Auth_failed_cb), (''message-received'', Message_received_cb a),
     (''presence-noticed'', Presence_noticed_cb)]"

text \<open>
  What the hooks have the library do, and what they print: the presence that \<open>auth_cb\<close> sends, the
  disconnecting of \<open>auth_failed_cb\<close>, the line of \<open>presence_noticed_cb\<close>.
\<close>

datatype xmpp_effect = Presence_sent string | Client_disconnected | Printed string

definition auth_cb :: "xmpp_client \<Rightarrow> xmpp_effect list option" where
  "auth_cb client = do {
     require (xc_live client);
     Some [Presence_sent ''Online''] }"

definition auth_failed_cb :: "xmpp_client \<Rightarrow> xmpp_effect list option" where
  "auth_failed_cb client = do {
     require (xc_live client);
     Some [Client_disconnected] }"

text \<open>A packet with the full JID of its sender and its body; the library calls the hook of an event.\<close>

record xmpp_packet =
  pak_from :: string
  pak_body :: "string option"

definition xmpp_run_hook ::
    "(string \<Rightarrow> string) \<Rightarrow> bitu_command option ta_list_api \<Rightarrow> allocator \<Rightarrow> backend_env \<Rightarrow> conn_manager \<Rightarrow>
     xmpp_client \<Rightarrow> xmpp_hook \<Rightarrow> xmpp_packet \<Rightarrow> (conn_manager \<times> xmpp_effect list) option" where
  "xmpp_run_hook partial T U env m client hook pak = (case hook of
       Connected_cb \<Rightarrow> Some (m, [])
     | Auth_cb \<Rightarrow> do { out \<leftarrow> auth_cb client; Some (m, out) }
     | Auth_failed_cb \<Rightarrow> do { out \<leftarrow> auth_failed_cb client; Some (m, out) }
     | Message_received_cb a \<Rightarrow> do {
         m \<leftarrow> xmpp_message_received T U env m a (pak_from pak) (pak_body pak);
         Some (m, []) }
     | Presence_noticed_cb \<Rightarrow> do {
         require (xc_live client);
         Some (m, case xmpp_presence_noticed partial client (pak_from pak) of None \<Rightarrow> [] | Some text \<Rightarrow> [Printed text]) })"

text \<open>A run of the client of the transport \<open>a\<close>: the events that the library reports.\<close>

fun xmpp_events ::
    "(string \<Rightarrow> string) \<Rightarrow> bitu_command option ta_list_api \<Rightarrow> allocator \<Rightarrow> backend_env \<Rightarrow> nat \<Rightarrow>
     (string \<times> xmpp_packet) list \<Rightarrow> conn_manager \<Rightarrow> (conn_manager \<times> xmpp_effect list) option" where
  "xmpp_events partial T U env a [] m = Some (m, [])"
| "xmpp_events partial T U env a ((event, pak) # rest) m = do {
     t \<leftarrow> cm_heap m a;
     (case bitu_transport_get_data t of
        Some (Data_xmpp client) \<Rightarrow> (case map_of (xmpp_hooks a) event of
            None \<Rightarrow> xmpp_events partial T U env a rest m
          | Some hook \<Rightarrow> do {
              (m, out) \<leftarrow> xmpp_run_hook partial T U env m client hook pak;
              (m, outs) \<leftarrow> xmpp_events partial T U env a rest m;
              Some (m, out @ outs) })
      | _ \<Rightarrow> None) }"

text \<open>
  \<open>_irc_event_notice\<close>. \<open>regex pattern\<close> is \<open>None\<close> when the pattern does not compile and otherwise says
  which strings match. The buffer \<open>origin_nick\<close> of 128 bytes is not terminated by \<open>strncpy\<close> when
  the channel fills it, and the buffer for the trace of the parameters has 512 bytes.
\<close>

definition irc_trace :: "string list \<Rightarrow> string" where
  "irc_trace params = (case params of [] \<Rightarrow> [] | p # ps \<Rightarrow> p @ concat (map (\<lambda>q. CHR 0x7C # q) ps))"

definition irc_pattern :: "string \<Rightarrow> string" where
  "irc_pattern nick = take 127 (''[[:<:]]'' @ nick @ ''[[:>:]]'')"

definition irc_event_notice ::
    "(string \<Rightarrow> (string \<Rightarrow> bool) option) \<Rightarrow> bitu_command option ta_list_api \<Rightarrow> allocator \<Rightarrow> backend_env \<Rightarrow>
     conn_manager \<Rightarrow> nat \<Rightarrow> string option \<Rightarrow> string list \<Rightarrow> conn_manager option" where
  "irc_event_notice regex T U env m a origin params = do {
     t \<leftarrow> cm_heap m a;
     nick \<leftarrow> iri_user (tr_uri t);
     case regex (irc_pattern nick) of None \<Rightarrow> Some m
     | Some matches \<Rightarrow> do {
         cmd \<leftarrow> nth_opt params 1;
         if \<not> matches cmd then Some m
         else do {
           (if origin = None then do {
              channel \<leftarrow> iri_fragment (tr_uri t);
              require (length channel < 128) }
            else Some ());
           require (length (irc_trace params) < 512);
           target \<leftarrow> nth_opt params 0;
           message_received T U env m a target cmd } } }"

text \<open>\<open>_irc_event_connect\<close>: the channel that is joined, the fragment of the URI.\<close>

definition irc_event_connect :: "bitu_transport \<Rightarrow> string option" where
  "irc_event_connect t = iri_fragment (tr_uri t)"

text \<open>
  The callbacks that \<open>_irc_get_session\<close> registers, by the events of the library, and a run of the session of
  the transport \<open>a\<close>: the events that the library reports, and the channels that are joined. A URI
  without a fragment hands a null pointer to \<open>printf\<close>.
\<close>

datatype irc_callback = Irc_event_connect | Irc_event_notice

definition irc_callbacks :: "(string \<times> irc_callback) list" where
  "irc_callbacks = [(''connect'', Irc_event_connect), (''notice'', Irc_event_notice), (''channel'', Irc_event_notice),
     (''channel_notice'', Irc_event_notice), (''privmsg'', Irc_event_notice)]"

record irc_message =
  im_origin :: "string option"
  im_params :: "string list"

definition irc_run_callback ::
    "(string \<Rightarrow> (string \<Rightarrow> bool) option) \<Rightarrow> bitu_command option ta_list_api \<Rightarrow> allocator \<Rightarrow> backend_env \<Rightarrow>
     conn_manager \<Rightarrow> nat \<Rightarrow> irc_callback \<Rightarrow> irc_message \<Rightarrow> (conn_manager \<times> string list) option" where
  "irc_run_callback regex T U env m a callback msg = (case callback of
       Irc_event_connect \<Rightarrow> do {
         t \<leftarrow> cm_heap m a;
         channel \<leftarrow> irc_event_connect t;
         Some (m, [channel]) }
     | Irc_event_notice \<Rightarrow> do {
         m \<leftarrow> irc_event_notice regex T U env m a (im_origin msg) (im_params msg);
         Some (m, []) })"

fun irc_events ::
    "(string \<Rightarrow> (string \<Rightarrow> bool) option) \<Rightarrow> bitu_command option ta_list_api \<Rightarrow> allocator \<Rightarrow> backend_env \<Rightarrow> nat \<Rightarrow>
     (string \<times> irc_message) list \<Rightarrow> conn_manager \<Rightarrow> (conn_manager \<times> string list) option" where
  "irc_events regex T U env a [] m = Some (m, [])"
| "irc_events regex T U env a ((event, msg) # rest) m = (case map_of irc_callbacks event of
       None \<Rightarrow> irc_events regex T U env a rest m
     | Some callback \<Rightarrow> do {
         (m, joined) \<leftarrow> irc_run_callback regex T U env m a callback msg;
         (m, others) \<leftarrow> irc_events regex T U env a rest m;
         Some (m, joined @ others) })"

text \<open>\<open>_xmpp_run\<close> and \<open>_irc_run\<close>; \<open>library\<close> is what the main loop of the library returns.\<close>

definition xmpp_run :: "ta_status \<Rightarrow> bitu_transport \<Rightarrow> rc option" where
  "xmpp_run library t = (case bitu_transport_get_data t of
       Some (Data_xmpp client) \<Rightarrow> do {
         require (xc_live client);
         Some (Conn (if library = TA_OK then STATUS_OK else STATUS_ERROR)) }
     | _ \<Rightarrow> None)"

definition irc_run :: "ta_status \<Rightarrow> bitu_transport \<Rightarrow> rc option" where
  "irc_run library t = (case bitu_transport_get_data t of
       Some (Data_irc s) \<Rightarrow> Some (Ta (if library \<noteq> TA_OK then TA_ERROR else TA_OK))
     | _ \<Rightarrow> None)"

definition irc_run_error :: "ta_status \<Rightarrow> bitu_error option" where
  "irc_run_error library = (if library \<noteq> TA_OK then Some ERROR_TRANSPORT_IRC_RUN else None)"

text \<open>
  \<open>bitu_transport_run\<close> logs first and then runs the main loop of the backend; \<open>library\<close> is what the
  libraries' main loops return, and \<open>events\<close> what happens on the socket of a local transport.
\<close>

definition bitu_transport_run ::
    "bitu_command option ta_list_api \<Rightarrow> allocator \<Rightarrow> backend_env \<Rightarrow> ta_status \<Rightarrow> accept_result list \<Rightarrow>
     conn_manager \<Rightarrow> nat \<Rightarrow> (conn_manager \<times> rc) option" where
  "bitu_transport_run T U env library events m a = do {
     t \<leftarrow> cm_heap m a;
     tr_log t;
     callback \<leftarrow> cb_run (tr_callbacks t);
     case callback of
       Local \<Rightarrow> do {
         (server, m) \<leftarrow> local_run T U env m a events;
         Some (m, Ta TA_OK) }
     | Xmpp \<Rightarrow> do {
         rc \<leftarrow> xmpp_run library t;
         Some (m, rc) }
     | Irc \<Rightarrow> do {
         rc \<leftarrow> irc_run library t;
         Some (m, rc) } }"

text \<open>
  \<open>_bitu_conn_manager_run_transport\<close>, the function of a transport's thread: it warns on the transport's
  logger when the main loop returns \<open>TA_ERROR\<close>. The last component says whether it did.
\<close>

definition run_transport_thread ::
    "bitu_command option ta_list_api \<Rightarrow> allocator \<Rightarrow> backend_env \<Rightarrow> ta_status \<Rightarrow> accept_result list \<Rightarrow>
     conn_manager \<Rightarrow> nat \<Rightarrow> (conn_manager \<times> bool) option" where
  "run_transport_thread T U env library events m a = do {
     (m, rc) \<leftarrow> bitu_transport_run T U env library events m a;
     if rc = Ta TA_ERROR then do {
       t \<leftarrow> cm_heap m a;
       tr_log t;
       Some (m, True) }
     else Some (m, False) }"

end
