(* ===== verification/Loader.thy ===== *)
theory Loader
  imports Transport
begin

text \<open>
  \<open>src/loader.c\<close>: plugins are shared libraries with a function that gives their name, one that
  executes a command and an optional one that recognises command lines; the context keeps
  them in a hash table under their names. What the libraries contain is a parameter.
\<close>

section \<open>Plugins\<close>

text \<open>
  A library that \<open>dlopen\<close> finds, with the symbols \<open>dlsym\<close> finds in it. Executing a command gives NULL or
  an answer, unless the library's code has no defined result.
\<close>

record dl_library =
  dl_plugin_name :: "string option"
  dl_plugin_execute :: "(bitu_command \<Rightarrow> string option option) option"
  dl_plugin_match :: "(string \<Rightarrow> bool) option"

record bitu_plugin =
  pl_handle :: string
  pl_name :: string
  pl_execute :: "bitu_command \<Rightarrow> string option option"
  pl_match :: "(string \<Rightarrow> bool) option"

definition bitu_plugin_name :: "bitu_plugin \<Rightarrow> string" where
  "bitu_plugin_name plugin = pl_name plugin"

definition bitu_plugin_execute :: "bitu_plugin \<Rightarrow> bitu_command \<Rightarrow> string option option" where
  "bitu_plugin_execute plugin command = pl_execute plugin command"

definition bitu_plugin_load :: "(string \<Rightarrow> dl_library option) \<Rightarrow> string \<Rightarrow> bitu_plugin option" where
  "bitu_plugin_load dl lib = (case dl lib of
       None \<Rightarrow> None
     | Some l \<Rightarrow> (case dl_plugin_name l of
           None \<Rightarrow> None
         | Some name \<Rightarrow> (case dl_plugin_execute l of
               None \<Rightarrow> None
             | Some execute \<Rightarrow>
                 Some \<lparr>pl_handle = lib, pl_name = name, pl_execute = execute, pl_match = dl_plugin_match l\<rparr>)))"

section \<open>The context\<close>

type_synonym plugin_ctx = "(string, bitu_plugin) hashtable"

definition bitu_plugin_ctx_new :: "plugin_ctx option" where
  "bitu_plugin_ctx_new = do {
     table \<leftarrow> hashtable_create True True hash_string string_equal True True;
     table }"

text \<open>The plugins whose libraries are closed with the context.\<close>

definition bitu_plugin_ctx_free :: "plugin_ctx \<Rightarrow> bitu_plugin list option" where
  "bitu_plugin_ctx_free ctx = do {
     (_, plugins) \<leftarrow> hashtable_destroy ctx;
     Some plugins }"

definition bitu_plugin_ctx_load ::
    "(string \<Rightarrow> dl_library option) \<Rightarrow> plugin_ctx \<Rightarrow> string \<Rightarrow> (plugin_ctx \<times> ta_status) option" where
  "bitu_plugin_ctx_load dl ctx lib = (case bitu_plugin_load dl lib of
       None \<Rightarrow> Some (ctx, TA_ERROR)
     | Some plugin \<Rightarrow> do {
         (ctx, rc) \<leftarrow> hashtable_set True True ctx (bitu_plugin_name plugin) plugin;
         Some (ctx, if rc = -1 then TA_ERROR else TA_OK) })"

definition bitu_plugin_ctx_unload :: "plugin_ctx \<Rightarrow> string \<Rightarrow> (plugin_ctx \<times> bool) option" where
  "bitu_plugin_ctx_unload ctx lib = do {
     plugin \<leftarrow> hashtable_get ctx lib;
     case plugin of None \<Rightarrow> Some (ctx, False)
     | Some _ \<Rightarrow> do {
         (ctx, _) \<leftarrow> hashtable_del ctx lib;
         Some (ctx, True) } }"

definition bitu_plugin_ctx_find :: "plugin_ctx \<Rightarrow> string \<Rightarrow> bitu_plugin option option" where
  "bitu_plugin_ctx_find ctx name = hashtable_get ctx name"

text \<open>The body of the loop over the plugins: it returns the first one that matches.\<close>

definition match_body :: "string \<Rightarrow> unit \<Rightarrow> string \<Rightarrow> bitu_plugin \<Rightarrow> (unit + bitu_plugin) option" where
  "match_body cmdline u name plugin = Some (case pl_match plugin of
       None \<Rightarrow> Inl ()
     | Some match \<Rightarrow> if match cmdline then Inr plugin else Inl ())"

definition bitu_plugin_ctx_find_for_cmdline ::
    "allocator \<Rightarrow> plugin_ctx \<Rightarrow> string \<Rightarrow> bitu_plugin option option" where
  "bitu_plugin_ctx_find_for_cmdline U ctx cmdline = do {
     iter \<leftarrow> hashtable_iter ctx;
     case iter of None \<Rightarrow> Some None
     | Some p \<Rightarrow> do {
         r \<leftarrow> hashtable_walk ctx (match_body cmdline) p ();
         case r of Inr plugin \<Rightarrow> Some (Some plugin)
         | Inl _ \<Rightarrow> do {
             parsed \<leftarrow> bitu_util_extract_params (\<lambda>_. True) U cmdline;
             case parsed of None \<Rightarrow> Some None
             | Some _ \<Rightarrow> bitu_plugin_ctx_find ctx cmdline } } }"

definition bitu_plugin_ctx_get_list :: "string ta_list_api \<Rightarrow> plugin_ctx \<Rightarrow> string list option" where
  "bitu_plugin_ctx_get_list T ctx = do {
     iter \<leftarrow> hashtable_iter ctx;
     case iter of None \<Rightarrow> Some []
     | Some p \<Rightarrow> do {
         r \<leftarrow> hashtable_walk ctx (\<lambda>ret k v. Some (Inl (ta_append T ret k) :: string list + unit)) p [];
         case r of Inl ret \<Rightarrow> Some ret | Inr _ \<Rightarrow> None } }"

section \<open>Which plugin serves a command line\<close>

definition matches :: "string \<Rightarrow> bitu_plugin \<Rightarrow> bool" where
  "matches cmdline plugin = (case pl_match plugin of None \<Rightarrow> False | Some match \<Rightarrow> match cmdline)"

lemma match_fold:
  "fold_until (match_body cmdline) () es =
     Some (case find (\<lambda>e. matches cmdline (snd e)) es of None \<Rightarrow> Inl () | Some e \<Rightarrow> Inr (snd e))"
  by (induction es) (auto simp: match_body_def matches_def split: option.splits)

lemma find_for_cmdline_run:
  assumes "ht_wf ctx"
  shows "bitu_plugin_ctx_find_for_cmdline U ctx cmdline =
    (case find (\<lambda>e. matches cmdline (snd e)) (ht_entries ctx) of
       Some e \<Rightarrow> Some (Some (snd e))
     | None \<Rightarrow> if ht_entries ctx = [] then Some None
         else do {
           parsed \<leftarrow> bitu_util_extract_params (\<lambda>_. True) U cmdline;
           Some (if parsed = None then None else ht_map ctx cmdline) })"
  by (rule walk_table [OF assms, where 'a = unit and 'r = bitu_plugin])
     (auto simp: bitu_plugin_ctx_find_for_cmdline_def match_fold bitu_plugin_ctx_find_def ht.get_law [OF assms]
       split: option.splits bind_splits)

lemma plugin_list_run:
  assumes "ta_list_ok T" "ht_wf ctx"
  shows "bitu_plugin_ctx_get_list T ctx = Some (map fst (ht_entries ctx))"
proof -
  have T: "ta_append T xs x = xs @ [x]" for xs x
    using assms(1) by (simp add: ta_list_ok_def)
  show ?thesis
    by (rule walk_table [OF assms(2), where 'a = "string list" and 'r = unit])
       (simp_all add: bitu_plugin_ctx_get_list_def fold_keys [where app = "\<lambda>xs x. xs @ [x]"] T)
qed

end
