(* ===== verification/App.thy ===== *)
theory App
  imports Loader
begin

text \<open>
  \<open>src/app.c\<close>: the application with its environment, its table of built-in commands, its
  connections and its plugins; the built-in commands; the execution of a command that came
  from the queue or from a configuration file. An answer is \<open>None\<close> when the code returns NULL.
  What is written to the log is left out, except where the logged text itself is taken for
  a format.
\<close>

section \<open>Formatted output\<close>

definition apostrophe :: char where
  "apostrophe = CHR 0x27"

definition percent :: char where
  "percent = CHR 0x25"

fun show_nat :: "nat \<Rightarrow> string" where
  "show_nat n = (if n < 10 then [char_of (48 + n)] else show_nat (n div 10) @ [char_of (48 + n mod 10)])"

declare show_nat.simps [simp del]

text \<open>\<open>%d\<close>\<close>

definition show_int :: "int \<Rightarrow> string" where
  "show_int i = (if i < 0 then CHR 0x2D # show_nat (nat (- i)) else show_nat (nat i))"

text \<open>\<open>snprintf\<close> into a buffer of \<open>n\<close> bytes.\<close>

definition snprintf :: "nat \<Rightarrow> string \<Rightarrow> string" where
  "snprintf n text = take (n - 1) text"

text \<open>A text that is used as a format reads no arguments: every percent sign is doubled.\<close>

fun plain_format :: "string \<Rightarrow> bool" where
  "plain_format [] = True"
| "plain_format [c] = (c \<noteq> percent)"
| "plain_format (c # d # s) = (if c = percent then d = percent \<and> plain_format s else plain_format (d # s))"

section \<open>The application\<close>

datatype builtin =
    Cmd_help | Cmd_set | Cmd_get | Cmd_unset | Cmd_env | Cmd_transport | Cmd_load | Cmd_unload
  | Cmd_send | Cmd_list | Cmd_set_log_file | Cmd_set_log_level | Cmd_set_log_use_colors

datatype log_level = LOG_DEBUG | LOG_INFO | LOG_WARN | LOG_ERROR | LOG_CRITICAL

text \<open>\<open>ap_level\<close> and \<open>ap_colors\<close> are what has last been set on the application's logger.\<close>

record bitu_app =
  ap_environment :: "(string, string) hashtable"
  ap_commands :: "(string, builtin) hashtable"
  ap_connections :: conn_manager
  ap_plugin_ctx :: plugin_ctx
  ap_logfile :: "string option"
  ap_logfd :: int
  ap_level :: "log_level option"
  ap_colors :: "bool option"

text \<open>
  The string buffers of taningia (\<open>ta_buf_t\<close>) are not part of the repository: appending to a
  buffer is a parameter, \<open>ta_buf_ok\<close> what its callers rely on.
\<close>

definition ta_buf_ok :: "(string \<Rightarrow> string \<Rightarrow> string) \<Rightarrow> bool" where
  "ta_buf_ok cat \<longleftrightarrow> (\<forall>s t. cat s t = s @ t)"

text \<open>
  What the outside gives to one command: the allocator, the libraries' functions, the answers
  of the transports' calls, what \<open>dlopen\<close> finds and what \<open>open\<close> returns (-1 with \<open>strerror\<close>).
\<close>

record app_env =
  ae_alloc :: allocator
  ae_list :: "string ta_list_api"
  ae_buf :: "string \<Rightarrow> string \<Rightarrow> string"
  ae_parse :: "string \<Rightarrow> iri option"
  ae_backend :: backend_env
  ae_dl :: "string \<Rightarrow> dl_library option"
  ae_open :: "string \<Rightarrow> int"
  ae_strerror :: string

definition builtins :: "(string \<times> builtin) list" where
  "builtins = [(''help'', Cmd_help), (''set'', Cmd_set), (''get'', Cmd_get), (''unset'', Cmd_unset),
     (''env'', Cmd_env), (''transport'', Cmd_transport), (''load'', Cmd_load), (''unload'', Cmd_unload),
     (''send'', Cmd_send), (''list'', Cmd_list), (''set-log-file'', Cmd_set_log_file),
     (''set-log-level'', Cmd_set_log_level), (''set-log-use-colors'', Cmd_set_log_use_colors)]"

definition register_commands :: "(string, builtin) hashtable \<Rightarrow> (string, builtin) hashtable option" where
  "register_commands h = set_seq (hashtable_set True True) h builtins"

definition bitu_app_new :: "bitu_app option" where
  "bitu_app_new = do {
     plugins \<leftarrow> bitu_plugin_ctx_new;
     environment \<leftarrow> hashtable_create True True hash_string string_equal True True;
     environment \<leftarrow> environment;
     commands \<leftarrow> hashtable_create True True hash_string string_equal False False;
     commands \<leftarrow> commands;
     connections \<leftarrow> bitu_conn_manager_new;
     commands \<leftarrow> register_commands commands;
     Some \<lparr>ap_environment = environment, ap_commands = commands, ap_connections = connections,
       ap_plugin_ctx = plugins, ap_logfile = None, ap_logfd = -1, ap_level = None, ap_colors = None\<rparr> }"

text \<open>
  \<open>bitu_app_free\<close>: what it releases, the strings of the environment, the plugins (with
  \<open>bitu_plugin_free\<close>, which closes the library), the name and the descriptor of the log file. The
  table of commands owns nothing; the connections are not released.
\<close>

record app_released =
  rl_keys :: "string list"
  rl_values :: "string list"
  rl_plugins :: "bitu_plugin list"
  rl_logfile :: "string option"
  rl_logfd :: int

definition bitu_app_free :: "bitu_app \<Rightarrow> app_released option" where
  "bitu_app_free app = do {
     (keys, vals) \<leftarrow> hashtable_destroy (ap_environment app);
     _ \<leftarrow> hashtable_destroy (ap_commands app);
     plugins \<leftarrow> bitu_plugin_ctx_free (ap_plugin_ctx app);
     Some \<lparr>rl_keys = keys, rl_values = vals, rl_plugins = plugins, rl_logfile = ap_logfile app,
       rl_logfd = ap_logfd app\<rparr> }"

definition bitu_app_dump_config :: "bitu_app \<Rightarrow> ta_status" where
  "bitu_app_dump_config app = TA_OK"

section \<open>Numbers of parameters\<close>

definition params_error :: "string \<Rightarrow> int \<Rightarrow> int \<Rightarrow> string" where
  "params_error cmd x y = snprintf 128
     (''Command `'' @ cmd @ [apostrophe] @ '' takes '' @ show_int x @ '' param(s), '' @ show_int y @ '' given'')"

definition validate_num_params :: "string \<Rightarrow> int \<Rightarrow> int \<Rightarrow> string option" where
  "validate_num_params cmd x y = (if x \<noteq> y then Some (params_error cmd x y) else None)"

definition validate_min_num_params :: "string \<Rightarrow> int \<Rightarrow> int \<Rightarrow> string option" where
  "validate_min_num_params cmd x y = (if y < x then Some (params_error cmd x y) else None)"

text \<open>\<open>if ((error = validate (...)) != NULL) return error;\<close>\<close>

definition checked ::
    "string option \<Rightarrow> bitu_app \<Rightarrow> (bitu_app \<times> string option) option \<Rightarrow> (bitu_app \<times> string option) option" where
  "checked error app rest = (case error of Some e \<Rightarrow> Some (app, Some e) | None \<Rightarrow> rest)"

section \<open>The environment\<close>

definition cmd_set :: "bitu_app \<Rightarrow> string list \<Rightarrow> int \<Rightarrow> (bitu_app \<times> string option) option" where
  "cmd_set app params n = checked (validate_num_params ''set'' 2 n) app (do {
     k \<leftarrow> nth_opt params 0;
     v \<leftarrow> nth_opt params 1;
     (env, _) \<leftarrow> hashtable_set True True (ap_environment app) k v;
     Some (app\<lparr>ap_environment := env\<rparr>, None) })"

definition cmd_get :: "bitu_app \<Rightarrow> string list \<Rightarrow> int \<Rightarrow> (bitu_app \<times> string option) option" where
  "cmd_get app params n = checked (validate_num_params ''set'' 1 n) app (do {
     k \<leftarrow> nth_opt params 0;
     val \<leftarrow> hashtable_get (ap_environment app) k;
     Some (app, val) })"

definition cmd_unset :: "bitu_app \<Rightarrow> string list \<Rightarrow> int \<Rightarrow> (bitu_app \<times> string option) option" where
  "cmd_unset app params n = checked (validate_num_params ''unset'' 1 n) app (do {
     k \<leftarrow> nth_opt params 0;
     (env, _) \<leftarrow> hashtable_del (ap_environment app) k;
     Some (app\<lparr>ap_environment := env\<rparr>, None) })"

text \<open>
  The body of the loop of \<open>cmd_env\<close>: \<open>list\<close> holds the text so far, of \<open>lastp\<close> characters, in a
  block requested with \<open>full_size\<close> bytes; the block grows by 256 bytes at most once.
\<close>

definition env_body :: "allocator \<Rightarrow> string \<times> nat \<Rightarrow> string \<Rightarrow> string \<Rightarrow> ((string \<times> nat) + unit) option" where
  "env_body U locals key v = (
     let (list, full_size) = locals;
         current_size = length list + length key + 1;
         full_size = (if full_size < current_size then full_size + 256 else full_size) in
     do {
       require (current_size \<le> U full_size);
       Some (Inl (list @ key @ [newline], full_size)) })"

definition cmd_env :: "allocator \<Rightarrow> bitu_app \<Rightarrow> int \<Rightarrow> (bitu_app \<times> string option) option" where
  "cmd_env U app n = checked (validate_num_params ''env'' 0 n) app (do {
     iter \<leftarrow> hashtable_iter (ap_environment app);
     case iter of None \<Rightarrow> Some (app, None)
     | Some p \<Rightarrow> do {
         r \<leftarrow> hashtable_walk (ap_environment app) (env_body U) p ([], 0);
         case r of Inl (list, _) \<Rightarrow> Some (app, Some (butlast list)) | Inr _ \<Rightarrow> None } })"

section \<open>Transports\<close>

definition with_connections :: "bitu_app \<Rightarrow> (conn_manager \<times> 'a) option \<Rightarrow> (bitu_app \<times> 'a) option" where
  "with_connections app r = do {
     (m, x) \<leftarrow> r;
     Some (app\<lparr>ap_connections := m\<rparr>, x) }"

text \<open>The loop of \<open>transport list\<close> over the list of URIs.\<close>

fun transport_lines ::
    "app_env \<Rightarrow> conn_manager \<Rightarrow> string list \<Rightarrow> string \<Rightarrow> string option" where
  "transport_lines E m [] buf = Some buf"
| "transport_lines E m (uri # rest) buf = do {
     found \<leftarrow> bitu_conn_manager_get_transport m uri;
     case found of None \<Rightarrow> transport_lines E m rest buf
     | Some a \<Rightarrow> do {
         t \<leftarrow> cm_heap m a;
         rc \<leftarrow> bitu_transport_is_running (ae_backend E) t;
         let status = (if rc_ok rc then ''running'' else ''stopped'');
         let buf = ae_buf E buf (''['' @ status @ ''] '' @ iri_text (tr_uri t));
         let buf = (if rest \<noteq> [] then ae_buf E buf [newline] else buf);
         transport_lines E m rest buf } }"

definition cmd_transport :: "app_env \<Rightarrow> bitu_app \<Rightarrow> string list \<Rightarrow> int \<Rightarrow> (bitu_app \<times> string option) option" where
  "cmd_transport E app params n = checked (validate_min_num_params ''transport'' 1 n) app (do {
     p0 \<leftarrow> nth_opt params 0;
     if p0 = ''add'' then
       checked (validate_num_params ''transport add'' 2 n) app (do {
         uri \<leftarrow> nth_opt params 1;
         (app, _) \<leftarrow> with_connections app (bitu_conn_manager_add (ae_parse E) (ap_connections app) uri);
         Some (app, None) })
     else if p0 = ''remove'' then
       checked (validate_num_params ''transport remove'' 2 n) app (do {
         uri \<leftarrow> nth_opt params 1;
         (app, status) \<leftarrow> with_connections app (bitu_conn_manager_remove (ae_backend E) (ap_connections app) uri);
         Some (app, case status of
             STATUS_STILL_RUNNING \<Rightarrow> Some ''You have to disconnect the transport before removing''
           | STATUS_TRANSPORT_NOT_FOUND \<Rightarrow> Some ''Transport not found''
           | _ \<Rightarrow> None) })
     else if p0 = ''list'' then do {
       uris \<leftarrow> bitu_conn_manager_get_transports (ae_list E) (ap_connections app);
       buf \<leftarrow> transport_lines E (ap_connections app) uris [];
       Some (app, Some buf) }
     else if p0 = ''connect'' then
       checked (validate_num_params ''transport connect'' 2 n) app (do {
         uri \<leftarrow> nth_opt params 1;
         (app, status) \<leftarrow> with_connections app (bitu_conn_manager_run (ae_backend E) (ap_connections app) uri);
         Some (app, case status of
             STATUS_SPAWNED \<Rightarrow> None
           | STATUS_TRANSPORT_NOT_FOUND \<Rightarrow> Some ''Transport not found, stop wasting my time''
           | STATUS_ALREADY_RUNNING \<Rightarrow> Some ''Transport already running, can't you see it???''
           | _ \<Rightarrow> Some ''I really don't know wtf just happened'') })
     else if p0 = ''disconnect'' then
       checked (validate_num_params ''transport disconnect'' 2 n) app (do {
         uri \<leftarrow> nth_opt params 1;
         (app, status) \<leftarrow> with_connections app (bitu_conn_manager_shutdown (ap_connections app) uri);
         Some (app, case status of
             STATUS_OK \<Rightarrow> None
           | STATUS_TRANSPORT_NOT_FOUND \<Rightarrow> Some ''Transport not found, stop wasting my time''
           | STATUS_ALREADY_SHUTDOWN \<Rightarrow> Some ''Transport already shutdown, do you want to kill it twice??''
           | _ \<Rightarrow> Some ''I really don't know wtf just happened'') })
     else Some (app, None) })"

section \<open>Plugins\<close>

definition libname :: "string \<Rightarrow> string" where
  "libname param = snprintf (length param + 7) (''lib'' @ param @ ''.so'')"

definition cmd_load :: "app_env \<Rightarrow> bitu_app \<Rightarrow> string list \<Rightarrow> int \<Rightarrow> (bitu_app \<times> string option) option" where
  "cmd_load E app params n = checked (validate_num_params ''load'' 1 n) app (do {
     p0 \<leftarrow> nth_opt params 0;
     (ctx, rc) \<leftarrow> bitu_plugin_ctx_load (ae_dl E) (ap_plugin_ctx app) (libname p0);
     Some (app\<lparr>ap_plugin_ctx := ctx\<rparr>, if rc = TA_OK then None else Some ''Unable to load module'') })"

definition cmd_unload :: "bitu_app \<Rightarrow> string list \<Rightarrow> int \<Rightarrow> (bitu_app \<times> string option) option" where
  "cmd_unload app params n = checked (validate_num_params ''unload'' 1 n) app (do {
     p0 \<leftarrow> nth_opt params 0;
     (ctx, ok) \<leftarrow> bitu_plugin_ctx_unload (ap_plugin_ctx app) p0;
     Some (app\<lparr>ap_plugin_ctx := ctx\<rparr>, if ok then None else Some ''Unable to unload module'') })"

definition cmd_send :: "bitu_app \<Rightarrow> (bitu_app \<times> string option) option" where
  "cmd_send app = Some (app, None)"

section \<open>Lists and help\<close>

text \<open>One round of the loops of \<open>cmd_list\<close>: the block \<open>ret\<close> always has as many bytes as characters.\<close>

definition list_line :: "allocator \<Rightarrow> string \<Rightarrow> string \<Rightarrow> string option" where
  "list_line U ret val = do {
     require (length ret + length val + 1 \<le> U (length ret + length val + 1));
     Some (ret @ val @ [newline]) }"

fun list_lines :: "allocator \<Rightarrow> string list \<Rightarrow> string \<Rightarrow> string option" where
  "list_lines U [] ret = Some ret"
| "list_lines U (val # vals) ret = do {
     ret \<leftarrow> list_line U ret val;
     list_lines U vals ret }"

definition cmd_list :: "app_env \<Rightarrow> bitu_app \<Rightarrow> string list \<Rightarrow> int \<Rightarrow> (bitu_app \<times> string option) option" where
  "cmd_list E app params n = checked (validate_num_params ''list'' 1 n) app (do {
     action \<leftarrow> nth_opt params 0;
     if action = ''plugins'' then do {
       plugins \<leftarrow> bitu_plugin_ctx_get_list (ae_list E) (ap_plugin_ctx app);
       ret \<leftarrow> list_lines (ae_alloc E) plugins [];
       Some (app, if plugins = [] then None else Some (butlast ret)) }
     else if action = ''commands'' then do {
       iter \<leftarrow> hashtable_iter (ap_commands app);
       case iter of None \<Rightarrow> Some (app, None)
       | Some p \<Rightarrow> do {
           r \<leftarrow> hashtable_walk (ap_commands app)
                 (\<lambda>ret k v. do { ret \<leftarrow> list_line (ae_alloc E) ret k; Some (Inl ret :: string + unit) }) p [];
           case r of Inl ret \<Rightarrow> Some (app, Some (butlast ret)) | Inr _ \<Rightarrow> None } }
     else Some (app, Some (''Possible values are `commands'' @ [apostrophe] @ '' or `plugins'' @ [apostrophe])) })"

definition cmd_help :: "app_env \<Rightarrow> bitu_app \<Rightarrow> (bitu_app \<times> string option) option" where
  "cmd_help E app = (
     let buf = ae_buf E [] (''Hi, I'm a bitU bot, the first of my kin'' @ [newline, newline]);
         buf = ae_buf E buf (''There are two main ways to interact with me:'' @ [newline]);
         buf = ae_buf E buf ('' 1) type 'list commands' and access all the commands available'' @ [newline]);
         buf = ae_buf E buf ('' 2) type 'list plugins' and see all currently loaded plugins'' @ [newline, newline]);
         buf = ae_buf E buf ''For more information, you can go to my home: '';
         buf = ae_buf E buf ''http://github.com/clarete/bitu'' in
     Some (app, Some buf))"

section \<open>Logging\<close>

text \<open>
  The error text shows \<open>app->logfile\<close>, the file in use before; a null pointer is not an
  argument for \<open>%s\<close>. It is then handed to the log as a format.
\<close>

text \<open>
  \<open>_log_handler\<close>, which the logger calls with each message once a log file is set. \<open>files\<close> is what is in
  the file of each descriptor; without a descriptor \<open>write\<close> fails, which is ignored.
\<close>

definition log_handler :: "bitu_app \<Rightarrow> (int \<Rightarrow> string) \<Rightarrow> string \<Rightarrow> int \<Rightarrow> string" where
  "log_handler app files data =
     (let fd = ap_logfd app in
      if fd < 0 then files
      else let files = files(fd := files fd @ data) in files(fd := files fd @ [newline]))"

definition cmd_set_log_file :: "app_env \<Rightarrow> bitu_app \<Rightarrow> string list \<Rightarrow> int \<Rightarrow> (bitu_app \<times> string option) option" where
  "cmd_set_log_file E app params n = checked (validate_num_params ''set-log-file'' 1 n) app (do {
     logfile \<leftarrow> nth_opt params 0;
     let logfd = ae_open E logfile;
     if logfd = -1 then do {
       old \<leftarrow> ap_logfile app;
       let error = snprintf 128 (''Unable to open file log file `'' @ old @ [apostrophe] @ '': '' @ ae_strerror E);
       require (plain_format error);
       Some (app, Some error) }
     else Some (app\<lparr>ap_logfile := Some logfile, ap_logfd := logfd\<rparr>, None) })"

text \<open>The loop over the loggers of all transports.\<close>

fun touch_loggers :: "conn_manager \<Rightarrow> string list \<Rightarrow> unit option" where
  "touch_loggers m [] = Some ()"
| "touch_loggers m (uri # rest) = do {
     found \<leftarrow> bitu_conn_manager_get_transport m uri;
     case found of None \<Rightarrow> Some ()
     | Some a \<Rightarrow> do {
         t \<leftarrow> cm_heap m a;
         tr_log t;
         touch_loggers m rest } }"

definition log_level_of :: "string \<Rightarrow> log_level option" where
  "log_level_of word =
     (if word = ''DEBUG'' then Some LOG_DEBUG else if word = ''INFO'' then Some LOG_INFO
      else if word = ''WARN'' then Some LOG_WARN else if word = ''ERROR'' then Some LOG_ERROR
      else if word = ''CRITICAL'' then Some LOG_CRITICAL else None)"

text \<open>For an unknown level the variable \<open>level\<close> is used without a value.\<close>

definition cmd_set_log_level :: "app_env \<Rightarrow> bitu_app \<Rightarrow> string list \<Rightarrow> int \<Rightarrow> (bitu_app \<times> string option) option" where
  "cmd_set_log_level E app params n = checked (validate_min_num_params ''set-log-level'' 1 n) app (do {
     word \<leftarrow> nth_opt params 0;
     level \<leftarrow> log_level_of word;
     uris \<leftarrow> bitu_conn_manager_get_transports (ae_list E) (ap_connections app);
     touch_loggers (ap_connections app) uris;
     Some (app\<lparr>ap_level := Some level\<rparr>, None) })"

definition cmd_set_log_use_colors ::
    "app_env \<Rightarrow> bitu_app \<Rightarrow> string list \<Rightarrow> int \<Rightarrow> (bitu_app \<times> string option) option" where
  "cmd_set_log_use_colors E app params n = checked (validate_num_params ''set-log-use-colors'' 1 n) app (do {
     p0 \<leftarrow> nth_opt params 0;
     uris \<leftarrow> bitu_conn_manager_get_transports (ae_list E) (ap_connections app);
     touch_loggers (ap_connections app) uris;
     Some (app\<lparr>ap_colors := Some (p0 = ''true'')\<rparr>, None) })"

section \<open>Executing commands\<close>

definition run_builtin ::
    "app_env \<Rightarrow> builtin \<Rightarrow> bitu_app \<Rightarrow> string list \<Rightarrow> int \<Rightarrow> (bitu_app \<times> string option) option" where
  "run_builtin E f app params n = (case f of
       Cmd_help \<Rightarrow> cmd_help E app
     | Cmd_set \<Rightarrow> cmd_set app params n
     | Cmd_get \<Rightarrow> cmd_get app params n
     | Cmd_unset \<Rightarrow> cmd_unset app params n
     | Cmd_env \<Rightarrow> cmd_env (ae_alloc E) app n
     | Cmd_transport \<Rightarrow> cmd_transport E app params n
     | Cmd_load \<Rightarrow> cmd_load E app params n
     | Cmd_unload \<Rightarrow> cmd_unload app params n
     | Cmd_send \<Rightarrow> cmd_send app
     | Cmd_list \<Rightarrow> cmd_list E app params n
     | Cmd_set_log_file \<Rightarrow> cmd_set_log_file E app params n
     | Cmd_set_log_level \<Rightarrow> cmd_set_log_level E app params n
     | Cmd_set_log_use_colors \<Rightarrow> cmd_set_log_use_colors E app params n)"

text \<open>A command without a name makes \<open>hash_string\<close> read through a null pointer.\<close>

definition bitu_app_exec_command ::
    "app_env \<Rightarrow> bitu_app \<Rightarrow> bitu_command \<Rightarrow> (bitu_app \<times> string option \<times> ta_status) option" where
  "bitu_app_exec_command E app command = do {
     let cmd = bitu_command_get_cmd command;
     name \<leftarrow> bitu_command_get_name command;
     func \<leftarrow> hashtable_get (ap_commands app) name;
     case func of
       Some f \<Rightarrow> do {
         (app, output) \<leftarrow> run_builtin E f app (bitu_command_get_params command) (bitu_command_get_nparams command);
         Some (app, output, TA_OK) }
     | None \<Rightarrow> do {
         plugin \<leftarrow> bitu_plugin_ctx_find_for_cmdline (ae_alloc E) (ap_plugin_ctx app) cmd;
         case plugin of
           Some p \<Rightarrow> do {
             output \<leftarrow> bitu_plugin_execute p command;
             Some (app, output, TA_OK) }
         | None \<Rightarrow> do {
             let answer = snprintf 128 (''No handler for the following command: `'' @ cmd @ [apostrophe]);
             require (plain_format answer);
             Some (app, Some answer, TA_ERROR) } } }"

text \<open>
  \<open>_exec_command\<close>, the callback of the queue: what is sent back to the client besides the
  status; \<open>None\<close> when the command has no transport.
\<close>

definition exec_command ::
    "app_env \<Rightarrow> bitu_app \<Rightarrow> bitu_command \<Rightarrow> (bitu_app \<times> string option \<times> ta_status) option" where
  "exec_command E app command = do {
     (app, output, status) \<leftarrow> bitu_app_exec_command E app command;
     case bitu_command_get_transport command of
       None \<Rightarrow> Some (app, None, status)
     | Some a \<Rightarrow> do {
         t \<leftarrow> cm_heap (ap_connections app) a;
         from \<leftarrow> bitu_command_get_from command;
         (wire, _) \<leftarrow> bitu_transport_send (ae_backend E) t output from;
         Some (app, Some wire, status) } }"

text \<open>
  The commands of a configuration file, each freed after it was executed; the code for a
  non-null answer reads the command once more.
\<close>

fun bitu_app_load_config :: "app_env \<Rightarrow> bitu_app \<Rightarrow> bitu_command list \<Rightarrow> bitu_app option" where
  "bitu_app_load_config E app [] = Some app"
| "bitu_app_load_config E app (command # commands) = do {
     (app, answer, _) \<leftarrow> bitu_app_exec_command E app command;
     require (answer = None);
     bitu_app_load_config E app commands }"

text \<open>The loop of \<open>bitu_app_run_transports\<close>, with the answers of the outside for each transport.\<close>

fun run_each :: "(string \<Rightarrow> backend_env) \<Rightarrow> conn_manager \<Rightarrow> string list \<Rightarrow> nat \<Rightarrow> (conn_manager \<times> nat) option" where
  "run_each envs m [] connected = Some (m, connected)"
| "run_each envs m (uri # rest) connected = do {
     (m, status) \<leftarrow> bitu_conn_manager_run (envs uri) m uri;
     run_each envs m rest (if status = STATUS_SPAWNED then Suc connected else connected) }"

definition bitu_app_run_transports ::
    "app_env \<Rightarrow> (string \<Rightarrow> backend_env) \<Rightarrow> bitu_app \<Rightarrow> (bitu_app \<times> ta_status) option" where
  "bitu_app_run_transports E envs app = do {
     uris \<leftarrow> bitu_conn_manager_get_transports (ae_list E) (ap_connections app);
     (m, connected) \<leftarrow> run_each envs (ap_connections app) uris 0;
     if 0 < connected then do {
       m \<leftarrow> bitu_conn_manager_consume (be_thread (ae_backend E)) m;
       Some (app\<lparr>ap_connections := m\<rparr>, TA_OK) }
     else Some (app\<lparr>ap_connections := m\<rparr>, TA_ERROR) }"

end
