(* ===== verification/Server_Correct.thy ===== *)
theory Server_Correct
  imports Server Util_Correct
begin

text \<open>
  The properties of the local server: how messages are put together, when a session ends, that
  a client is registered exactly while it is served, and what reaches a client's socket.
\<close>

section \<open>Collecting a message\<close>

definition piece :: "string \<Rightarrow> select_result" where
  "piece d = Select_ready [Recv_data d]"

lemma server_recv_piece [simp]: "bitu_server_recv (piece d) = Some (int (length d), d)"
  by (simp add: bitu_server_recv_def piece_def)

text \<open>Room for the copied bytes and for a terminating zero on blocks of the allocator.\<close>

locale roomy_alloc =
  fixes U :: allocator
  assumes room: "128 dvd n \<Longrightarrow> n < U n"
begin

lemma recv_message_run:
  assumes "\<forall>d \<in> set ds. d \<noteq> [] \<and> length d < 128" "128 dvd alloc" "length s \<le> alloc"
  shows "recv_message (\<lambda>_. True) U (map piece ds @ [Select_none]) (Some s) alloc round = Some (Some (s @ concat ds))"
  using assms
proof (induction ds arbitrary: s alloc round)
  case Nil
  then show ?case
    using room [of alloc] by (simp add: bitu_server_recv_def)
next
  case (Cons d ds)
  define a where "a = (if alloc < length s + length d then grow alloc (length s + length d) else alloc)"
  have a: "128 dvd a" "length s + length d \<le> a"
    using Cons.prems(2) grow_dvd grow_ge(1) by (simp_all add: a_def)
  have "length s + length d \<le> U a"
    using room [OF a(1)] a(2) by simp
  then have "recv_message (\<lambda>_. True) U (map piece (d # ds) @ [Select_none]) (Some s) alloc round =
      recv_message (\<lambda>_. True) U (map piece ds @ [Select_none]) (Some (s @ d)) a
        (Suc round)"
    using Cons.prems(1) by (auto simp: a_def)
  then show ?case
    using Cons.IH [OF _ a(1), of "s @ d" "Suc round"] Cons.prems(1) a(2) by simp
qed

lemma recv_message_pieces:
  assumes "\<forall>d \<in> set ds. d \<noteq> [] \<and> length d < 128" "ds \<noteq> []"
  shows "recv_message (\<lambda>_. True) U (map piece ds @ [Select_none]) None 0 0 = Some (Some (concat ds))"
proof -
  obtain d ds' where ds: "ds = d # ds'"
    using assms(2) by (cases ds) auto
  define a where "a = grow 0 (length d)"
  have a: "128 dvd a" "length d \<le> a"
    using grow_dvd [of 0] grow_ge(1) [of "length d" 0] by (simp_all add: a_def)
  have d: "d \<noteq> []" "length d < 128"
    using assms(1) ds by auto
  have "length d \<le> U a"
    using room [OF a(1)] a(2) by simp
  then have "recv_message (\<lambda>_. True) U (map piece ds @ [Select_none]) None 0 0 =
      recv_message (\<lambda>_. True) U (map piece ds' @ [Select_none]) (Some d) a 1"
    using d by (simp add: ds a_def)
  then show ?thesis
    using recv_message_run [of ds' a d 1] a assms(1) ds by simp
qed

end

interpretation glibc: roomy_alloc glibc_alloc
  by unfold_locales (rule Suc_lessD [OF glibc_alloc_dvd])

section \<open>A session\<close>

text \<open>
  A message of a session: its events and the string they make up. \<open>goodbye events\<close>: they end
  the session.
\<close>

definition message_of :: "allocator \<Rightarrow> select_result list \<Rightarrow> string \<Rightarrow> bool" where
  "message_of U events s \<longleftrightarrow>
     recv_message (\<lambda>_. True) U events None 0 0 = Some (Some s) \<and> \<not> says_goodbye (Some s)"

definition goodbye :: "allocator \<Rightarrow> select_result list \<Rightarrow> bool" where
  "goodbye U events \<longleftrightarrow> (\<exists>str. recv_message (\<lambda>_. True) U events None 0 0 = Some str \<and> says_goodbye str)"

fun fold_opt :: "('s \<Rightarrow> 'x \<Rightarrow> 's option) \<Rightarrow> 's \<Rightarrow> 'x list \<Rightarrow> 's option" where
  "fold_opt g st [] = Some st"
| "fold_opt g st (x # xs) = do { st \<leftarrow> g st x; fold_opt g st xs }"

text \<open>
  What a session relies on: as long as the client is registered, the callback does \<open>g\<close> with the
  message.
\<close>

locale message_handler =
  fixes cb :: "'s \<Rightarrow> bitu_server \<Rightarrow> string \<Rightarrow> string \<Rightarrow> 's option"
    and g :: "'s \<Rightarrow> string \<Rightarrow> 's option"
    and server :: bitu_server
    and cid :: string
  assumes handles: "cb st server cid s = g st s"
begin

lemma session_run:
  assumes "ht_wf (sv_clients server)" "ht_map (sv_clients server) cid \<noteq> None" "sv_callback server"
    and "list_all2 (message_of U) events msgs" "goodbye U last_events"
  shows "\<exists>clients. session_loop U cb server cid (events @ [last_events] @ rest) st =
      do { st \<leftarrow> fold_opt g st (map c_string msgs); Some (server\<lparr>sv_clients := clients\<rparr>, st) } \<and>
    ht_wf clients \<and> ht_map clients = (ht_map (sv_clients server))(cid := None)"
proof -
  obtain str where str: "recv_message (\<lambda>_. True) U last_events None 0 0 = Some str" "says_goodbye str"
    using assms(5) by (auto simp: goodbye_def)
  obtain clients where c: "hashtable_del (sv_clients server) cid = Some (clients, 0)" "ht_wf clients"
    "ht_map clients = (ht_map (sv_clients server))(cid := None)"
    using ht.del_law [OF assms(1), of cid] assms(2) by auto
  have "session_loop U cb server cid (events @ [last_events] @ rest) st =
      do { st \<leftarrow> fold_opt g st (map c_string msgs); Some (server\<lparr>sv_clients := clients\<rparr>, st) }"
    using assms(4)
  proof (induction events msgs arbitrary: st rule: list_all2_induct)
    case Nil
    show ?case
      by (simp add: str c)
  next
    case (Cons ev events m msgs)
    have m: "recv_message (\<lambda>_. True) U ev None 0 0 = Some (Some m)" "\<not> says_goodbye (Some m)"
      using Cons.hyps by (simp_all add: message_of_def)
    have "session_loop U cb server cid ((ev # events) @ [last_events] @ rest) st =
        do { st \<leftarrow> g st (c_string m); session_loop U cb server cid (events @ [last_events] @ rest) st }"
      using m assms(3) by (simp add: handles)
    then show ?case
      using Cons.IH by (simp add: Option.bind_assoc)
  qed
  then show ?thesis
    using c by blast
qed

end

section \<open>Sending\<close>

lemma send_loop_again:
  "sent < bufsize \<Longrightarrow> send_loop message bufsize (replicate k Send_again @ rs) sent wire =
     send_loop message bufsize rs sent wire"
  by (induction k) simp_all

lemma server_send_eq:
  assumes "ht_wf (sv_clients server)"
  shows "bitu_server_send server rs msg to =
    (case ht_map (sv_clients server) to of None \<Rightarrow> Some ([], TA_ERROR)
     | Some _ \<Rightarrow> (let m = (case msg of None \<Rightarrow> [NUL] | Some m \<Rightarrow> m) in send_loop m (length m) rs 0 []))"
  by (simp add: bitu_server_send_def ht.get_law [OF assms] split: option.splits)

lemma send_whole:
  "m \<noteq> [] \<Longrightarrow> send_loop m (length m) (replicate k Send_again @ Sent (length m) # rs) 0 [] = Some (m, TA_OK)"
  by (cases rs) (simp_all add: send_loop_again)

text \<open>A server with one client, for the examples.\<close>

definition one_client_table :: "(string, bitu_client) hashtable option" where
  "one_client_table = map_option fst (hashtable_set True True (fresh_table hash_string False True) ''id'' \<lparr>client_id = ''id'', client_socket = 5\<rparr>)"

lemma one_client:
  obtains t where "one_client_table = Some t" "ht_wf t" "ht_map t = [''id'' \<mapsto> \<lparr>client_id = ''id'', client_socket = 5\<rparr>]"
proof -
  have "card (dom (ht_map (fresh_table hash_string False True :: (string, bitu_client) hashtable))) < ht_capacity"
    by (simp add: fresh_map ht_capacity_def)
  from ht.set_law [OF fresh_wf this, of "''id''" "\<lparr>client_id = ''id'', client_socket = 5\<rparr>"] show ?thesis
    using that by (auto simp: one_client_table_def fresh_map)
qed

definition example_server :: "(string, bitu_client) hashtable \<Rightarrow> bitu_server" where
  "example_server t = \<lparr>sv_sock_path = ''/tmp/bitu.sock'', sv_sock = Some 3, sv_clients = t,
     sv_callback = True, sv_data = Some 0, sv_can_run = True\<rparr>"

section \<open>Properties\<close>

text \<open>
  C35. A message that arrives in any number of pieces of 1 to 127 bytes is put together
  completely and in order, on blocks of the GNU C library.
\<close>
theorem server_reassembles_message:
  assumes "\<forall>d \<in> set ds. d \<noteq> [] \<and> length d < 128" "ds \<noteq> []"
  shows "recv_message (\<lambda>_. True) glibc_alloc (map piece ds @ [Select_none]) None 0 0 = Some (Some (concat ds))"
  by (rule glibc.recv_message_pieces [OF assms])

theorem server_reassembles_message_witness:
  "recv_message (\<lambda>_. True) glibc_alloc (map piece [''list p'', ''lugins''] @ [Select_none]) None 0 0 =
     Some (Some ''list plugins'')"
  using server_reassembles_message [of "[''list p'', ''lugins'']"] by simp

text \<open>
  Two overruns of the receiving loop: a piece of 128 bytes, as many as \<open>recv\<close> is asked for,
  makes it store the terminating zero behind the buffer on the stack; and by the C standard
  alone a message whose length is a multiple of 128 makes it store one behind its block.
\<close>
theorem server_recv_overruns:
  assumes "length d = 128" "length d1 = 64" "length d2 = 64"
  shows "recv_message mem U (piece d # rs) str alloc round = None \<and>
    recv_message (\<lambda>_. True) strict_alloc [piece d1, piece d2, Select_none] None 0 0 = None"
proof -
  have g: "grow 0 64 = 128"
    by (simp add: grow.simps)
  have "recv_message (\<lambda>_. True) strict_alloc [piece d1, piece d2, Select_none] None 0 0 = None"
  proof -
    have "d1 \<noteq> []" "d2 \<noteq> []"
      using assms(2,3) by auto
    moreover have "bitu_server_recv Select_none = Some (0, [])"
      by (simp add: bitu_server_recv_def)
    ultimately show ?thesis
      using assms(2,3) by (simp add: g strict_alloc_def)
  qed
  then show ?thesis
    using assms(1) by simp
qed

theorem server_recv_overruns_witness:
  "recv_message (\<lambda>_. True) glibc_alloc [piece (replicate 128 blank), Select_none] None 0 0 = None"
  using server_recv_overruns [of "replicate 128 blank" "replicate 64 blank" "replicate 64 blank"] by simp

lemma serve_client:
  assumes "ht_wf (sv_clients server)" "length (ht_entries (sv_clients server)) < 1610612741"
    and "sv_can_run server" "sv_callback server" "length uuid = 36"
    and "list_all2 (message_of glibc_alloc) events msgs" "goodbye glibc_alloc last_events"
    and "\<And>clients st s. ht_wf clients \<Longrightarrow>
      ht_map clients = (ht_map (sv_clients server))(uuid \<mapsto> \<lparr>client_id = uuid, client_socket = sock\<rparr>) \<Longrightarrow>
      cb st (server\<lparr>sv_clients := clients\<rparr>) uuid s = g st s"
  shows "\<exists>clients. ht_wf clients \<and> ht_map clients = (ht_map (sv_clients server))(uuid := None) \<and>
    bitu_server_run glibc_alloc cb server (Accepted sock uuid (events @ [last_events]) # rs) st =
    do { st \<leftarrow> fold_opt g st (map c_string msgs);
         bitu_server_run glibc_alloc cb (server\<lparr>sv_clients := clients\<rparr>) rs st }"
proof -
  let ?client = "\<lparr>client_id = uuid, client_socket = sock\<rparr>"
  have new: "bitu_client_new glibc_alloc uuid sock = Some ?client"
    using assms(5) by (simp add: bitu_client_new_def bitu_util_uuid4_def glibc_alloc_def)
  have "card (dom (ht_map (sv_clients server))) < ht_capacity"
    using assms(2) ht_length_card [OF assms(1)] by (simp add: ht_capacity_def)
  then obtain t where t: "hashtable_set True True (sv_clients server) uuid ?client = Some (t, 0)" "ht_wf t"
    "ht_map t = (ht_map (sv_clients server))(uuid \<mapsto> ?client)"
    using ht.set_law [OF assms(1)] by blast
  have handler: "message_handler cb g (server\<lparr>sv_clients := t\<rparr>) uuid"
    by unfold_locales (rule assms(8) [OF t(2,3)])
  obtain clients where c: "session_loop glibc_alloc cb (server\<lparr>sv_clients := t\<rparr>) uuid (events @ [last_events] @ []) st =
      do { st \<leftarrow> fold_opt g st (map c_string msgs); Some (server\<lparr>sv_clients := clients\<rparr>, st) }"
    "ht_wf clients" "ht_map clients = (ht_map t)(uuid := None)"
    using message_handler.session_run [OF handler, of glibc_alloc events msgs last_events "[]" st] assms(4,6,7) t(2,3)
    by auto
  have "bitu_server_run glibc_alloc cb server (Accepted sock uuid (events @ [last_events]) # rs) st =
    do { st \<leftarrow> fold_opt g st (map c_string msgs);
         bitu_server_run glibc_alloc cb (server\<lparr>sv_clients := clients\<rparr>) rs st }"
    using c(1) t(1) assms(3) by (simp add: new bitu_client_get_id_def Option.bind_assoc)
  then show ?thesis
    using c(2,3) t(3) by (intro exI [of _ clients]) simp
qed

text \<open>
  C24. The life of a connection: the server registers the client under the identifier it made
  for it, hands every message to the callback, in order and while the client is registered
  with its socket, ends the session with the first message that says good bye, removes the
  client, and goes on accepting.
\<close>
theorem server_serves_client:
  assumes "ht_wf (sv_clients server)" "length (ht_entries (sv_clients server)) < 1610612741"
    and "sv_can_run server" "sv_callback server" "length uuid = 36"
    and "list_all2 (message_of glibc_alloc) events msgs" "goodbye glibc_alloc last_events"
    and "\<And>clients st s. ht_wf clients \<Longrightarrow>
      ht_map clients = (ht_map (sv_clients server))(uuid \<mapsto> \<lparr>client_id = uuid, client_socket = sock\<rparr>) \<Longrightarrow>
      cb st (server\<lparr>sv_clients := clients\<rparr>) uuid s = g st s"
  shows "\<exists>clients. ht_wf clients \<and> ht_map clients = (ht_map (sv_clients server))(uuid := None) \<and>
    bitu_server_run glibc_alloc cb server (Accepted sock uuid (events @ [last_events]) # rs) st =
    do { st \<leftarrow> fold_opt g st (map c_string msgs);
         bitu_server_run glibc_alloc cb (server\<lparr>sv_clients := clients\<rparr>) rs st }"
  using assms by (rule serve_client)

theorem server_serves_client_witness:
  "\<exists>clients. ht_map clients = Map.empty \<and>
    bitu_server_run glibc_alloc (\<lambda>st sv cid s. Some (st @ [s])) (example_server (fresh_table hash_string False True))
      [Accepted 5 (replicate 36 (CHR 0x61)) [[piece ''help'', Select_none], [piece ''exit'', Select_none]], Accept_error True] [] =
    Some (example_server clients\<lparr>sv_can_run := False\<rparr>, [''help''])"
proof -
  have m: "list_all2 (message_of glibc_alloc) [[piece ''help'', Select_none]] [''help'']"
    using glibc.recv_message_pieces [of "[''help'']"]
    by (simp add: message_of_def says_goodbye_def c_string_def NUL_def)
  have g: "goodbye glibc_alloc [piece ''exit'', Select_none]"
    using glibc.recv_message_pieces [of "[''exit'']"]
    by (simp add: goodbye_def says_goodbye_def c_string_def NUL_def)
  have "length (ht_entries (sv_clients (example_server (fresh_table hash_string False True)))) < 1610612741"
    by (simp add: example_server_def fresh_entries)
  then obtain clients where "ht_map clients = (ht_map (fresh_table hash_string False True))(replicate 36 (CHR 0x61) := None)"
    "bitu_server_run glibc_alloc (\<lambda>st sv cid s. Some (st @ [s])) (example_server (fresh_table hash_string False True))
      [Accepted 5 (replicate 36 (CHR 0x61)) ([[piece ''help'', Select_none]] @ [[piece ''exit'', Select_none]]), Accept_error True] [] =
     bitu_server_run glibc_alloc (\<lambda>st sv cid s. Some (st @ [s])) (example_server clients)
      [Accept_error True] [c_string ''help'']"
    using server_serves_client [where server = "example_server (fresh_table hash_string False True)"
        and cb = "\<lambda>st sv cid s. Some (st @ [s])" and g = "\<lambda>st s. Some (st @ [s])" and uuid = "replicate 36 (CHR 0x61)"
        and st = "[]" and sock = 5 and rs = "[Accept_error True]", OF _ _ _ _ _ m g]
    by (auto simp: example_server_def fresh_wf)
  then show ?thesis
    by (intro exI [of _ clients]) (simp add: fresh_map example_server_def c_string_def NUL_def)
qed

text \<open>
  An answer to a registered client whose first successful \<open>send\<close> takes the whole message
  arrives as it is, however often the socket was not ready before; for a null answer the
  client receives one zero byte; nothing is sent to an unknown client, and the error is
  reported.
\<close>
theorem server_send_delivers:
  assumes "ht_wf (sv_clients server)" "ht_map (sv_clients server) to = Some client"
    and "ht_map (sv_clients server) other = None" "m \<noteq> []"
  shows "bitu_server_send server (replicate k Send_again @ Sent (length m) # rs) (Some m) to = Some (m, TA_OK) \<and>
    bitu_server_send server (replicate k Send_again @ Sent 1 # rs) None to = Some ([NUL], TA_OK) \<and>
    bitu_server_send server rs (Some m) other = Some ([], TA_ERROR)"
  using send_whole [OF assms(4), of k rs] send_whole [of "[NUL]" k rs] assms
  by (simp add: server_send_eq)

theorem server_send_delivers_witness:
  "\<exists>server. bitu_server_send server [Send_again, Sent 2] (Some ''ok'') ''id'' = Some (''ok'', TA_OK) \<and>
    bitu_server_send server [Sent 2] (Some ''ok'') ''no'' = Some ([], TA_ERROR)"
proof -
  obtain t where t: "ht_wf t" "ht_map t = [''id'' \<mapsto> \<lparr>client_id = ''id'', client_socket = 5\<rparr>]"
    using one_client by metis
  have "bitu_server_send (example_server t) [Send_again, Sent 2] (Some ''ok'') ''id'' = Some (''ok'', TA_OK)"
    using server_send_delivers [of "example_server t" "''id''" _ "''no''" "''ok''" 1 "[]"] t
    by (simp add: example_server_def numeral_eq_Suc)
  moreover have "bitu_server_send (example_server t) [Sent 2] (Some ''ok'') ''no'' = Some ([], TA_ERROR)"
    using server_send_delivers [of "example_server t" "''id''" _ "''no''" "''ok''" 1 "[Sent 2]"] t
    by (simp add: example_server_def)
  ultimately show ?thesis
    by blast
qed

text \<open>
  C36. When the kernel takes only a part of an answer, the server sends the answer again from
  its beginning: the client receives the first \<open>n\<close> bytes twice instead of the rest. An empty
  answer is not sent at all, although \<open>TA_OK\<close> is returned: the client goes on waiting.
\<close>
theorem server_send_partial:
  assumes "ht_wf (sv_clients server)" "ht_map (sv_clients server) to = Some client"
    and "n < length m" "length m \<le> n + n'"
  shows "bitu_server_send server [Sent n, Sent n'] (Some m) to = Some (take n m @ take n' m, TA_OK) \<and>
    bitu_server_send server rs (Some []) to = Some ([], TA_OK)"
  using assms by (cases rs) (simp_all add: server_send_eq)

theorem server_send_partial_witness:
  "\<exists>server. bitu_server_send server [Sent 3, Sent 5] (Some ''hello'') ''id'' = Some (''helhello'', TA_OK)"
proof -
  obtain t where t: "ht_wf t" "ht_map t = [''id'' \<mapsto> \<lparr>client_id = ''id'', client_socket = 5\<rparr>]"
    using one_client by metis
  then have "bitu_server_send (example_server t) [Sent 3, Sent 5] (Some ''hello'') ''id'' = Some (''helhello'', TA_OK)"
    using server_send_partial [of "example_server t" "''id''" _ 3 "''hello''" 5] by (simp add: example_server_def)
  then show ?thesis
    by blast
qed

end
