(* ===== verification/Transport_Correct.thy ===== *)
theory Transport_Correct
  imports Transport Server_Correct Queue_Correct Hashtable_Props
begin

text \<open>
  The invariant of the connection manager and the properties of transports: which statuses its
  operations return in which situation, what they do to the transports, and the life cycles
  on which the three backends break.
\<close>

section \<open>The invariant of the manager\<close>

text \<open>
  Every URI of the table leads to a live transport of its own that writes to the manager's
  queue, and no transport is live that is not in the table.
\<close>

definition cm_inv :: "conn_manager \<Rightarrow> bool" where
  "cm_inv m \<longleftrightarrow> ht_wf (cm_transports m) \<and> ht_free_value (cm_transports m) \<and>
     (\<forall>u a. ht_map (cm_transports m) u = Some a \<longrightarrow> a \<in> dom (cm_heap m)) \<and>
     (\<forall>a \<in> dom (cm_heap m). \<exists>u. ht_map (cm_transports m) u = Some a) \<and>
     (\<forall>u u' a. ht_map (cm_transports m) u = Some a \<and> ht_map (cm_transports m) u' = Some a \<longrightarrow> u = u') \<and>
     (\<forall>a t. cm_heap m a = Some t \<longrightarrow> a < cm_brk m \<and> tr_commands t = Manager_queue)"

lemma cm_invD:
  assumes "cm_inv m"
  shows "ht_wf (cm_transports m)" "ht_free_value (cm_transports m)"
    and "ht_map (cm_transports m) u = Some a \<Longrightarrow> a \<in> dom (cm_heap m)"
    and "a \<in> dom (cm_heap m) \<Longrightarrow> \<exists>u. ht_map (cm_transports m) u = Some a"
    and "ht_map (cm_transports m) u = Some a \<Longrightarrow> ht_map (cm_transports m) u' = Some a \<Longrightarrow> u = u'"
    and "cm_heap m a = Some t \<Longrightarrow> a < cm_brk m"
    and "cm_heap m a = Some t \<Longrightarrow> tr_commands t = Manager_queue"
  using assms unfolding cm_inv_def by blast+

lemma cm_invI:
  assumes "ht_wf (cm_transports m)" "ht_free_value (cm_transports m)"
    and "\<And>u a. ht_map (cm_transports m) u = Some a \<Longrightarrow> a \<in> dom (cm_heap m)"
    and "\<And>a. a \<in> dom (cm_heap m) \<Longrightarrow> \<exists>u. ht_map (cm_transports m) u = Some a"
    and "\<And>u a u'. ht_map (cm_transports m) u = Some a \<Longrightarrow> ht_map (cm_transports m) u' = Some a \<Longrightarrow> u = u'"
    and "\<And>a t. cm_heap m a = Some t \<Longrightarrow> a < cm_brk m \<and> tr_commands t = Manager_queue"
  shows "cm_inv m"
  using assms unfolding cm_inv_def by blast

definition cm_room :: "conn_manager \<Rightarrow> bool" where
  "cm_room m \<longleftrightarrow> card (dom (ht_map (cm_transports m))) < ht_capacity"

definition lookup :: "conn_manager \<Rightarrow> string \<Rightarrow> bitu_transport option" where
  "lookup m uri = (case ht_map (cm_transports m) uri of None \<Rightarrow> None | Some a \<Rightarrow> cm_heap m a)"

lemma cm_inv_wf: "cm_inv m \<Longrightarrow> ht_wf (cm_transports m)"
  by (simp add: cm_inv_def)

lemma cm_inv_found:
  assumes "cm_inv m" "ht_map (cm_transports m) uri = Some a"
  obtains t where "cm_heap m a = Some t" "tr_commands t = Manager_queue" "lookup m uri = Some t"
proof -
  obtain t where t: "cm_heap m a = Some t"
    using cm_invD(3) [OF assms] by auto
  then show ?thesis
    using that cm_invD(7) [OF assms(1) t] assms(2) by (simp add: lookup_def)
qed

lemma lookup_None: "cm_inv m \<Longrightarrow> lookup m uri = None \<longleftrightarrow> ht_map (cm_transports m) uri = None"
  by (cases "ht_map (cm_transports m) uri") (auto simp: lookup_def elim!: cm_inv_found)

lemma lookup_SomeE:
  assumes "cm_inv m" "lookup m uri = Some t"
  obtains a where "ht_map (cm_transports m) uri = Some a" "cm_heap m a = Some t" "tr_commands t = Manager_queue"
  using assms cm_invD(7) [OF assms(1)] by (auto simp: lookup_def split: option.splits)

lemma get_transport_eq: "cm_inv m \<Longrightarrow> bitu_conn_manager_get_transport m uri = Some (ht_map (cm_transports m) uri)"
  unfolding bitu_conn_manager_get_transport_def by (rule ht.get_law [OF cm_inv_wf])

lemma cm_inv_new:
  "\<exists>m. bitu_conn_manager_new = Some m \<and> cm_inv m \<and> (\<forall>uri. lookup m uri = None) \<and> cm_transports m = fresh_table hash_string True True"
proof -
  have "ht_free_value (fresh_table hash_string True True :: (string, nat) hashtable)"
    by (simp add: fresh_table_def)
  then show ?thesis
    by (simp add: bitu_conn_manager_new_def create_fresh string_equal_eq cm_inv_def lookup_def fresh_wf fresh_map)
qed

text \<open>Replacing a transport by another state of it.\<close>

lemma cm_inv_update:
  assumes "cm_inv m" "ht_map (cm_transports m) uri = Some a" "tr_commands t = Manager_queue"
  shows "cm_inv (m\<lparr>cm_heap := (cm_heap m)(a \<mapsto> t)\<rparr>)"
    and "lookup (m\<lparr>cm_heap := (cm_heap m)(a \<mapsto> t)\<rparr>) = (lookup m)(uri \<mapsto> t)"
proof -
  let ?m = "m\<lparr>cm_heap := (cm_heap m)(a \<mapsto> t)\<rparr>"
  obtain t0 where a: "cm_heap m a = Some t0"
    using assms(1,2) by (auto elim: cm_inv_found)
  have 1: "b \<in> dom (cm_heap ?m)" if "ht_map (cm_transports m) u = Some b" for u b
    using cm_invD(3) [OF assms(1) that] by auto
  have 2: "\<exists>u. ht_map (cm_transports m) u = Some b" if "b \<in> dom (cm_heap ?m)" for b
    using that a by (intro cm_invD(4) [OF assms(1)]) (auto split: if_splits)
  have 3: "b < cm_brk m \<and> tr_commands x = Manager_queue" if "cm_heap ?m b = Some x" for b x
    using that assms(3) a cm_invD(6,7) [OF assms(1)] by (auto split: if_splits)
  have 4: "u = u'" if "ht_map (cm_transports m) u = Some b" "ht_map (cm_transports m) u' = Some b" for u u' b
    by (rule cm_invD(5) [OF assms(1) that])
  show "cm_inv ?m"
  proof (rule cm_invI)
    show "ht_wf (cm_transports ?m)" "ht_free_value (cm_transports ?m)"
      using cm_invD(1,2) [OF assms(1)] by simp_all
    show "u = u'" if "ht_map (cm_transports ?m) u = Some b" "ht_map (cm_transports ?m) u' = Some b" for u b u'
      by (rule 4) (use that in simp_all)
    show "b < cm_brk ?m \<and> tr_commands x = Manager_queue" if "cm_heap ?m b = Some x" for b x
      using 3 [OF that] by simp
  qed (use 1 2 in simp_all)
  show "lookup ?m = (lookup m)(uri \<mapsto> t)"
  proof
    fix u
    show "lookup ?m u = ((lookup m)(uri \<mapsto> t)) u"
    proof (cases "u = uri")
      case False
      then have "ht_map (cm_transports m) u \<noteq> Some a"
        using cm_invD(5) [OF assms(1) _ assms(2)] by blast
      then show ?thesis
        using False by (auto simp: lookup_def split: option.splits)
    qed (simp add: lookup_def assms(2))
  qed
qed

lemma cm_inv_other [simp]:
  "cm_inv (m\<lparr>cm_threads := ts\<rparr>) = cm_inv m" "cm_inv (m\<lparr>cm_consumers := n\<rparr>) = cm_inv m"
  "cm_inv (m\<lparr>cm_commands := q\<rparr>) = cm_inv m"
  "lookup (m\<lparr>cm_threads := ts\<rparr>) = lookup m" "lookup (m\<lparr>cm_consumers := n\<rparr>) = lookup m"
  "lookup (m\<lparr>cm_commands := q\<rparr>) = lookup m"
  by (simp_all add: cm_inv_def lookup_def fun_eq_iff split: option.splits)

section \<open>Adding and removing\<close>

text \<open>A transport is put into the table under a new URI and at a new address.\<close>

lemma cm_inv_added:
  fixes m h uri t
  defines "m' \<equiv> m\<lparr>cm_heap := (cm_heap m)(cm_brk m \<mapsto> t), cm_brk := Suc (cm_brk m), cm_transports := h\<rparr>"
  assumes inv: "cm_inv m" and None: "ht_map (cm_transports m) uri = None" and t: "tr_commands t = Manager_queue"
    and h: "ht_wf h" "ht_map h = (ht_map (cm_transports m))(uri \<mapsto> cm_brk m)" "drops (cm_transports m) uri h"
  shows "cm_inv m'" "lookup m' = (lookup m)(uri \<mapsto> t)"
proof -
  have new: "a \<noteq> cm_brk m" if "ht_map (cm_transports m) u = Some a" for u a
    using cm_invD(3) [OF inv that] cm_invD(6) [OF inv] by auto
  have 1: "ht_free_value h"
    using h(3) cm_invD(2) [OF inv] by (simp add: drops_def same_config_def)
  have 2: "a \<in> dom (cm_heap m')" if "ht_map h u = Some a" for u a
    using that cm_invD(3) [OF inv] by (auto simp: m'_def h(2) split: if_splits)
  have 3: "\<exists>u. ht_map h u = Some a" if a: "a \<in> dom (cm_heap m')" for a
  proof (cases "a = cm_brk m")
    case False
    then obtain u where "ht_map (cm_transports m) u = Some a"
      using a cm_invD(4) [OF inv, of a] by (auto simp: m'_def)
    moreover from this have "u \<noteq> uri"
      using None by auto
    ultimately show ?thesis
      by (intro exI [of _ u]) (simp add: h(2))
  qed (auto simp: h(2))
  have 4: "u = u'" if "ht_map h u = Some a" "ht_map h u' = Some a" for u u' a
    using that new cm_invD(5) [OF inv, of u a u'] by (auto simp: h(2) split: if_splits)
  have 5: "b < cm_brk m' \<and> tr_commands x = Manager_queue" if "cm_heap m' b = Some x" for b x
    using that cm_invD(6,7) [OF inv] t by (auto simp: m'_def split: if_splits intro: less_SucI)
  show "cm_inv m'"
    by (rule cm_invI) (use h(1) 1 2 3 5 in \<open>simp_all add: m'_def\<close>, rule 4, simp_all)
  show "lookup m' = (lookup m)(uri \<mapsto> t)"
    using new by (auto simp: m'_def lookup_def fun_eq_iff h(2) split: option.splits)
qed

lemma add_run:
  assumes "cm_inv m" "cm_room m" "lookup m uri = None \<Longrightarrow> bitu_transport_new parse uri = Some new"
  shows "\<exists>m' p. bitu_conn_manager_add parse m uri = Some (m', p) \<and> cm_inv m' \<and>
    (case lookup m uri of
       Some t \<Rightarrow> m' = m \<and> p = ht_map (cm_transports m) uri
     | None \<Rightarrow> (case new of
         Inl e \<Rightarrow> m' = m \<and> p = None
       | Inr t \<Rightarrow> p = Some (cm_brk m) \<and> lookup m' = (lookup m)(uri \<mapsto> t\<lparr>tr_commands := Manager_queue\<rparr>)))"
proof (cases "ht_map (cm_transports m) uri")
  case (Some a)
  then obtain t where "lookup m uri = Some t"
    using cm_inv_found [OF assms(1)] by blast
  then show ?thesis
    using assms(1) Some by (simp add: bitu_conn_manager_add_def ht.get_law [OF cm_inv_wf])
next
  case None
  note get = ht.get_law [OF cm_inv_wf [OF assms(1)], of uri]
  have l: "lookup m uri = None"
    using None by (simp add: lookup_def)
  show ?thesis
  proof (cases new)
    case (Inl e)
    then show ?thesis
      using assms(1) None l assms(3) [OF l] by (simp add: bitu_conn_manager_add_def get)
  next
    case (Inr t)
    obtain h where h: "hashtable_set True True (cm_transports m) uri (cm_brk m) = Some (h, 0)" "ht_wf h"
      "ht_map h = (ht_map (cm_transports m))(uri \<mapsto> cm_brk m)" "drops (cm_transports m) uri h"
      using hashtable_set_map [OF cm_inv_wf [OF assms(1)], of uri "cm_brk m"] assms(2)
        ht_length_card [OF cm_inv_wf [OF assms(1)]]
      by (auto simp: cm_room_def ht_room_def ht_capacity_def)
    note added = cm_inv_added [OF assms(1) None _ h(2-4), of "t\<lparr>tr_commands := Manager_queue\<rparr>"]
    show ?thesis
      using added None Inr l h(1) assms(3) [OF l] by (simp add: bitu_conn_manager_add_def get Let_def)
  qed
qed

lemma add_undefined:
  assumes "cm_inv m" "lookup m uri = None" "bitu_transport_new parse uri = None"
  shows "bitu_conn_manager_add parse m uri = None"
  using assms lookup_None [OF assms(1)]
  by (simp add: bitu_conn_manager_add_def ht.get_law [OF cm_inv_wf [OF assms(1)]])

lemma cm_inv_add:
  assumes "cm_inv m" "cm_room m" "bitu_conn_manager_add parse m uri = Some (m', p)"
  shows "cm_inv m'"
proof (cases "lookup m uri = None \<longrightarrow> bitu_transport_new parse uri \<noteq> None")
  case True
  then have "lookup m uri = None \<Longrightarrow> bitu_transport_new parse uri = Some (the (bitu_transport_new parse uri))"
    by simp
  from add_run [OF assms(1,2) this] show ?thesis
    using assms(3) by auto
next
  case False
  then show ?thesis
    using add_undefined [OF assms(1)] assms(3) by auto
qed

lemma remove_run:
  assumes "cm_inv m" "lookup m uri = Some t" "bitu_transport_is_running env t = Some rc" "\<not> rc_ok rc"
  shows "\<exists>m'. bitu_conn_manager_remove env m uri = Some (m', STATUS_OK) \<and> cm_inv m' \<and>
    lookup m' = (lookup m)(uri := None)"
proof -
  obtain a where a: "ht_map (cm_transports m) uri = Some a" "cm_heap m a = Some t"
    using assms(1,2) by (rule lookup_SomeE)
  obtain h where h: "hashtable_del (cm_transports m) uri = Some (h, 0)" "ht_wf h"
    "ht_map h = (ht_map (cm_transports m))(uri := None)" "drops (cm_transports m) uri h"
    using hashtable_del_map [OF cm_inv_wf [OF assms(1)], of uri] a(1) by auto
  have fv: "ht_free_value (cm_transports m)"
    using assms(1) by (simp add: cm_inv_def)
  then have free: "free_released (cm_transports m) h (cm_heap m) = (cm_heap m)(a := None)"
    using h(4) a(1) by (auto simp: free_released_def drops_def released_def restrict_map_def)
  let ?m = "m\<lparr>cm_transports := h, cm_heap := (cm_heap m)(a := None)\<rparr>"
  have inj: "u = uri" if "ht_map (cm_transports m) u = Some a" for u
    by (rule cm_invD(5) [OF assms(1) that a(1)])
  have 1: "ht_free_value h"
    using h(4) fv by (simp add: drops_def same_config_def)
  have 2: "b \<in> dom (cm_heap ?m)" if "ht_map h u = Some b" for u b
    using that cm_invD(3) [OF assms(1), of u b] inj by (auto simp: h(3) split: if_splits)
  have 3: "\<exists>u. ht_map h u = Some b" if "b \<in> dom (cm_heap ?m)" for b
  proof -
    have b: "b \<in> dom (cm_heap m)" "b \<noteq> a"
      using that by (auto split: if_splits)
    then obtain u where "ht_map (cm_transports m) u = Some b"
      using cm_invD(4) [OF assms(1)] by blast
    moreover from this have "u \<noteq> uri"
      using a(1) b(2) by auto
    ultimately show ?thesis
      by (intro exI [of _ u]) (simp add: h(3))
  qed
  have 4: "u = u'" if "ht_map h u = Some b" "ht_map h u' = Some b" for u u' b
    using that cm_invD(5) [OF assms(1), of u b u'] by (auto simp: h(3) split: if_splits)
  have 5: "b < cm_brk ?m \<and> tr_commands x = Manager_queue" if "cm_heap ?m b = Some x" for b x
    using that cm_invD(6,7) [OF assms(1)] by (auto split: if_splits)
  have "cm_inv ?m"
    by (rule cm_invI) (use h(2) 1 2 3 5 in simp_all, rule 4, simp_all)
  moreover have "lookup ?m = (lookup m)(uri := None)"
    using inj by (auto simp: lookup_def fun_eq_iff h(3) split: option.splits)
  moreover have "bitu_conn_manager_remove env m uri = Some (?m, STATUS_OK)"
    using a assms(3,4) h(1) free
    by (simp add: bitu_conn_manager_remove_def ht.get_law [OF cm_inv_wf [OF assms(1)]])
  ultimately show ?thesis
    by blast
qed

section \<open>The backends\<close>

definition same_transport :: "bitu_transport \<Rightarrow> bitu_transport \<Rightarrow> bool" where
  "same_transport t t' \<longleftrightarrow> tr_uri t' = tr_uri t \<and> tr_callbacks t' = tr_callbacks t \<and> tr_commands t' = tr_commands t"

lemma connect_same:
  assumes "bitu_transport_connect env a t = Some (t', rc)"
  shows "same_transport t t'"
proof (cases "cb_connect (tr_callbacks t)")
  case None
  then show ?thesis
    using assms by (simp add: bitu_transport_connect_def split: bind_splits)
next
  case (Some b)
  then show ?thesis
  proof (cases b)
    case Local
    then show ?thesis
      using assms Some by (auto simp: bitu_transport_connect_def local_connect_def local_load_server_def same_transport_def
          Let_def split: bind_splits option.splits)
  next
    case Xmpp
    then show ?thesis
      using assms Some by (auto simp: bitu_transport_connect_def xmpp_connect_def same_transport_def Let_def
          split: bind_splits option.splits)
  next
    case Irc
    then show ?thesis
      using assms Some by (auto simp: bitu_transport_connect_def irc_connect_def same_transport_def Let_def
          split: bind_splits option.splits tr_data.splits if_splits)
  qed
qed

lemma disconnect_same: "bitu_transport_disconnect t = Some (t', rc) \<Longrightarrow> same_transport t t'"
  by (auto simp: bitu_transport_disconnect_def local_disconnect_def xmpp_disconnect_def irc_disconnect_def
      same_transport_def bitu_server_disconnect_def split: bind_splits option.splits tr_data.splits backend.splits)

lemma disconnect_rc: "bitu_transport_disconnect t = Some (t', rc) \<Longrightarrow> rc = Conn STATUS_OK \<or> rc = Conn STATUS_ALREADY_SHUTDOWN"
  by (auto simp: bitu_transport_disconnect_def local_disconnect_def xmpp_disconnect_def irc_disconnect_def
      bitu_server_disconnect_def split: bind_splits option.splits tr_data.splits backend.splits)

section \<open>Running and shutting down\<close>

lemma shutdown_run:
  assumes "cm_inv m" "lookup m uri = Some t" "tr_logger t = Logger" "bitu_transport_disconnect t = Some (t', rc)"
  shows "\<exists>m'. bitu_conn_manager_shutdown m uri = Some (m', if rc_ok rc then STATUS_OK else STATUS_ALREADY_SHUTDOWN) \<and>
    cm_inv m' \<and> lookup m' = (lookup m)(uri \<mapsto> t') \<and> cm_threads m' = cm_threads m"
proof -
  obtain a where a: "ht_map (cm_transports m) uri = Some a" "cm_heap m a = Some t" "tr_commands t = Manager_queue"
    using assms(1,2) by (rule lookup_SomeE)
  have "tr_commands t' = Manager_queue"
    using disconnect_same [OF assms(4)] a(3) by (simp add: same_transport_def)
  note upd = cm_inv_update [OF assms(1) a(1) this]
  show ?thesis
    using upd assms a
    by (intro exI [of _ "m\<lparr>cm_heap := (cm_heap m)(a \<mapsto> t')\<rparr>"])
       (simp add: bitu_conn_manager_shutdown_def get_transport_eq tr_log_def)
qed

lemma shutdown_undefined:
  assumes "cm_inv m" "lookup m uri = Some t" "tr_logger t = Logger_freed \<or> bitu_transport_disconnect t = None"
  shows "bitu_conn_manager_shutdown m uri = None"
proof -
  obtain a where a: "ht_map (cm_transports m) uri = Some a" "cm_heap m a = Some t"
    using assms(1,2) by (rule lookup_SomeE)
  then show ?thesis
    using assms by (auto simp: bitu_conn_manager_shutdown_def get_transport_eq tr_log_def require_def)
qed

lemma shutdown_not_found:
  "cm_inv m \<Longrightarrow> lookup m uri = None \<Longrightarrow> bitu_conn_manager_shutdown m uri = Some (m, STATUS_TRANSPORT_NOT_FOUND)"
  by (simp add: bitu_conn_manager_shutdown_def get_transport_eq lookup_None)

text \<open>A run that connects, one that does not, and one that cannot be disconnected either.\<close>

lemma run_spawned:
  assumes "cm_inv m" "lookup m uri = Some t" "\<And>a. bitu_transport_connect env a t = Some (t' a, rc)" "rc_ok rc"
    and "be_thread env"
  shows "\<exists>m' a. bitu_conn_manager_run env m uri = Some (m', STATUS_SPAWNED) \<and> cm_inv m' \<and>
    lookup m' = (lookup m)(uri \<mapsto> t' a) \<and> ht_map (cm_transports m) uri = Some a \<and> cm_threads m' = cm_threads m @ [a]"
proof -
  obtain a where a: "ht_map (cm_transports m) uri = Some a" "cm_heap m a = Some t" "tr_commands t = Manager_queue"
    using assms(1,2) by (rule lookup_SomeE)
  have "tr_commands (t' a) = Manager_queue"
    using connect_same [OF assms(3)] a(3) by (simp add: same_transport_def)
  note upd = cm_inv_update [OF assms(1) a(1) this]
  show ?thesis
    using upd assms a
    by (intro exI [of _ "m\<lparr>cm_heap := (cm_heap m)(a \<mapsto> t' a), cm_threads := cm_threads m @ [a]\<rparr>"] exI [of _ a])
       (simp add: bitu_conn_manager_run_def get_transport_eq)
qed

lemma run_no_thread:
  assumes "cm_inv m" "lookup m uri = Some t" "\<And>a. bitu_transport_connect env a t = Some (t' a, rc)" "rc_ok rc"
    and "\<not> be_thread env"
  shows "bitu_conn_manager_run env m uri = None"
proof -
  obtain a where a: "ht_map (cm_transports m) uri = Some a" "cm_heap m a = Some t"
    using assms(1,2) by (rule lookup_SomeE)
  then show ?thesis
    using assms by (simp add: bitu_conn_manager_run_def get_transport_eq)
qed

lemma run_failed:
  assumes "cm_inv m" "lookup m uri = Some t" "\<And>a. bitu_transport_connect env a t = Some (t' a, rc)" "\<not> rc_ok rc"
    and "\<And>a. tr_logger (t' a) = Logger" "\<And>a. bitu_transport_disconnect (t' a) = Some (t'' a, rc'')"
  shows "\<exists>m' a. bitu_conn_manager_run env m uri = Some (m', STATUS_CONNECTION_FAILED) \<and> cm_inv m' \<and>
    lookup m' = (lookup m)(uri \<mapsto> t'' a) \<and> cm_threads m' = cm_threads m"
proof -
  obtain a where a: "ht_map (cm_transports m) uri = Some a" "cm_heap m a = Some t" "tr_commands t = Manager_queue"
    using assms(1,2) by (rule lookup_SomeE)
  let ?m = "m\<lparr>cm_heap := (cm_heap m)(a \<mapsto> t' a)\<rparr>"
  have "tr_commands (t' a) = Manager_queue"
    using connect_same [OF assms(3)] a(3) by (simp add: same_transport_def)
  note upd = cm_inv_update [OF assms(1) a(1) this]
  have "lookup ?m uri = Some (t' a)"
    by (simp add: upd(2))
  then obtain m' st where m': "bitu_conn_manager_shutdown ?m uri = Some (m', st)" "cm_inv m'"
    "lookup m' = (lookup ?m)(uri \<mapsto> t'' a)" "cm_threads m' = cm_threads ?m"
    using shutdown_run [OF upd(1) _ assms(5,6)] by blast
  show ?thesis
    using m' upd assms(1,3,4,5) a
    by (intro exI [of _ m'] exI [of _ a]) (simp add: bitu_conn_manager_run_def get_transport_eq tr_log_def)
qed

lemma run_undefined:
  assumes "cm_inv m" "lookup m uri = Some t" "\<And>a. bitu_transport_connect env a t = None"
  shows "bitu_conn_manager_run env m uri = None"
proof -
  obtain a where a: "ht_map (cm_transports m) uri = Some a" "cm_heap m a = Some t"
    using assms(1,2) by (rule lookup_SomeE)
  then show ?thesis
    using assms by (simp add: bitu_conn_manager_run_def get_transport_eq)
qed

lemma remove_refuses:
  assumes "cm_inv m" "lookup m uri = Some t" "bitu_transport_is_running env t = Some rc" "rc_ok rc"
  shows "bitu_conn_manager_remove env m uri = Some (m, STATUS_STILL_RUNNING)"
proof -
  obtain a where a: "ht_map (cm_transports m) uri = Some a" "cm_heap m a = Some t"
    using assms(1,2) by (rule lookup_SomeE)
  then show ?thesis
    using assms by (simp add: bitu_conn_manager_remove_def ht.get_law [OF cm_inv_wf])
qed

section \<open>The local transport\<close>

definition socket_ok :: "backend_env \<Rightarrow> bool" where
  "socket_ok env \<longleftrightarrow> env_socket (be_sock env) \<noteq> -1 \<and> env_bind (be_sock env) \<and> env_listen (be_sock env)"

text \<open>A local transport that is not connected, with a path that fits into the socket's address.\<close>

definition local_stopped :: "bitu_transport \<Rightarrow> string \<Rightarrow> bool" where
  "local_stopped t path \<longleftrightarrow> tr_callbacks t = all_of Local \<and> tr_data t = None \<and> iri_path (tr_uri t) = Some path \<and>
     length path < 108"

definition fresh_server :: "nat \<Rightarrow> string \<Rightarrow> int \<Rightarrow> bitu_server" where
  "fresh_server a path sock = \<lparr>sv_sock_path = path, sv_sock = Some sock,
     sv_clients = fresh_table hash_string False True, sv_callback = True, sv_data = Some a, sv_can_run = True\<rparr>"

lemma fresh_server_simps [simp]:
  "sv_clients (fresh_server a path sock) = fresh_table hash_string False True"
  "sv_sock (fresh_server a path sock) = Some sock" "sv_callback (fresh_server a path sock)"
  "sv_data (fresh_server a path sock) = Some a" "sv_can_run (fresh_server a path sock)"
  "ht_wf (fresh_table hash_string False True :: (string, bitu_client) hashtable)"
  by (simp_all add: fresh_server_def fresh_wf)

lemma server_new_eq: "bitu_server_new path True = Some \<lparr>sv_sock_path = path, sv_sock = None,
    sv_clients = fresh_table hash_string False True, sv_callback = True, sv_data = None, sv_can_run = True\<rparr>"
  by (simp add: bitu_server_new_def create_fresh string_equal_eq)

lemma local_connect_ok:
  "socket_ok env \<Longrightarrow> local_stopped t path \<Longrightarrow> tr_logger t = Logger \<Longrightarrow> bitu_transport_connect env a t =
     Some (t\<lparr>tr_data := Some (Data_server (fresh_server a path (env_socket (be_sock env)))), tr_logger := Logger\<rparr>,
       Conn STATUS_OK)"
  by (simp add: bitu_transport_connect_def tr_log_def local_connect_def local_load_server_def server_new_eq
      local_stopped_def socket_ok_def bitu_server_connect_def bitu_server_set_data_def fresh_server_def Let_def)

lemma local_disconnect_ok:
  assumes "tr_callbacks t = all_of Local" "tr_data t = Some (Data_server server)" "tr_logger t = Logger"
    and "ht_wf (sv_clients server)" "sv_sock server \<noteq> None"
  shows "bitu_transport_disconnect t = Some (t\<lparr>tr_data := None, tr_logger := Logger_freed\<rparr>, Conn STATUS_OK)"
  using assms hashtable_destroy_run [OF assms(4)]
  by (simp add: bitu_transport_disconnect_def tr_log_def local_disconnect_def bitu_server_disconnect_def
      bitu_server_free_def)

text \<open>A transport with a server, and one whose server has been freed with its logger.\<close>

definition with_server :: "bitu_transport \<Rightarrow> bitu_server \<Rightarrow> bitu_transport" where
  "with_server t server = t\<lparr>tr_data := Some (Data_server server), tr_logger := Logger\<rparr>"

definition server_freed :: "bitu_transport \<Rightarrow> bitu_transport" where
  "server_freed t = t\<lparr>tr_data := None, tr_logger := Logger_freed\<rparr>"

lemma with_server_simps [simp]:
  "tr_data (with_server t server) = Some (Data_server server)" "tr_logger (with_server t server) = Logger"
  "tr_uri (with_server t server) = tr_uri t" "tr_callbacks (with_server t server) = tr_callbacks t"
  "tr_commands (with_server t server) = tr_commands t" "server_freed (with_server t server) = server_freed t"
  by (simp_all add: with_server_def server_freed_def)

lemma server_freed_simps [simp]:
  "tr_data (server_freed t) = None" "tr_logger (server_freed t) = Logger_freed"
  "tr_uri (server_freed t) = tr_uri t" "tr_callbacks (server_freed t) = tr_callbacks t"
  "tr_commands (server_freed t) = tr_commands t"
  by (simp_all add: server_freed_def)

lemma local_running:
  "tr_callbacks t = all_of Local \<Longrightarrow> tr_data t = Some (Data_server server) \<Longrightarrow>
     bitu_transport_is_running env t = Some (Ta (if sv_can_run server then TA_OK else TA_ERROR))"
  "tr_callbacks t = all_of Local \<Longrightarrow> tr_data t = None \<Longrightarrow> bitu_transport_is_running env t = Some (Ta TA_ERROR)"
  by (simp_all add: bitu_transport_is_running_def local_is_running_def bitu_server_is_running_def)

text \<open>A local transport whose socket cannot be had is stopped again.\<close>

lemma local_run_shape:
  assumes "cm_inv m" "lookup m uri = Some t" "local_stopped t path" "tr_logger t = Logger" "be_thread env"
  shows "\<exists>m' a. bitu_conn_manager_run env m uri =
      Some (m', if socket_ok env then STATUS_SPAWNED else STATUS_CONNECTION_FAILED) \<and> cm_inv m' \<and>
    lookup m' = (lookup m)(uri \<mapsto>
      if socket_ok env then with_server t (fresh_server a path (env_socket (be_sock env))) else server_freed t) \<and>
    cm_threads m' = cm_threads m @ (if socket_ok env then [a] else [])"
proof -
  have loc: "tr_callbacks t = all_of Local" "tr_data t = None" "iri_path (tr_uri t) = Some path" "length path < 108"
    using assms(3) by (simp_all add: local_stopped_def)
  let ?t1 = "\<lambda>a. with_server t (fresh_server a path (env_socket (be_sock env)))"
  show ?thesis
  proof (cases "socket_ok env")
    case True
    have "bitu_transport_connect env a t = Some (?t1 a, Conn STATUS_OK)" for a
      using local_connect_ok [OF True assms(3,4)] by (simp add: with_server_def)
    from run_spawned [OF assms(1,2) this _ assms(5)] show ?thesis
      using True by (auto simp: rc_ok_def)
  next
    case False
    have conn: "bitu_transport_connect env a t = Some (?t1 a, Conn STATUS_CONNECTION_FAILED)" for a
      using False loc assms(4)
      by (auto simp: bitu_transport_connect_def tr_log_def local_connect_def local_load_server_def server_new_eq
          socket_ok_def bitu_server_connect_def bitu_server_set_data_def fresh_server_def with_server_def Let_def)
    have disc: "bitu_transport_disconnect (?t1 a) = Some (server_freed t, Conn STATUS_OK)" for a
      using local_disconnect_ok [of "?t1 a" "fresh_server a path (env_socket (be_sock env))"] loc
      by (simp add: server_freed_def with_server_def)
    show ?thesis
      using run_failed [OF assms(1,2) conn _ _ disc] False by (auto simp: rc_ok_def)
  qed
qed

lemma local_run_either:
  assumes "cm_inv m" "lookup m uri = Some t" "local_stopped t path" "tr_logger t = Logger" "be_thread env"
  shows "\<exists>m' t'. bitu_conn_manager_run env m uri =
      Some (m', if socket_ok env then STATUS_SPAWNED else STATUS_CONNECTION_FAILED) \<and>
    cm_inv m' \<and> lookup m' = (lookup m)(uri \<mapsto> t') \<and>
    bitu_transport_is_running env' t' = Some (Ta (if socket_ok env then TA_OK else TA_ERROR)) \<and>
    length (cm_threads m') = length (cm_threads m) + (if socket_ok env then 1 else 0)"
proof -
  obtain m' a where m': "bitu_conn_manager_run env m uri =
      Some (m', if socket_ok env then STATUS_SPAWNED else STATUS_CONNECTION_FAILED)" "cm_inv m'"
    "lookup m' = (lookup m)(uri \<mapsto>
      if socket_ok env then with_server t (fresh_server a path (env_socket (be_sock env))) else server_freed t)"
    "cm_threads m' = cm_threads m @ (if socket_ok env then [a] else [])"
    using local_run_shape [OF assms] by blast
  then show ?thesis
    using assms(3) by (intro exI [of _ m'] exI [of _ "the (lookup m' uri)"]) (simp add: local_stopped_def local_running)
qed

text \<open>
  Connecting a local transport that has a server: the server is disconnected and freed, and from then
  on neither a connection nor a shutdown is possible, because both read the freed logger.
\<close>

lemma local_run_again:
  assumes "cm_inv m" "lookup m uri = Some t" "tr_callbacks t = all_of Local" "tr_logger t = Logger"
    and "tr_data t = Some (Data_server server)" "ht_wf (sv_clients server)" "sv_sock server \<noteq> None"
  shows "\<exists>m'. bitu_conn_manager_run env m uri = Some (m', STATUS_CONNECTION_FAILED) \<and> cm_inv m' \<and>
    lookup m' = (lookup m)(uri \<mapsto> server_freed t) \<and> cm_threads m' = cm_threads m"
proof -
  have c: "bitu_transport_connect env a t = Some (t, Conn STATUS_ALREADY_RUNNING)" for a
    using assms(3-5) by (simp add: bitu_transport_connect_def tr_log_def local_connect_def)
  have d: "bitu_transport_disconnect t = Some (server_freed t, Conn STATUS_OK)"
    unfolding server_freed_def by (rule local_disconnect_ok [OF assms(3,5,4,6,7)])
  show ?thesis
    using run_failed [OF assms(1,2) c _ assms(4) d] by (auto simp: rc_ok_def)
qed

lemma logger_gone:
  assumes "cm_inv m" "lookup m uri = Some t" "tr_logger t = Logger_freed"
  shows "bitu_conn_manager_run env m uri = None" "bitu_conn_manager_shutdown m uri = None"
  using run_undefined [OF assms(1,2)] shutdown_undefined [OF assms(1,2)] assms(3)
  by (simp_all add: bitu_transport_connect_def tr_log_def)

section \<open>The list of transports\<close>

lemma get_transports_run:
  assumes "ta_list_ok T" "cm_inv m"
  shows "bitu_conn_manager_get_transports T m = Some (map fst (ht_entries (cm_transports m)))"
proof -
  have T: "ta_append T xs x = xs @ [x]" for xs x
    using assms(1) by (simp add: ta_list_ok_def)
  show ?thesis
    by (rule walk_table [OF cm_inv_wf [OF assms(2)], where 'a = "string list" and 'r = unit])
       (simp_all add: bitu_conn_manager_get_transports_def fold_keys [where app = "\<lambda>xs x. xs @ [x]"] T)
qed

lemma uris_of_manager:
  assumes "cm_inv m"
  shows "distinct (map fst (ht_entries (cm_transports m)))" "set (map fst (ht_entries (cm_transports m))) = dom (lookup m)"
proof -
  have "dom (lookup m) = dom (ht_map (cm_transports m))"
    using lookup_None [OF assms] by (simp add: dom_def del: not_None_eq)
  then show "distinct (map fst (ht_entries (cm_transports m)))"
    and "set (map fst (ht_entries (cm_transports m))) = dom (lookup m)"
    using ht.entries_distinct [OF cm_inv_wf [OF assms]] ht.keys_entries [OF cm_inv_wf [OF assms]] by simp_all
qed

section \<open>Commands\<close>

lemma command_new_run:
  assumes "plain_start (strip line)"
  shows "bitu_command_new glibc_alloc tr line from = Some \<lparr>command_transport = tr, command_from = from,
    command_cmd = strip line, command_name = Some (hd (tokens (strip line))),
    command_params = tl (tokens (strip line)), command_nparams = int (length (tl (tokens (strip line))))\<rparr>"
proof -
  have "strip line \<noteq> []"
    using assms by (auto simp: plain_start_def)
  then show ?thesis
    using extract_tokens [OF refl assms] by (simp add: bitu_command_new_def strstrip_eq)
qed

end
