(* ===== verification/Simulation.thy ===== *)
theory Simulation
  imports Prelude
begin

text \<open>
  Sequences of operations, and the interface between the operations of a component and an abstract
  specification of them: a locale that asks for one step and gives all sequences. A step is
  undefined with \<open>None\<close>, and the component has to be undefined exactly where the specification is.
\<close>

fun run_all :: "('op \<Rightarrow> 's \<Rightarrow> ('s \<times> 'o) option) \<Rightarrow> 'op list \<Rightarrow> 's \<Rightarrow> ('s \<times> 'o list) option" where
  "run_all step [] s = Some (s, [])"
| "run_all step (x # xs) s = do {
     (s, out) \<leftarrow> step x s;
     (s, outs) \<leftarrow> run_all step xs s;
     Some (s, out # outs) }"

text \<open>
  \<open>rel\<close> relates the operations of both levels. \<open>weight\<close> is what the component has a bound for; each
  operation may add one to it.
\<close>

locale simulation =
  fixes astep :: "'op \<Rightarrow> 'a \<Rightarrow> ('a \<times> 'o) option"
    and cstep :: "'c \<Rightarrow> 's \<Rightarrow> ('s \<times> 'o) option"
    and rel :: "'op \<Rightarrow> 'c \<Rightarrow> bool"
    and abst :: "'s \<Rightarrow> 'a"
    and inv :: "'s \<Rightarrow> bool"
    and weight :: "'a \<Rightarrow> nat"
    and cap :: nat
  assumes undefined_law: "inv s \<Longrightarrow> rel op c \<Longrightarrow> weight (abst s) < cap \<Longrightarrow> astep op (abst s) = None \<Longrightarrow> cstep c s = None"
    and step_law: "inv s \<Longrightarrow> rel op c \<Longrightarrow> weight (abst s) < cap \<Longrightarrow> astep op (abst s) = Some (a, out) \<Longrightarrow>
      \<exists>s'. cstep c s = Some (s', out) \<and> inv s' \<and> abst s' = a"
    and weight_law: "inv s \<Longrightarrow> astep op (abst s) = Some (a, out) \<Longrightarrow> weight a \<le> Suc (weight (abst s))"
begin

lemma sim_undefined:
  assumes "list_all2 rel ops cs" "inv s" "weight (abst s) + length ops \<le> cap" "run_all astep ops (abst s) = None"
  shows "run_all cstep cs s = None"
  using assms
proof (induction ops cs arbitrary: s rule: list_all2_induct)
  case (Cons op ops c cs)
  show ?case
  proof (cases "astep op (abst s)")
    case None
    then show ?thesis
      using undefined_law [OF Cons.prems(1) Cons.hyps(1)] Cons.prems(2) by simp
  next
    case (Some r)
    then obtain a out where a: "astep op (abst s) = Some (a, out)"
      by (cases r) auto
    then obtain s' where s': "cstep c s = Some (s', out)" "inv s'" "abst s' = a"
      using step_law [OF Cons.prems(1) Cons.hyps(1)] Cons.prems(2) by auto
    have "run_all astep ops (abst s') = None"
      using Cons.prems(3) a s'(3) by (auto split: bind_splits)
    then show ?thesis
      using Cons.IH [OF s'(2)] weight_law [OF Cons.prems(1) a] Cons.prems(2) s' by simp
  qed
qed simp

lemma sim_defined:
  assumes "list_all2 rel ops cs" "inv s" "weight (abst s) + length ops \<le> cap" "run_all astep ops (abst s) = Some (a, outs)"
  shows "\<exists>s'. run_all cstep cs s = Some (s', outs) \<and> inv s' \<and> abst s' = a"
  using assms
proof (induction ops cs arbitrary: s outs rule: list_all2_induct)
  case (Cons op ops c cs)
  obtain a1 out outs1 where a1: "astep op (abst s) = Some (a1, out)" "run_all astep ops a1 = Some (a, outs1)"
    "outs = out # outs1"
    using Cons.prems(3) by (auto split: bind_splits)
  then obtain s' where s': "cstep c s = Some (s', out)" "inv s'" "abst s' = a1"
    using step_law [OF Cons.prems(1) Cons.hyps(1)] Cons.prems(2) by auto
  have "weight (abst s') + length ops \<le> cap"
    using weight_law [OF Cons.prems(1) a1(1)] Cons.prems(2) s'(3) by simp
  from Cons.IH [OF s'(2) this] show ?case
    using a1 s' by auto
qed simp

end

text \<open>A map grows by at most one entry.\<close>

lemma card_dom_update: "finite (dom m) \<Longrightarrow> card (dom (m(k := v))) \<le> Suc (card (dom m))"
  by (cases v) (simp_all add: card_insert_if card_Diff1_le le_SucI dom_minus [symmetric] card_Diff_singleton_if)

end
