(* ===== verification/App_Correct.thy ===== *)
theory App_Correct
  imports App Transport_Correct Simulation
begin

text \<open>
  The invariant of the application, that every command keeps it, and what the commands on the
  environment and on the plugins do in terms of finite maps.
\<close>

named_theorems app_simps "straight-line parts of the commands of the application"

section \<open>The manager's operations keep its invariant\<close>

lemma cm_inv_remove:
  assumes "cm_inv m" "bitu_conn_manager_remove env m uri = Some (m', st)"
  shows "cm_inv m'"
proof (cases "lookup m uri")
  case None
  then show ?thesis
    using assms by (auto simp: bitu_conn_manager_remove_def ht.get_law [OF cm_inv_wf] lookup_None)
next
  case (Some t)
  obtain a where a: "ht_map (cm_transports m) uri = Some a" "cm_heap m a = Some t"
    using assms(1) Some by (rule lookup_SomeE)
  obtain rc where rc: "bitu_transport_is_running env t = Some rc"
    using assms(2) a by (auto simp: bitu_conn_manager_remove_def ht.get_law [OF cm_inv_wf [OF assms(1)]] split: bind_splits)
  show ?thesis
    using remove_refuses [OF assms(1) Some rc] remove_run [OF assms(1) Some rc] assms by (cases "rc_ok rc") auto
qed

lemma cm_inv_shutdown:
  assumes "cm_inv m" "bitu_conn_manager_shutdown m uri = Some (m', st)"
  shows "cm_inv m'"
proof (cases "lookup m uri")
  case None
  then show ?thesis
    using assms shutdown_not_found by auto
next
  case (Some t)
  have l: "tr_logger t = Logger"
    using shutdown_undefined [OF assms(1) Some] assms(2) by (cases "tr_logger t") simp_all
  obtain t' rc where d: "bitu_transport_disconnect t = Some (t', rc)"
    using shutdown_undefined [OF assms(1) Some] assms(2) by (cases "bitu_transport_disconnect t") auto
  show ?thesis
    using shutdown_run [OF assms(1) Some l d] assms(2) by auto
qed

lemma cm_inv_run:
  assumes "cm_inv m" "bitu_conn_manager_run env m uri = Some (m', st)"
  shows "cm_inv m'"
proof (cases "lookup m uri")
  case None
  then show ?thesis
    using assms by (auto simp: bitu_conn_manager_run_def get_transport_eq lookup_None)
next
  case (Some t)
  obtain a where a: "ht_map (cm_transports m) uri = Some a" "cm_heap m a = Some t" "tr_commands t = Manager_queue"
    using assms(1) Some by (rule lookup_SomeE)
  obtain t' rc where c: "bitu_transport_connect env a t = Some (t', rc)"
    using assms a by (auto simp: bitu_conn_manager_run_def get_transport_eq split: bind_splits)
  have "tr_commands t' = Manager_queue"
    using connect_same [OF c] a(3) by (simp add: same_transport_def)
  note inv = cm_inv_update(1) [OF assms(1) a(1) this]
  show ?thesis
    using assms a c inv
    by (auto simp: bitu_conn_manager_run_def get_transport_eq Let_def split: bind_splits if_splits elim: cm_inv_shutdown)
qed

section \<open>The invariant of the application\<close>

text \<open>The table of commands never changes, and each plugin is stored under its own name.\<close>

definition app_inv :: "bitu_app \<Rightarrow> bool" where
  "app_inv app \<longleftrightarrow> ht_wf (ap_environment app) \<and>
     ht_wf (ap_commands app) \<and> ht_map (ap_commands app) = map_of builtins \<and>
     cm_inv (ap_connections app) \<and>
     ht_wf (ap_plugin_ctx app) \<and> (\<forall>name p. ht_map (ap_plugin_ctx app) name = Some p \<longrightarrow> pl_name p = name)"

definition app_room :: "bitu_app \<Rightarrow> bool" where
  "app_room app \<longleftrightarrow> card (dom (ht_map (ap_environment app))) < ht_capacity \<and>
     cm_room (ap_connections app) \<and> card (dom (ht_map (ap_plugin_ctx app))) < ht_capacity"

definition env_of :: "bitu_app \<Rightarrow> string \<Rightarrow> string option" where
  "env_of app = ht_map (ap_environment app)"

definition plugins_of :: "bitu_app \<Rightarrow> string \<Rightarrow> bitu_plugin option" where
  "plugins_of app = ht_map (ap_plugin_ctx app)"

lemma app_invD:
  assumes "app_inv app"
  shows "ht_wf (ap_environment app)" "ht_wf (ap_commands app)" "ht_map (ap_commands app) = map_of builtins"
    and "cm_inv (ap_connections app)" "ht_wf (ap_plugin_ctx app)"
    and "ht_map (ap_plugin_ctx app) name = Some p \<Longrightarrow> pl_name p = name"
  using assms by (auto simp: app_inv_def)

lemma app_new_run:
  "\<exists>app. bitu_app_new = Some app \<and> app_inv app \<and> app_room app \<and> env_of app = Map.empty \<and>
     plugins_of app = Map.empty \<and> (\<forall>uri. lookup (ap_connections app) uri = None) \<and>
     ap_logfile app = None \<and> cm_commands (ap_connections app) = bitu_queue_new \<and>
     cm_consumers (ap_connections app) = 0 \<and> cm_threads (ap_connections app) = []"
proof -
  obtain m where m: "bitu_conn_manager_new = Some m" "cm_inv m" "\<forall>uri. lookup m uri = None"
    "cm_transports m = fresh_table hash_string True True"
    using cm_inv_new by blast
  let ?f = "fresh_table hash_string False False :: (string, builtin) hashtable"
  have "card (dom (ht_map ?f)) + length builtins \<le> ht_capacity"
    by (simp add: fresh_map builtins_def ht_capacity_def)
  from ht.set_seq_law [OF fresh_wf this] obtain t where t: "register_commands ?f = Some t" "ht_wf t"
    "ht_map t = map_of (rev builtins)"
    by (auto simp: register_commands_def fresh_map)
  have "distinct (map fst builtins)"
    by (simp add: builtins_def)
  then have "map_of (rev builtins) = map_of builtins"
    by (simp add: map_of_inject_set rev_map [symmetric])
  moreover have "cm_commands m = bitu_queue_new" "cm_consumers m = 0" "cm_threads m = []"
    using m(1) by (auto simp: bitu_conn_manager_new_def split: bind_splits)
  moreover define app where "app = \<lparr>ap_environment = fresh_table hash_string True True, ap_commands = t,
      ap_connections = m, ap_plugin_ctx = fresh_table hash_string True True, ap_logfile = None, ap_logfd = -1,
      ap_level = None, ap_colors = None\<rparr>"
  moreover have "bitu_app_new = Some app"
    by (simp add: bitu_app_new_def bitu_plugin_ctx_new_def create_fresh string_equal_eq m(1) t(1) app_def)
  ultimately show ?thesis
    using m t by (intro exI [of _ app])
      (simp add: app_inv_def app_room_def env_of_def plugins_of_def fresh_wf fresh_map cm_room_def ht_capacity_def)
qed

section \<open>Every command keeps the invariant\<close>

lemma checkedE:
  assumes "checked error app rest = Some (app', out)"
  obtains "app' = app" | "error = None" "rest = Some (app', out)"
  using assms by (auto simp: checked_def split: option.splits)

lemma with_connectionsE:
  assumes "with_connections app r = Some (app', x)"
  obtains m where "r = Some (m, x)" "app' = app\<lparr>ap_connections := m\<rparr>"
  using assms by (auto simp: with_connections_def split: bind_splits)

lemma bind_SomeE:
  assumes "x \<bind> f = Some y"
  obtains v where "x = Some v" "f v = Some y"
  using assms by (cases x) auto

lemma if_SomeE:
  assumes "(if b then x else y) = Some z"
  obtains "b" "x = Some z" | "\<not> b" "y = Some z"
  using assms by (cases b) auto

lemma app_inv_environment: "app_inv app \<Longrightarrow> ht_wf h \<Longrightarrow> app_inv (app\<lparr>ap_environment := h\<rparr>)"
  by (simp add: app_inv_def)

lemma app_inv_connections: "app_inv app \<Longrightarrow> cm_inv m \<Longrightarrow> app_inv (app\<lparr>ap_connections := m\<rparr>)"
  by (simp add: app_inv_def)

lemma app_inv_other [simp]:
  "app_inv (app\<lparr>ap_logfile := f, ap_logfd := d\<rparr>) = app_inv app"
  "app_inv (app\<lparr>ap_level := l\<rparr>) = app_inv app" "app_inv (app\<lparr>ap_colors := c\<rparr>) = app_inv app"
  by (simp_all add: app_inv_def)

lemma cmd_set_inv:
  assumes "app_inv app" "app_room app" "cmd_set app params n = Some (app', out)"
  shows "app_inv app'"
proof -
  note set = ht.set_law [OF app_invD(1) [OF assms(1)], of "params ! 0" "params ! 1"]
  obtain h where "hashtable_set True True (ap_environment app) (params ! 0) (params ! 1) = Some (h, 0)" "ht_wf h"
    using set assms(2) by (auto simp: app_room_def)
  then show ?thesis
    using assms(1,3) by (auto simp: cmd_set_def nth_opt_eq_Some app_inv_environment elim!: checkedE split: bind_splits)
qed

lemma cmd_unset_inv:
  assumes "app_inv app" "cmd_unset app params n = Some (app', out)"
  shows "app_inv app'"
proof -
  obtain h rc where "hashtable_del (ap_environment app) (params ! 0) = Some (h, rc)" "ht_wf h"
    using ht.del_law [OF app_invD(1) [OF assms(1)], of "params ! 0"] by auto
  then show ?thesis
    using assms by (auto simp: cmd_unset_def nth_opt_eq_Some app_inv_environment elim!: checkedE split: bind_splits)
qed

lemma cmd_transport_inv:
  assumes "app_inv app" "app_room app" "cmd_transport E app params n = Some (app', out)"
  shows "app_inv app'"
proof -
  have add: "cm_inv m" if "bitu_conn_manager_add p (ap_connections app) uri = Some (m, r)" for p uri m r
    using cm_inv_add [OF app_invD(4) [OF assms(1)] _ that] assms(2) by (simp add: app_room_def)
  note ops = add cm_inv_remove [OF app_invD(4) [OF assms(1)]] cm_inv_run [OF app_invD(4) [OF assms(1)]]
    cm_inv_shutdown [OF app_invD(4) [OF assms(1)]]
  note inv = app_inv_connections [OF assms(1)]
  show ?thesis
    using assms(3) unfolding cmd_transport_def
    by (elim checkedE with_connectionsE bind_SomeE if_SomeE) (use assms(1) in \<open>auto elim!: with_connectionsE intro: inv dest: ops\<close>)
qed

lemma plugin_load_run:
  assumes "ht_wf ctx" "card (dom (ht_map ctx)) < ht_capacity"
  shows "\<exists>ctx'. bitu_plugin_ctx_load dl ctx lib =
      Some (ctx', case bitu_plugin_load dl lib of None \<Rightarrow> TA_ERROR | Some _ \<Rightarrow> TA_OK) \<and> ht_wf ctx' \<and>
    ht_map ctx' = (case bitu_plugin_load dl lib of None \<Rightarrow> ht_map ctx | Some p \<Rightarrow> (ht_map ctx)(pl_name p \<mapsto> p))"
proof (cases "bitu_plugin_load dl lib")
  case None
  then show ?thesis
    using assms(1) by (simp add: bitu_plugin_ctx_load_def)
next
  case (Some p)
  then show ?thesis
    using ht.set_law [OF assms, of "pl_name p" p] by (auto simp: bitu_plugin_ctx_load_def bitu_plugin_name_def)
qed

lemma plugin_unload_run:
  assumes "ht_wf ctx"
  shows "\<exists>ctx'. bitu_plugin_ctx_unload ctx name = Some (ctx', ht_map ctx name \<noteq> None) \<and> ht_wf ctx' \<and>
    ht_map ctx' = (ht_map ctx)(name := None)"
proof (cases "ht_map ctx name")
  case None
  then show ?thesis
    using assms by (auto simp: bitu_plugin_ctx_unload_def ht.get_law [OF assms])
next
  case (Some p)
  then show ?thesis
    using ht.del_law [OF assms, of name] by (auto simp: bitu_plugin_ctx_unload_def ht.get_law [OF assms])
qed

lemma app_inv_plugins:
  "app_inv app \<Longrightarrow> ht_wf ctx \<Longrightarrow> (\<And>name p. ht_map ctx name = Some p \<Longrightarrow> pl_name p = name) \<Longrightarrow>
     app_inv (app\<lparr>ap_plugin_ctx := ctx\<rparr>)"
  by (simp add: app_inv_def)

lemma cmd_load_inv:
  assumes "app_inv app" "app_room app" "cmd_load E app params n = Some (app', out)"
  shows "app_inv app'"
proof -
  have "app_inv (app\<lparr>ap_plugin_ctx := ctx\<rparr>)"
    if ctx: "bitu_plugin_ctx_load (ae_dl E) (ap_plugin_ctx app) lib = Some (ctx, rc)" for lib ctx rc
  proof (rule app_inv_plugins [OF assms(1)])
    have r: "card (dom (ht_map (ap_plugin_ctx app))) < ht_capacity"
      using assms(2) by (simp add: app_room_def)
    note run = plugin_load_run [OF app_invD(5) [OF assms(1)] r, of "ae_dl E" lib]
    show "ht_wf ctx"
      using run ctx by auto
    show "pl_name p = name" if "ht_map ctx name = Some p" for name p
      using run ctx that app_invD(6) [OF assms(1)] by (auto split: option.splits if_splits)
  qed
  then show ?thesis
    using assms(1,3) by (auto simp: cmd_load_def elim!: checkedE split: bind_splits)
qed

lemma cmd_unload_inv:
  assumes "app_inv app" "cmd_unload app params n = Some (app', out)"
  shows "app_inv app'"
proof -
  have "app_inv (app\<lparr>ap_plugin_ctx := ctx\<rparr>)"
    if ctx: "bitu_plugin_ctx_unload (ap_plugin_ctx app) name = Some (ctx, ok)" for name ctx ok
  proof (rule app_inv_plugins [OF assms(1)])
    note run = plugin_unload_run [OF app_invD(5) [OF assms(1)], of name]
    show "ht_wf ctx"
      using run ctx by auto
    show "pl_name p = nm" if "ht_map ctx nm = Some p" for nm p
      using run ctx that app_invD(6) [OF assms(1)] by (auto split: if_splits)
  qed
  then show ?thesis
    using assms by (auto simp: cmd_unload_def elim!: checkedE split: bind_splits)
qed

lemma run_builtin_inv:
  assumes "app_inv app" "app_room app" "run_builtin E f app params n = Some (app', out)"
  shows "app_inv app' \<and> ap_commands app' = ap_commands app"
proof
  show "app_inv app'"
  proof (cases f)
    case Cmd_env
    then show ?thesis
      using assms by (auto simp: run_builtin_def cmd_env_def elim!: checkedE split: bind_splits option.splits sum.splits)
  next
    case Cmd_list
    then show ?thesis
      using assms by (auto simp: run_builtin_def cmd_list_def elim!: checkedE
          split: bind_splits option.splits sum.splits if_splits)
  next
    case Cmd_set
    then show ?thesis using assms by (simp add: run_builtin_def cmd_set_inv)
  next
    case Cmd_unset
    then show ?thesis using assms by (simp add: run_builtin_def cmd_unset_inv)
  next
    case Cmd_transport
    then show ?thesis using assms by (simp add: run_builtin_def cmd_transport_inv)
  next
    case Cmd_load
    then show ?thesis using assms by (simp add: run_builtin_def cmd_load_inv)
  next
    case Cmd_unload
    then show ?thesis using assms by (simp add: run_builtin_def cmd_unload_inv)
  qed (use assms in \<open>auto simp: run_builtin_def cmd_help_def cmd_send_def cmd_get_def cmd_set_log_file_def
         cmd_set_log_level_def cmd_set_log_use_colors_def Let_def elim!: checkedE split: bind_splits if_splits\<close>)
  show "ap_commands app' = ap_commands app"
  proof (cases f)
    case Cmd_transport
    then have "cmd_transport E app params n = Some (app', out)"
      using assms(3) by (simp add: run_builtin_def)
    then show ?thesis
      unfolding cmd_transport_def
      by (elim checkedE with_connectionsE bind_SomeE if_SomeE) (auto elim!: with_connectionsE)
  next
    case Cmd_list
    then show ?thesis
      using assms by (auto simp: run_builtin_def cmd_list_def elim!: checkedE
          split: bind_splits option.splits sum.splits if_splits)
  next
    case Cmd_env
    then show ?thesis
      using assms by (auto simp: run_builtin_def cmd_env_def elim!: checkedE split: bind_splits option.splits sum.splits)
  qed (use assms in \<open>auto simp: run_builtin_def cmd_help_def cmd_send_def cmd_get_def cmd_set_def cmd_unset_def
         cmd_load_def cmd_unload_def cmd_set_log_file_def cmd_set_log_level_def cmd_set_log_use_colors_def Let_def
         elim!: checkedE split: bind_splits if_splits\<close>)
qed

section \<open>Executing a command\<close>

definition is_command :: "string \<Rightarrow> string list \<Rightarrow> bitu_command \<Rightarrow> bool" where
  "is_command name params c \<longleftrightarrow>
     command_name c = Some name \<and> command_params c = params \<and> command_nparams c = int (length params)"

lemma exec_builtin:
  assumes "app_inv app" "is_command name params c" "map_of builtins name = Some f"
  shows "bitu_app_exec_command E app c =
    do { (app, out) \<leftarrow> run_builtin E f app params (int (length params)); Some (app, out, TA_OK) }"
  using assms by (simp add: bitu_app_exec_command_def is_command_def ht.get_law [OF app_invD(2)] app_invD(3))

text \<open>
  The plugin that serves a command line: the first of the table that recognises it, and
  otherwise the one whose name it is.
\<close>

definition serving_plugin :: "plugin_ctx \<Rightarrow> string \<Rightarrow> bitu_plugin option" where
  "serving_plugin ctx cmd = (case find (\<lambda>e. matches cmd (snd e)) (ht_entries ctx) of
       Some e \<Rightarrow> Some (snd e) | None \<Rightarrow> ht_map ctx cmd)"

lemma find_serving:
  assumes "ht_wf ctx" "plain_start (strip cmd)"
  shows "bitu_plugin_ctx_find_for_cmdline glibc_alloc ctx cmd = Some (serving_plugin ctx cmd)"
proof (cases "find (\<lambda>e. matches cmd (snd e)) (ht_entries ctx)")
  case None
  have "ht_entries ctx = [] \<Longrightarrow> ht_map ctx cmd = None"
    by (simp add: ht_map_def)
  then show ?thesis
    using None by (simp add: find_for_cmdline_run [OF assms(1)] serving_plugin_def extract_tokens [OF refl assms(2)])
qed (simp add: find_for_cmdline_run [OF assms(1)] serving_plugin_def)

lemma exec_other:
  assumes "app_inv app" "command_name c = Some name" "map_of builtins name = None"
    and "ae_alloc E = glibc_alloc" "plain_start (strip (command_cmd c))"
  shows "bitu_app_exec_command E app c =
    (case serving_plugin (ap_plugin_ctx app) (command_cmd c) of
       Some p \<Rightarrow> map_option (\<lambda>out. (app, out, TA_OK)) (pl_execute p c)
     | None \<Rightarrow>
         let answer = snprintf 128 (''No handler for the following command: `'' @ command_cmd c @ [apostrophe]) in
         if plain_format answer then Some (app, Some answer, TA_ERROR) else None)"
  using assms
  by (simp add: bitu_app_exec_command_def ht.get_law [OF app_invD(2)] app_invD(3) find_serving [OF app_invD(5)]
      bitu_plugin_execute_def require_bind Let_def map_option_case split: option.splits bind_splits)

lemma exec_inv:
  assumes "app_inv app" "app_room app" "bitu_app_exec_command E app c = Some (app', out, st)"
  shows "app_inv app' \<and> ap_commands app' = ap_commands app"
proof -
  obtain name where name: "command_name c = Some name"
    using assms(3) by (auto simp: bitu_app_exec_command_def Let_def split: bind_splits)
  show ?thesis
  proof (cases "map_of builtins name")
    case None
    then show ?thesis
      using assms name
      by (auto simp: bitu_app_exec_command_def ht.get_law [OF app_invD(2)] app_invD(3) Let_def
          split: bind_splits option.splits)
  next
    case (Some f)
    then show ?thesis
      using assms name run_builtin_inv [OF assms(1,2), of E f "command_params c" "command_nparams c" app' out]
      by (auto simp: bitu_app_exec_command_def ht.get_law [OF app_invD(2)] app_invD(3) split: bind_splits)
  qed
qed

text \<open>A sequence of commands, with their answers.\<close>

fun exec_all :: "app_env \<Rightarrow> bitu_app \<Rightarrow> bitu_command list \<Rightarrow> (bitu_app \<times> string option list) option" where
  "exec_all E app [] = Some (app, [])"
| "exec_all E app (c # cs) = do {
     (app, out, _) \<leftarrow> bitu_app_exec_command E app c;
     (app, outs) \<leftarrow> exec_all E app cs;
     Some (app, out # outs) }"

definition exec_step :: "app_env \<Rightarrow> bitu_command \<Rightarrow> bitu_app \<Rightarrow> (bitu_app \<times> string option) option" where
  "exec_step E c app = do {
     (app, out, _) \<leftarrow> bitu_app_exec_command E app c;
     Some (app, out) }"

text \<open>The same with the answers of the outside for each command.\<close>

definition exec_in :: "app_env \<times> bitu_command \<Rightarrow> bitu_app \<Rightarrow> (bitu_app \<times> string option) option" where
  "exec_in x = exec_step (fst x) (snd x)"

lemma exec_all_run: "exec_all E app cs = run_all (exec_step E) cs app"
  by (induction cs arbitrary: app) (simp_all add: exec_step_def Option.bind_assoc split_def)

lemma load_config_eq:
  "bitu_app_load_config E app cs = do {
     (app', outs) \<leftarrow> exec_all E app cs;
     if set outs \<subseteq> {None} then Some app' else None }"
proof (induction cs arbitrary: app)
  case (Cons c cs)
  show ?case
  proof (cases "bitu_app_exec_command E app c")
    case (Some r)
    then obtain app1 out st where "bitu_app_exec_command E app c = Some (app1, out, st)"
      by (cases r) auto
    then show ?thesis
      using Cons.IH [of app1] by (cases "out"; cases "exec_all E app1 cs") (auto simp: require_bind)
  qed simp
qed simp

section \<open>The environment\<close>

datatype env_op = Env_set string string | Env_unset string | Env_get string

primrec env_command :: "env_op \<Rightarrow> bitu_command \<Rightarrow> bool" where
  "env_command (Env_set k v) = is_command ''set'' [k, v]"
| "env_command (Env_unset k) = is_command ''unset'' [k]"
| "env_command (Env_get k) = is_command ''get'' [k]"

primrec env_step :: "env_op \<Rightarrow> (string \<rightharpoonup> string) \<Rightarrow> (string \<rightharpoonup> string)" where
  "env_step (Env_set k v) m = m(k \<mapsto> v)"
| "env_step (Env_unset k) m = m(k := None)"
| "env_step (Env_get k) m = m"

primrec env_answer :: "env_op \<Rightarrow> (string \<rightharpoonup> string) \<Rightarrow> string option" where
  "env_answer (Env_set k v) m = None"
| "env_answer (Env_unset k) m = None"
| "env_answer (Env_get k) m = m k"

fun env_answers :: "env_op list \<Rightarrow> (string \<rightharpoonup> string) \<Rightarrow> string option list" where
  "env_answers [] m = []"
| "env_answers (x # xs) m = env_answer x m # env_answers xs (env_step x m)"

lemma builtin_names:
  "map_of builtins ''set'' = Some Cmd_set" "map_of builtins ''unset'' = Some Cmd_unset"
  "map_of builtins ''get'' = Some Cmd_get" "map_of builtins ''env'' = Some Cmd_env"
  "map_of builtins ''load'' = Some Cmd_load" "map_of builtins ''unload'' = Some Cmd_unload"
  "map_of builtins ''list'' = Some Cmd_list" "map_of builtins ''transport'' = Some Cmd_transport"
  by (simp_all add: builtins_def)

text \<open>Nothing but the environment changes.\<close>

definition only_environment :: "bitu_app \<Rightarrow> bitu_app \<Rightarrow> bool" where
  "only_environment app app' \<longleftrightarrow> (\<exists>h. app' = app\<lparr>ap_environment := h\<rparr>)"

lemma only_environment_refl: "only_environment app app"
  unfolding only_environment_def by (rule exI [of _ "ap_environment app"]) simp

lemma only_environment_trans: "only_environment a b \<Longrightarrow> only_environment b c \<Longrightarrow> only_environment a c"
  by (auto simp: only_environment_def)

lemma env_exec:
  assumes "app_inv app" "card (dom (env_of app)) < ht_capacity" "env_command x c"
  shows "\<exists>app'. bitu_app_exec_command E app c = Some (app', env_answer x (env_of app), TA_OK) \<and> app_inv app' \<and>
    env_of app' = env_step x (env_of app) \<and> only_environment app app'"
proof (cases x)
  case (Env_set k v)
  have "is_command ''set'' [k, v] c"
    using assms(3) Env_set by simp
  note exec = exec_builtin [OF assms(1) this builtin_names(1)]
  obtain h where h: "hashtable_set True True (ap_environment app) k v = Some (h, 0)" "ht_wf h"
    "ht_map h = (ht_map (ap_environment app))(k \<mapsto> v)"
    using ht.set_law [OF app_invD(1) [OF assms(1)], of k v] assms(2) by (auto simp: env_of_def)
  then show ?thesis
    using Env_set app_inv_environment [OF assms(1)] unfolding exec only_environment_def
    by (intro exI [of _ "app\<lparr>ap_environment := h\<rparr>"])
       (auto simp: run_builtin_def cmd_set_def checked_def validate_num_params_def env_of_def)
next
  case (Env_unset k)
  have "is_command ''unset'' [k] c"
    using assms(3) Env_unset by simp
  note exec = exec_builtin [OF assms(1) this builtin_names(2)]
  obtain h rc where h: "hashtable_del (ap_environment app) k = Some (h, rc)" "ht_wf h"
    "ht_map h = (ht_map (ap_environment app))(k := None)"
    using ht.del_law [OF app_invD(1) [OF assms(1)], of k] by auto
  then show ?thesis
    using Env_unset app_inv_environment [OF assms(1)] unfolding exec only_environment_def
    by (intro exI [of _ "app\<lparr>ap_environment := h\<rparr>"])
       (auto simp: run_builtin_def cmd_unset_def checked_def validate_num_params_def env_of_def)
next
  case (Env_get k)
  have "is_command ''get'' [k] c"
    using assms(3) Env_get by simp
  note exec = exec_builtin [OF assms(1) this builtin_names(3)]
  show ?thesis
    using Env_get assms(1) only_environment_refl unfolding exec
    by (auto simp: run_builtin_def cmd_get_def checked_def validate_num_params_def env_of_def ht.get_law [OF app_invD(1)])
qed

text \<open>Sets of commands implement the map, by the simulation.\<close>

interpretation env_map: simulation "\<lambda>x m. Some (env_step x m, env_answer x m)" "exec_step E" env_command env_of
  "\<lambda>app. app_inv app \<and> only_environment app0 app" "\<lambda>m. card (dom m)" ht_capacity for E app0
proof unfold_locales
  fix s op c a and out :: "string option"
  assume inv: "app_inv s \<and> only_environment app0 s"
  assume st: "Some (env_step op (env_of s), env_answer op (env_of s)) = Some (a, out)"
  have "finite (dom (env_of s))"
    using ht.finite_law [OF app_invD(1), of s] inv by (simp add: env_of_def)
  then show "card (dom a) \<le> Suc (card (dom (env_of s)))"
    using st card_dom_update [of "env_of s"] by (cases op) (auto simp del: dom_fun_upd)
  assume rel: "env_command op c" and room: "card (dom (env_of s)) < ht_capacity"
  show "\<exists>s'. exec_step E c s = Some (s', out) \<and> (app_inv s' \<and> only_environment app0 s') \<and> env_of s' = a"
    using env_exec [OF _ room rel, of E] inv st only_environment_trans by (force simp: exec_step_def)
qed simp

lemma env_run_map: "run_all (\<lambda>x m. Some (env_step x m, env_answer x m)) xs m = Some (fold env_step xs m, env_answers xs m)"
  by (induction xs arbitrary: m) simp_all

lemma env_run:
  assumes "app_inv app" "card (dom (env_of app)) + length xs \<le> ht_capacity" "list_all2 env_command xs cs"
  shows "\<exists>app'. exec_all E app cs = Some (app', env_answers xs (env_of app)) \<and> app_inv app' \<and>
    env_of app' = fold env_step xs (env_of app) \<and> only_environment app app'"
  using env_map.sim_defined [OF assms(3) _ assms(2) env_run_map, of app E] assms(1) only_environment_refl
  by (auto simp: exec_all_run)

section \<open>Lists in answers\<close>

fun join_lines :: "string list \<Rightarrow> string" where
  "join_lines [] = []"
| "join_lines [l] = l"
| "join_lines (l # ls) = l @ [newline] @ join_lines ls"

lemma join_lines_butlast: "join_lines ls = butlast (concat (map (\<lambda>l. l @ [newline]) ls))"
  by (induction ls rule: join_lines.induct) (auto simp: butlast_append)

lemma env_fold:
  assumes "\<And>n. n \<le> U n" "\<forall>e \<in> set es. length (fst e) < 256" "length list \<le> full"
  shows "\<exists>full'. fold_until (env_body U) (list, full) es =
    Some (Inl (list @ concat (map (\<lambda>e. fst e @ [newline]) es), full') :: ((string \<times> nat) + unit))"
  using assms(2,3)
proof (induction es arbitrary: list full)
  case (Cons e es)
  obtain k v where e: "e = (k, v)"
    by (cases e)
  let ?n = "length list + length k + 1"
  define full1 where "full1 = (if full < ?n then full + 256 else full)"
  have "?n \<le> full1"
    using Cons.prems e by (auto simp: full1_def)
  moreover from this have "?n \<le> U full1"
    using assms(1) [of full1] by simp
  ultimately have "env_body U (list, full) k v = Some (Inl (list @ k @ [newline], full1))"
    by (simp add: env_body_def full1_def Let_def)
  then show ?case
    using Cons.IH [of "list @ k @ [newline]" full1] Cons.prems(1) e \<open>?n \<le> full1\<close> by simp
qed simp

lemma cmd_env_run:
  assumes "app_inv app" "\<And>n. n \<le> U n" "\<forall>k \<in> dom (env_of app). length k < 256"
  shows "\<exists>keys. distinct keys \<and> set keys = dom (env_of app) \<and>
    cmd_env U app 0 = Some (app, if keys = [] then None else Some (join_lines keys))"
proof -
  let ?h = "ap_environment app" and ?keys = "map fst (ht_entries (ap_environment app))"
  note wf = app_invD(1) [OF assms(1)]
  have keys: "distinct ?keys" "set ?keys = dom (env_of app)"
    using ht.entries_distinct [OF wf] ht.keys_entries [OF wf] by (simp_all add: env_of_def)
  then have "\<forall>e \<in> set (ht_entries ?h). length (fst e) < 256"
    using assms(3) by force
  then obtain full where f: "fold_until (env_body U) ([], 0) (ht_entries ?h) =
      Some (Inl (concat (map (\<lambda>e. fst e @ [newline]) (ht_entries ?h)), full) :: ((string \<times> nat) + unit))"
    using env_fold [OF assms(2), of "ht_entries ?h" "[]" 0] by auto
  have j: "join_lines ?keys = butlast (concat (map (\<lambda>e. fst e @ [newline]) (ht_entries ?h)))"
    by (simp add: join_lines_butlast comp_def)
  have "cmd_env U app 0 = Some (app, if ?keys = [] then None else Some (join_lines ?keys))"
    by (rule walk_table [OF wf, where 'a = "string \<times> nat" and 'r = unit])
       (simp_all add: cmd_env_def checked_def validate_num_params_def f j)
  then show ?thesis
    using keys by blast
qed

lemma env_overrun:
  assumes "app_inv app" "env_of app = [k \<mapsto> v]" "U 256 < length k + 1"
  shows "cmd_env U app 0 = None"
proof -
  note wf = app_invD(1) [OF assms(1)]
  have "length (ht_entries (ap_environment app)) = 1"
    using ht.length_entries [OF wf] assms(2) by (simp add: env_of_def)
  then obtain e where "ht_entries (ap_environment app) = [e]"
    by (auto simp: length_Suc_conv)
  moreover from this have "fst e = k"
    using ht.keys_entries [OF wf] assms(2) by (auto simp: env_of_def)
  ultimately have es: "ht_entries (ap_environment app) = [(k, snd e)]"
    by (cases e) simp
  have o: "env_body U ([], 0) k (snd e) = None"
    using assms(3) by (simp add: env_body_def Let_def)
  show ?thesis
    by (rule walk_table [OF wf, where 'a = "string \<times> nat" and 'r = unit])
       (simp_all add: cmd_env_def checked_def validate_num_params_def es o)
qed

lemma list_line_run: "(\<And>n. n \<le> U n) \<Longrightarrow> list_line U ret val = Some (ret @ val @ [newline])"
  by (simp add: list_line_def)

lemma list_lines_run:
  "(\<And>n. n \<le> U n) \<Longrightarrow> list_lines U vals ret = Some (ret @ concat (map (\<lambda>l. l @ [newline]) vals))"
  by (induction vals arbitrary: ret) (simp_all add: list_line_run)

lemma list_fold:
  "(\<And>n. n \<le> U n) \<Longrightarrow>
     fold_until (\<lambda>ret k v. do { ret \<leftarrow> list_line U ret k; Some (Inl ret :: string + unit) }) ret es =
     Some (Inl (ret @ concat (map (\<lambda>e. fst e @ [newline]) es)))"
  by (induction es arbitrary: ret) (auto simp: list_line_run)

lemma cmd_list_plugins_run:
  assumes "app_inv app" "\<And>n. n \<le> ae_alloc E n" "ta_list_ok (ae_list E)"
  shows "\<exists>names. distinct names \<and> set names = dom (plugins_of app) \<and>
    cmd_list E app [''plugins''] 1 = Some (app, if names = [] then None else Some (join_lines names))"
proof -
  let ?names = "map fst (ht_entries (ap_plugin_ctx app))"
  note wf = app_invD(5) [OF assms(1)]
  have "cmd_list E app [''plugins''] 1 = Some (app, if ?names = [] then None else Some (join_lines ?names))"
    by (simp add: cmd_list_def checked_def validate_num_params_def plugin_list_run [OF assms(3) wf]
        list_lines_run [OF assms(2)] join_lines_butlast)
  then show ?thesis
    using ht.entries_distinct [OF wf] ht.keys_entries [OF wf] unfolding plugins_of_def by blast
qed

lemma cmd_list_commands_run:
  assumes "app_inv app" "\<And>n. n \<le> ae_alloc E n"
  shows "\<exists>names. distinct names \<and> set names = set (map fst builtins) \<and>
    cmd_list E app [''commands''] 1 = Some (app, Some (join_lines names))"
proof -
  let ?es = "ht_entries (ap_commands app)"
  note wf = app_invD(2) [OF assms(1)]
  have keys: "distinct (map fst ?es)" "set (map fst ?es) = set (map fst builtins)"
    using ht.entries_distinct [OF wf] ht.keys_entries [OF wf]
    by (simp_all add: app_invD(3) [OF assms(1)] dom_map_of_conv_image_fst)
  have "builtins \<noteq> []"
    by (simp add: builtins_def)
  then have ne: "?es \<noteq> []"
    using keys(2) by force
  have run: "cmd_list E app [''commands''] 1 = Some (app, Some (join_lines (map fst ?es)))"
  proof (rule walk_table [OF wf, where 'a = string and 'r = unit])
    fix p
    assume "hashtable_iter (ap_commands app) = Some (Some p)"
      and walk: "\<And>body (locals :: string). hashtable_walk (ap_commands app) body p locals =
        (fold_until body locals ?es :: (string + unit) option)"
    then show ?thesis
      unfolding cmd_list_def checked_def validate_num_params_def
      by (simp add: walk list_fold [OF assms(2)] join_lines_butlast comp_def)
  qed (use ne in simp)
  then show ?thesis
    using keys run by blast
qed

section \<open>Starting the transports\<close>

definition startable :: "conn_manager \<Rightarrow> string \<Rightarrow> bool" where
  "startable m uri \<longleftrightarrow> (\<exists>t path. lookup m uri = Some t \<and> local_stopped t path \<and> tr_logger t = Logger)"

text \<open>All threads that are wanted can be created.\<close>

definition threads_start :: "app_env \<Rightarrow> (string \<Rightarrow> backend_env) \<Rightarrow> bool" where
  "threads_start E envs \<longleftrightarrow> be_thread (ae_backend E) \<and> (\<forall>uri. be_thread (envs uri))"

lemma run_each_run:
  assumes "cm_inv m" "distinct uris" "\<forall>uri \<in> set uris. startable m uri" "threads_start E envs"
  shows "\<exists>m'. run_each envs m uris k = Some (m', k + length (filter (\<lambda>uri. socket_ok (envs uri)) uris)) \<and> cm_inv m' \<and>
    (\<forall>uri. uri \<notin> set uris \<longrightarrow> lookup m' uri = lookup m uri) \<and>
    (\<forall>uri \<in> set uris. \<exists>t. lookup m' uri = Some t \<and>
       bitu_transport_is_running env' t = Some (Ta (if socket_ok (envs uri) then TA_OK else TA_ERROR))) \<and>
    length (cm_threads m') = length (cm_threads m) + length (filter (\<lambda>uri. socket_ok (envs uri)) uris)"
  using assms(1-3)
proof (induction uris arbitrary: m k)
  case (Cons uri uris)
  obtain t path where t: "lookup m uri = Some t" "local_stopped t path" "tr_logger t = Logger"
    using Cons.prems(3) by (auto simp: startable_def)
  obtain m1 t1 where m1: "bitu_conn_manager_run (envs uri) m uri =
      Some (m1, if socket_ok (envs uri) then STATUS_SPAWNED else STATUS_CONNECTION_FAILED)" "cm_inv m1"
    "lookup m1 = (lookup m)(uri \<mapsto> t1)"
    "bitu_transport_is_running env' t1 = Some (Ta (if socket_ok (envs uri) then TA_OK else TA_ERROR))"
    "length (cm_threads m1) = length (cm_threads m) + (if socket_ok (envs uri) then 1 else 0)"
    using local_run_either [OF Cons.prems(1) t, of "envs uri"] assms(4) unfolding threads_start_def by blast
  have ni: "uri \<notin> set uris"
    using Cons.prems(2) by simp
  have "\<forall>u \<in> set uris. startable m1 u"
    using Cons.prems(3) ni by (auto simp: startable_def m1(3))
  with Cons.IH [OF m1(2), of "if socket_ok (envs uri) then Suc k else k"] obtain m' where m':
    "run_each envs m1 uris (if socket_ok (envs uri) then Suc k else k) = Some (m',
       (if socket_ok (envs uri) then Suc k else k) + length (filter (\<lambda>uri. socket_ok (envs uri)) uris))" "cm_inv m'"
    "\<And>u. u \<notin> set uris \<Longrightarrow> lookup m' u = lookup m1 u"
    "\<And>u. u \<in> set uris \<Longrightarrow> \<exists>t. lookup m' u = Some t \<and>
       bitu_transport_is_running env' t = Some (Ta (if socket_ok (envs u) then TA_OK else TA_ERROR))"
    "length (cm_threads m') = length (cm_threads m1) + length (filter (\<lambda>uri. socket_ok (envs uri)) uris)"
    using Cons.prems(2) by auto
  have "lookup m' uri = Some t1"
    using m'(3) [OF ni] m1(3) by simp
  then show ?case
    using m1 m' by (intro exI [of _ m']) (cases "socket_ok (envs uri)"; auto)
qed simp

lemma run_consumers:
  assumes "bitu_conn_manager_run env m uri = Some (m', st)"
  shows "cm_consumers m' = cm_consumers m"
proof -
  have "cm_consumers m2 = cm_consumers m1" if "bitu_conn_manager_shutdown m1 uri = Some (m2, st)" for m1 m2 st
    using that by (auto simp: bitu_conn_manager_shutdown_def split: bind_splits option.splits)
  then show ?thesis
    using assms by (auto simp: bitu_conn_manager_run_def Let_def split: bind_splits option.splits if_splits)
qed

lemma run_each_consumers:
  "run_each envs m uris k = Some (m', n) \<Longrightarrow> cm_consumers m' = cm_consumers m"
  by (induction uris arbitrary: m k) (auto simp: run_consumers split: bind_splits)

end
