(* ===== verification/Transport_Props.thy ===== *)
theory Transport_Props
  imports Transport_Correct Shell_Correct
begin

text \<open>
  The properties of the connection manager and of the three backends, and the way of a command
  line from a transport into the queue.
\<close>

section \<open>A manager with one transport, for the examples\<close>

definition example_iri :: "string \<Rightarrow> iri" where
  "example_iri scheme = \<lparr>iri_scheme = Some scheme, iri_user = Some ''bot:secret'', iri_host = Some ''host'',
     iri_port = 0, iri_path = Some ''/tmp/s'', iri_fragment = None, iri_text = scheme\<rparr>"

definition example_env :: backend_env where
  "example_env = \<lparr>be_sock = \<lparr>env_socket = 3, env_bind = True, env_listen = True\<rparr>, be_srv = [],
     be_default_port = 5222, be_xmpp_connect = TA_OK, be_xmpp_running = TA_OK, be_irc_session = True,
     be_irc_connect = False, be_irc_connected = False, be_send = TA_OK, be_wire = [], be_thread = True\<rparr>"

definition example_transport :: "backend \<Rightarrow> string \<Rightarrow> bitu_transport" where
  "example_transport b scheme = \<lparr>tr_uri = example_iri scheme, tr_data = None, tr_logger = Logger,
     tr_callbacks = all_of b, tr_commands = Manager_queue\<rparr>"

lemma example_manager:
  assumes "(b, scheme) \<in> {(Local, ''file''), (Xmpp, ''xmpp''), (Irc, ''irc'')}"
  obtains m where "cm_inv m" "lookup m ''uri'' = Some (example_transport b scheme)" "cm_commands m = bitu_queue_new"
    "lookup m ''other'' = None" "cm_room m" "dom (lookup m) = {''uri''}"
proof -
  obtain m0 where m0: "bitu_conn_manager_new = Some m0" "cm_inv m0" "\<forall>uri. lookup m0 uri = None"
    "cm_transports m0 = fresh_table hash_string True True"
    using cm_inv_new by blast
  have q0: "cm_commands m0 = bitu_queue_new"
    using m0(1) by (auto simp: bitu_conn_manager_new_def split: bind_splits)
  have r0: "cm_room m0"
    by (simp add: cm_room_def m0(4) fresh_map ht_capacity_def)
  have n: "bitu_transport_new (\<lambda>_. Some (example_iri scheme)) ''uri'' =
      Some (Inr ((example_transport b scheme)\<lparr>tr_commands := No_value\<rparr>))"
    using assms by (auto simp: transport_new_eq example_iri_def example_transport_def)
  obtain m p where m: "bitu_conn_manager_add (\<lambda>_. Some (example_iri scheme)) m0 ''uri'' = Some (m, p)" "cm_inv m"
    "lookup m = (lookup m0)(''uri'' \<mapsto> example_transport b scheme)"
    using add_run [OF m0(2) r0 n] m0(3) by (auto simp: example_transport_def)
  have q: "cm_commands m = cm_commands m0"
    using m(1) n by (auto simp: bitu_conn_manager_add_def Let_def split: bind_splits option.splits)
  have "dom (ht_map (cm_transports m)) = dom (lookup m)"
    using lookup_None [OF m(2)] by (simp add: dom_def del: not_None_eq)
  moreover have dom: "dom (lookup m) = {''uri''}"
    using m0(3) by (auto simp: m(3) split: if_splits)
  ultimately have "cm_room m"
    by (simp add: cm_room_def) (simp add: ht_capacity_def)
  then show ?thesis
    using that [of m] m q q0 m0(3) dom by simp
qed

section \<open>The manager\<close>

text \<open>
  Adding a transport: a URI that is already known gives the transport it has and changes
  nothing; one that does not parse or has no scheme gives NULL and changes nothing; a scheme that is not \<open>file\<close>,
  \<open>xmpp\<close> or \<open>irc\<close> has the error message read a string that has been freed; otherwise a new transport,
  connected to the common queue, is stored under the URI and all others stay. The invariant of the manager is kept.
\<close>
theorem manager_add_correct:
  assumes "cm_inv m" "cm_room m"
  shows "case lookup m uri of
       Some t \<Rightarrow> bitu_conn_manager_add parse m uri = Some (m, ht_map (cm_transports m) uri)
     | None \<Rightarrow> (case bitu_transport_new parse uri of
         None \<Rightarrow> bitu_conn_manager_add parse m uri = None
       | Some (Inl e) \<Rightarrow> bitu_conn_manager_add parse m uri = Some (m, None)
       | Some (Inr t) \<Rightarrow> \<exists>m'. bitu_conn_manager_add parse m uri = Some (m', Some (cm_brk m)) \<and> cm_inv m' \<and>
           lookup m' = (lookup m)(uri \<mapsto> t\<lparr>tr_commands := Manager_queue\<rparr>))"
  using add_run [OF assms, of uri parse] add_undefined [OF assms(1), of uri parse]
  by (auto split: option.splits sum.splits)

theorem manager_add_correct_witness:
  "\<exists>m m'. bitu_conn_manager_add (\<lambda>_. None) m ''other'' = Some (m', None) \<and> m' = m \<and> lookup m ''uri'' \<noteq> None"
proof -
  obtain m where "cm_inv m" "lookup m ''uri'' = Some (example_transport Local ''file'')" "lookup m ''other'' = None"
    "cm_room m"
    using example_manager [of Local "''file''"] by auto
  then show ?thesis
    using manager_add_correct [of m "\<lambda>_. None" "''other''"] by (auto simp: transport_new_eq)
qed

text \<open>
  The life of a local transport: it connects and gets a thread for its main loop
  (\<open>SPAWNED\<close>); while it is running it cannot be removed (\<open>STILL_RUNNING\<close>) and nothing changes;
  shutting it down succeeds, and then it can be removed, and the other transports stay.
\<close>
theorem local_transport_life:
  assumes "cm_inv m" "lookup m uri = Some t" "local_stopped t path" "tr_logger t = Logger" "socket_ok env"
    and "be_thread env"
  shows "\<exists>m1 t1 m2 t2 m3. bitu_conn_manager_run env m uri = Some (m1, STATUS_SPAWNED) \<and>
    lookup m1 = (lookup m)(uri \<mapsto> t1) \<and> bitu_transport_is_running env t1 = Some (Ta TA_OK) \<and>
    bitu_conn_manager_remove env m1 uri = Some (m1, STATUS_STILL_RUNNING) \<and>
    bitu_conn_manager_shutdown m1 uri = Some (m2, STATUS_OK) \<and>
    lookup m2 = (lookup m)(uri \<mapsto> t2) \<and> bitu_transport_is_running env t2 = Some (Ta TA_ERROR) \<and>
    bitu_conn_manager_remove env m2 uri = Some (m3, STATUS_OK) \<and>
    lookup m3 = (lookup m)(uri := None) \<and> cm_inv m3"
proof -
  have loc: "tr_callbacks t = all_of Local"
    using assms(3) by (simp add: local_stopped_def)
  obtain m1 a where m1: "bitu_conn_manager_run env m uri = Some (m1, STATUS_SPAWNED)" "cm_inv m1"
    "lookup m1 = (lookup m)(uri \<mapsto> with_server t (fresh_server a path (env_socket (be_sock env))))"
    using local_run_shape [OF assms(1-4,6)] assms(5) by auto
  let ?t1 = "with_server t (fresh_server a path (env_socket (be_sock env)))"
  have l1: "lookup m1 uri = Some ?t1"
    by (simp add: m1(3))
  have run1: "bitu_transport_is_running env ?t1 = Some (Ta TA_OK)"
    using loc by (simp add: local_running)
  have "bitu_transport_disconnect ?t1 = Some (server_freed t, Conn STATUS_OK)"
    using local_disconnect_ok [of ?t1 "fresh_server a path (env_socket (be_sock env))"] loc
    by (simp add: server_freed_def with_server_def)
  then obtain m2 where m2: "bitu_conn_manager_shutdown m1 uri = Some (m2, STATUS_OK)" "cm_inv m2"
    "lookup m2 = (lookup m1)(uri \<mapsto> server_freed t)"
    using shutdown_run [OF m1(2) l1] by (auto simp: rc_ok_def)
  have l2: "lookup m2 uri = Some (server_freed t)" and run2: "bitu_transport_is_running env (server_freed t) = Some (Ta TA_ERROR)"
    using loc by (simp_all add: m2(3) local_running)
  obtain m3 where m3: "bitu_conn_manager_remove env m2 uri = Some (m3, STATUS_OK)" "cm_inv m3"
    "lookup m3 = (lookup m2)(uri := None)"
    using remove_run [OF m2(2) l2 run2] by (auto simp: rc_ok_def)
  have "bitu_conn_manager_remove env m1 uri = Some (m1, STATUS_STILL_RUNNING)"
    by (rule remove_refuses [OF m1(2) l1 run1]) (simp add: rc_ok_def)
  then show ?thesis
    using m1 m2 m3 run1 run2 by (metis fun_upd_upd)
qed

theorem local_transport_life_witness:
  "\<exists>m m1. bitu_conn_manager_run example_env m ''uri'' = Some (m1, STATUS_SPAWNED) \<and>
     bitu_conn_manager_remove example_env m1 ''uri'' = Some (m1, STATUS_STILL_RUNNING)"
proof -
  obtain m where m: "cm_inv m" "lookup m ''uri'' = Some (example_transport Local ''file'')"
    using example_manager [of Local "''file''"] by auto
  have "local_stopped (example_transport Local ''file'') ''/tmp/s''" "tr_logger (example_transport Local ''file'') = Logger"
    "socket_ok example_env" "be_thread example_env"
    by (simp_all add: local_stopped_def example_transport_def example_iri_def socket_ok_def example_env_def)
  from local_transport_life [OF m this] show ?thesis
    by blast
qed

text \<open>
  What \<open>bitu_conn_manager_run\<close> may answer: \<open>TRANSPORT_NOT_FOUND\<close> exactly for an unknown
  URI, and otherwise \<open>SPAWNED\<close> with one more thread or \<open>CONNECTION_FAILED\<close> without; it never
  answers \<open>ALREADY_RUNNING\<close>, which its callers test for.
\<close>
theorem manager_run_statuses:
  assumes "cm_inv m" "bitu_conn_manager_run env m uri = Some (m', st)"
  shows "(st = STATUS_TRANSPORT_NOT_FOUND \<longleftrightarrow> lookup m uri = None) \<and>
    (st = STATUS_TRANSPORT_NOT_FOUND \<and> m' = m \<or>
     st = STATUS_SPAWNED \<and> length (cm_threads m') = Suc (length (cm_threads m)) \<or>
     st = STATUS_CONNECTION_FAILED \<and> cm_threads m' = cm_threads m)"
proof (cases "lookup m uri")
  case None
  then show ?thesis
    using assms by (auto simp: bitu_conn_manager_run_def get_transport_eq lookup_None)
next
  case (Some t)
  obtain a where a: "ht_map (cm_transports m) uri = Some a" "cm_heap m a = Some t"
    using assms(1) Some by (rule lookup_SomeE)
  have "cm_threads m2 = cm_threads m1" if "bitu_conn_manager_shutdown m1 uri = Some (m2, st)" for m1 m2 st
    using that by (auto simp: bitu_conn_manager_shutdown_def split: bind_splits option.splits)
  then show ?thesis
    using assms a Some
    by (auto simp: bitu_conn_manager_run_def get_transport_eq Let_def split: bind_splits if_splits)
qed

theorem manager_run_statuses_witness:
  "\<exists>m. bitu_conn_manager_run example_env m ''other'' = Some (m, STATUS_TRANSPORT_NOT_FOUND)"
proof -
  obtain m where m: "cm_inv m" "lookup m ''other'' = None"
    using example_manager [of Local "''file''"] by auto
  then have r: "bitu_conn_manager_run example_env m ''other'' = Some (m, STATUS_TRANSPORT_NOT_FOUND)"
    by (simp add: bitu_conn_manager_run_def get_transport_eq lookup_None)
  show ?thesis
    using manager_run_statuses [OF m(1) r] r by blast
qed

text \<open>
  Connecting a local transport that is running: the answer is \<open>CONNECTION_FAILED\<close>, and the
  server is disconnected and freed under the thread that is running it. The transport then
  points to the logger of the freed server, and the next attempt to connect it or to shut it
  down reads that logger.
\<close>
theorem local_transport_reconnect:
  assumes "cm_inv m" "lookup m uri = Some t" "tr_callbacks t = all_of Local" "tr_logger t = Logger"
    and "tr_data t = Some (Data_server server)" "ht_wf (sv_clients server)" "sv_sock server \<noteq> None"
  shows "\<exists>m' t'. bitu_conn_manager_run env m uri = Some (m', STATUS_CONNECTION_FAILED) \<and>
    lookup m' = (lookup m)(uri \<mapsto> t') \<and> tr_data t' = None \<and> cm_threads m' = cm_threads m \<and>
    bitu_conn_manager_run env' m' uri = None \<and> bitu_conn_manager_shutdown m' uri = None"
proof -
  obtain m' where m': "bitu_conn_manager_run env m uri = Some (m', STATUS_CONNECTION_FAILED)" "cm_inv m'"
    "lookup m' = (lookup m)(uri \<mapsto> server_freed t)" "cm_threads m' = cm_threads m"
    using local_run_again [OF assms] by blast
  have "lookup m' uri = Some (server_freed t)"
    by (simp add: m'(3))
  from logger_gone [OF m'(2) this] show ?thesis
    using m' by (intro exI [of _ m'] exI [of _ "server_freed t"]) simp
qed

theorem local_transport_reconnect_witness:
  "\<exists>m m1 m2. bitu_conn_manager_run example_env m ''uri'' = Some (m1, STATUS_SPAWNED) \<and>
     bitu_conn_manager_run example_env m1 ''uri'' = Some (m2, STATUS_CONNECTION_FAILED) \<and>
     bitu_conn_manager_run example_env m2 ''uri'' = None"
proof -
  let ?t = "example_transport Local ''file''"
  obtain m where m: "cm_inv m" "lookup m ''uri'' = Some ?t"
    using example_manager [of Local "''file''"] by auto
  have s: "local_stopped ?t ''/tmp/s''" "tr_logger ?t = Logger" "socket_ok example_env"
    by (simp_all add: local_stopped_def example_transport_def example_iri_def socket_ok_def example_env_def)
  let ?t1 = "\<lambda>a. ?t\<lparr>tr_data := Some (Data_server (fresh_server a ''/tmp/s'' (env_socket (be_sock example_env)))), tr_logger := Logger\<rparr>"
  obtain m1 a where m1: "bitu_conn_manager_run example_env m ''uri'' = Some (m1, STATUS_SPAWNED)" "cm_inv m1"
    "lookup m1 = (lookup m)(''uri'' \<mapsto> ?t1 a)"
    using run_spawned [OF m, of example_env ?t1 "Conn STATUS_OK"] local_connect_ok [OF s(3,1,2)]
    by (auto simp: rc_ok_def example_env_def)
  have l1: "lookup m1 ''uri'' = Some (?t1 a)"
    by (simp add: m1(3))
  have "tr_callbacks (?t1 a) = all_of Local" "tr_logger (?t1 a) = Logger"
    "tr_data (?t1 a) = Some (Data_server (fresh_server a ''/tmp/s'' (env_socket (be_sock example_env))))"
    "ht_wf (sv_clients (fresh_server a ''/tmp/s'' (env_socket (be_sock example_env))))"
    "sv_sock (fresh_server a ''/tmp/s'' (env_socket (be_sock example_env))) \<noteq> None"
    by (simp_all add: example_transport_def)
  from local_transport_reconnect [OF m1(2) l1 this, of example_env example_env] show ?thesis
    using m1(1) by blast
qed

text \<open>
  The IRC transport: when the first attempt to connect fails, the manager shuts the
  transport down, and the transport hands its null session to \<open>irc_disconnect\<close>.
\<close>
theorem irc_first_connection_fails:
  assumes "cm_inv m" "lookup m uri = Some t" "tr_callbacks t = all_of Irc" "tr_data t = None"
    and "\<not> be_irc_session env \<or> \<not> be_irc_connect env"
  shows "bitu_conn_manager_run env m uri = None"
proof -
  obtain a where a: "ht_map (cm_transports m) uri = Some a" "cm_heap m a = Some t" "tr_commands t = Manager_queue"
    using assms(1,2) by (rule lookup_SomeE)
  have "m\<lparr>cm_heap := (cm_heap m)(a \<mapsto> t)\<rparr> = m"
    using a(2) by (cases m) (simp add: fun_upd_idem)
  moreover have "bitu_conn_manager_shutdown m uri = None"
    by (rule shutdown_undefined [OF assms(1,2)]) (simp add: bitu_transport_disconnect_def assms(3,4) irc_disconnect_def)
  moreover have "bitu_transport_connect env a t = None \<or>
      bitu_transport_connect env a t = Some (t, Conn STATUS_CONNECTION_FAILED)"
    using assms(3-5) by (auto simp: bitu_transport_connect_def irc_connect_def irc_get_session_def tr_log_def require_def Let_def)
  ultimately show ?thesis
    using assms(1) a by (auto simp: bitu_conn_manager_run_def get_transport_eq rc_ok_def)
qed

theorem irc_first_connection_fails_witness:
  "\<exists>m. lookup m ''uri'' = Some (example_transport Irc ''irc'') \<and> bitu_conn_manager_run example_env m ''uri'' = None"
proof -
  obtain m where m: "cm_inv m" "lookup m ''uri'' = Some (example_transport Irc ''irc'')"
    using example_manager [of Irc "''irc''"] by auto
  then show ?thesis
    using irc_first_connection_fails [OF m, of example_env] by (auto simp: example_transport_def example_env_def)
qed

section \<open>The list of transports\<close>

text \<open>
  \<open>bitu_conn_manager_get_transports\<close> lists every URI of the manager exactly once, and
  \<open>bitu_conn_manager_get_n_transports\<close> is their number.
\<close>
theorem manager_lists_transports:
  assumes "ta_list_ok T" "cm_inv m"
  shows "\<exists>uris. bitu_conn_manager_get_transports T m = Some uris \<and> distinct uris \<and>
    set uris = dom (lookup m) \<and> length uris = bitu_conn_manager_get_n_transports m"
proof -
  obtain B where B: "ht_rep (cm_transports m) B"
    using cm_inv_wf [OF assms(2)] by (auto simp: ht_wf_def)
  have "unat (ht_size (cm_transports m)) = length (ht_entries (cm_transports m))"
    using ht_repD(7) [OF B] ht_entries_rep(1) [OF B] by simp
  moreover have "dom (lookup m) = dom (ht_map (cm_transports m))"
    using lookup_None [OF assms(2)] by (simp add: dom_def del: not_None_eq)
  ultimately show ?thesis
    using get_transports_run [OF assms] ht.entries_distinct [OF cm_inv_wf [OF assms(2)]]
      ht.keys_entries [OF cm_inv_wf [OF assms(2)]]
    by (simp add: bitu_conn_manager_get_n_transports_def)
qed

theorem manager_lists_transports_witness:
  "\<exists>m uris. bitu_conn_manager_get_transports plain_list_api m = Some uris \<and> ''uri'' \<in> set uris"
proof -
  obtain m where m: "cm_inv m" "lookup m ''uri'' = Some (example_transport Irc ''irc'')"
    using example_manager [of Irc "''irc''"] by auto
  have "''uri'' \<in> dom (lookup m)"
    using m(2) by (rule domI)
  then show ?thesis
    using manager_lists_transports [OF plain_list_ok m(1)] by metis
qed

section \<open>From a message to the queue\<close>

definition parsed_command :: "nat \<Rightarrow> string \<Rightarrow> string \<Rightarrow> bitu_command" where
  "parsed_command a from line = \<lparr>command_transport = Some a, command_from = Some from, command_cmd = line,
     command_name = Some (hd (tokens line)), command_params = tl (tokens line), command_nparams = int (length (tl (tokens line)))\<rparr>"

lemma message_received_run:
  assumes "ta_list_ok T" "cm_heap m a = Some t" "tr_commands t = Manager_queue" "tr_logger t = Logger" "plain_start (strip msg)"
  shows "message_received T glibc_alloc env m a from msg =
    (if q_maxsize (cm_commands m) \<le> length (q_list (cm_commands m)) then None
     else Some (m\<lparr>cm_commands := (cm_commands m)\<lparr>q_list :=
       Some (parsed_command a from (strip msg)) # q_list (cm_commands m)\<rparr>\<rparr>))"
proof -
  have T: "ta_len T xs = length xs" "ta_prepend T xs x = x # xs" for xs x
    using assms(1) by (simp_all add: ta_list_ok_def)
  have "bitu_command_new glibc_alloc (Some a) msg (Some from) = Some (parsed_command a from (strip msg))"
    using command_new_run [OF assms(5)] by (simp add: parsed_command_def)
  then show ?thesis
    using assms(2-4) by (simp add: message_received_def bitu_transport_queue_command_def tr_log_def bitu_queue_add_def T)
qed

text \<open>
  A message that a transport receives becomes one command at the end of the common queue, with
  the stripped text, its first token as the name and the others as parameters, the sender
  and the transport; on a full queue the transport waits and nothing is lost.
\<close>
theorem message_becomes_command:
  assumes "ta_list_ok T" "cm_heap m a = Some t" "tr_commands t = Manager_queue" "tr_logger t = Logger" "plain_start (strip msg)"
  shows "message_received T glibc_alloc env m a from msg =
    (if q_maxsize (cm_commands m) \<le> length (q_list (cm_commands m)) then None
     else Some (m\<lparr>cm_commands := (cm_commands m)\<lparr>q_list :=
       Some \<lparr>command_transport = Some a, command_from = Some from, command_cmd = strip msg,
             command_name = Some (hd (tokens (strip msg))), command_params = tl (tokens (strip msg)),
             command_nparams = int (length (tl (tokens (strip msg))))\<rparr> # q_list (cm_commands m)\<rparr>\<rparr>))"
  using message_received_run [OF assms] by (simp add: parsed_command_def)

theorem message_becomes_command_witness:
  "\<exists>m m' a. message_received plain_list_api glibc_alloc example_env m a ''me'' '' list plugins'' = Some m' \<and>
     q_list (cm_commands m') = [Some \<lparr>command_transport = Some a, command_from = Some ''me'', command_cmd = ''list plugins'',
       command_name = Some ''list'', command_params = [''plugins''], command_nparams = 1\<rparr>]"
proof -
  let ?t = "example_transport Local ''file''"
  obtain m where m: "cm_inv m" "lookup m ''uri'' = Some ?t" "cm_commands m = bitu_queue_new"
    using example_manager [of Local "''file''"] by auto
  obtain a where a: "cm_heap m a = Some ?t"
    using m(1,2) by (rule lookup_SomeE)
  have s: "strip '' list plugins'' = ''list plugins''"
    by code_simp
  have t: "tokens ''list plugins'' = [''list'', ''plugins'']"
    by code_simp
  have "plain_start (strip '' list plugins'')"
    unfolding s by (simp add: plain_start_def quote_def backslash_def blank_def)
  moreover have "tr_commands ?t = Manager_queue" "tr_logger ?t = Logger"
    by (simp_all add: example_transport_def)
  ultimately have "message_received plain_list_api glibc_alloc example_env m a ''me'' '' list plugins'' =
      Some (m\<lparr>cm_commands := (cm_commands m)\<lparr>q_list := [Some \<lparr>command_transport = Some a, command_from = Some ''me'',
        command_cmd = ''list plugins'', command_name = Some ''list'', command_params = [''plugins''], command_nparams = 1\<rparr>]\<rparr>\<rparr>)"
    using message_becomes_command [OF plain_list_ok a, of "'' list plugins''" example_env "''me''"]
    unfolding s t m(3) by (simp add: bitu_queue_new_def COMMAND_QUEUE_SIZE_def)
  then show ?thesis
    by (intro exI conjI) (assumption, simp)
qed

section \<open>A session on a local transport\<close>

text \<open>The callback of a server that belongs to the transport \<open>a\<close> handles messages as \<open>message_received\<close> does.\<close>

interpretation local_messages: message_handler "local_message_received T U env"
  "\<lambda>m s. message_received T U env m a cid s" "server\<lparr>sv_data := Some a\<rparr>" cid
  for T U env a cid server
  by unfold_locales (simp add: local_message_received_def bitu_server_get_data_def)

lemma message_fold:
  assumes "ta_list_ok T" "cm_heap m a = Some t" "tr_commands t = Manager_queue" "tr_logger t = Logger"
    and "\<forall>s \<in> set msgs. plain_start (strip s)"
    and "length (q_list (cm_commands m)) + length msgs \<le> q_maxsize (cm_commands m)"
  shows "fold_opt (\<lambda>m s. message_received T glibc_alloc env m a cid s) m msgs =
    Some (m\<lparr>cm_commands := (cm_commands m)\<lparr>q_list :=
      rev (map (\<lambda>s. Some (parsed_command a cid (strip s))) msgs) @ q_list (cm_commands m)\<rparr>\<rparr>)"
  using assms(2,5,6)
proof (induction msgs arbitrary: m)
  case (Cons s msgs)
  let ?m1 = "m\<lparr>cm_commands := (cm_commands m)\<lparr>q_list := Some (parsed_command a cid (strip s)) # q_list (cm_commands m)\<rparr>\<rparr>"
  have "message_received T glibc_alloc env m a cid s = Some ?m1"
    using message_received_run [OF assms(1) Cons.prems(1) assms(3,4), of s env cid] Cons.prems(2,3) by simp
  then show ?case
    using Cons.IH [of ?m1] Cons.prems by simp
qed simp

text \<open>
  C17. A connection to a running local transport: the client's messages, each collected from its pieces,
  become commands in the common queue, in the order of their arrival and marked with the
  transport and the client; nothing else of the manager changes; when the client says good bye
  it is forgotten and the server goes on, here until it is shut down.
\<close>
theorem local_session_queues:
  assumes "ta_list_ok T" "cm_heap m a = Some t" "tr_commands t = Manager_queue" "tr_logger t = Logger" "tr_data t = Some (Data_server server)"
    and "sv_data server = Some a" "sv_can_run server" "sv_callback server"
    and "ht_wf (sv_clients server)" "length (ht_entries (sv_clients server)) < 1610612741" "length uuid = 36"
    and "list_all2 (message_of glibc_alloc) events msgs" "goodbye glibc_alloc last_events"
    and "\<forall>s \<in> set msgs. NUL \<notin> set s \<and> plain_start (strip s)"
    and "length (q_list (cm_commands m)) + length msgs \<le> q_maxsize (cm_commands m)"
  shows "\<exists>clients. ht_map clients = (ht_map (sv_clients server))(uuid := None) \<and>
    local_run T glibc_alloc env m a [Accepted sock uuid (events @ [last_events]), Accept_error True] =
      Some (server\<lparr>sv_clients := clients, sv_can_run := False\<rparr>,
        m\<lparr>cm_commands := (cm_commands m)\<lparr>q_list :=
          rev (map (\<lambda>s. Some (parsed_command a uuid (strip s))) msgs) @ q_list (cm_commands m)\<rparr>\<rparr>)"
proof -
  have handler: "local_message_received T glibc_alloc env st (server\<lparr>sv_clients := c\<rparr>) uuid s =
      message_received T glibc_alloc env st a uuid s" for st c s
  proof -
    have "server\<lparr>sv_clients := c\<rparr> = server\<lparr>sv_clients := c, sv_data := Some a\<rparr>"
      using assms(6) by (cases server) simp
    then show ?thesis
      using local_messages.handles [where server = "server\<lparr>sv_clients := c\<rparr>" and a = a] by simp
  qed
  obtain clients where c: "ht_map clients = (ht_map (sv_clients server))(uuid := None)"
    "bitu_server_run glibc_alloc (local_message_received T glibc_alloc env) server
       (Accepted sock uuid (events @ [last_events]) # [Accept_error True]) m =
     do { st \<leftarrow> fold_opt (\<lambda>m s. message_received T glibc_alloc env m a uuid s) m (map c_string msgs);
          bitu_server_run glibc_alloc (local_message_received T glibc_alloc env) (server\<lparr>sv_clients := clients\<rparr>)
            [Accept_error True] st }"
    using serve_client [OF assms(9,10,7,8,11-13), of sock "local_message_received T glibc_alloc env"
        "\<lambda>m s. message_received T glibc_alloc env m a uuid s" "[Accept_error True]" m, OF handler] by blast
  have "map c_string msgs = msgs"
    using assms(14) by (intro map_idI) simp
  moreover have "\<forall>s \<in> set msgs. plain_start (strip s)"
    using assms(14) by blast
  ultimately show ?thesis
    using c message_fold [OF assms(1-4) _ assms(15), of env uuid] assms(2,5)
    by (intro exI [of _ clients]) (simp add: local_run_def)
qed

theorem local_session_queues_witness:
  "\<exists>m a server m'. local_run plain_list_api glibc_alloc example_env m a
     [Accepted 5 (replicate 36 (CHR 0x61)) [[piece ''list p'', piece ''lugins'', Select_none], [piece ''exit'', Select_none]], Accept_error True] =
     Some (server, m') \<and>
   q_list (cm_commands m') = [Some (parsed_command a (replicate 36 (CHR 0x61)) ''list plugins'')]"
proof -
  let ?t = "(example_transport Local ''file'')\<lparr>tr_data := Some (Data_server (fresh_server 0 ''/tmp/s'' 3))\<rparr>"
  obtain m0 where m0: "bitu_conn_manager_new = Some m0" "cm_inv m0"
    using cm_inv_new by blast
  define m where "m = m0\<lparr>cm_heap := [0 \<mapsto> ?t]\<rparr>"
  have q: "cm_commands m = bitu_queue_new"
    using m0(1) by (auto simp: m_def bitu_conn_manager_new_def split: bind_splits)
  have t: "cm_heap m 0 = Some ?t" "tr_commands ?t = Manager_queue" "tr_logger ?t = Logger"
    "tr_data ?t = Some (Data_server (fresh_server 0 ''/tmp/s'' 3))"
    by (simp_all add: m_def example_transport_def)
  have s: "sv_data (fresh_server 0 ''/tmp/s'' 3) = Some 0" "sv_can_run (fresh_server 0 ''/tmp/s'' 3)"
    "sv_callback (fresh_server 0 ''/tmp/s'' 3)" "ht_wf (sv_clients (fresh_server 0 ''/tmp/s'' 3))"
    "length (ht_entries (sv_clients (fresh_server 0 ''/tmp/s'' 3))) < 1610612741"
    by (simp_all add: fresh_entries)
  have u: "length (replicate 36 (CHR 0x61)) = 36"
    by simp
  have ms: "list_all2 (message_of glibc_alloc) [[piece ''list p'', piece ''lugins'', Select_none]] [''list plugins'']"
    using glibc.recv_message_pieces [of "[''list p'', ''lugins'']"]
    by (simp add: message_of_def says_goodbye_def c_string_def NUL_def)
  have g: "goodbye glibc_alloc [piece ''exit'', Select_none]"
    using glibc.recv_message_pieces [of "[''exit'']"]
    by (simp add: goodbye_def says_goodbye_def c_string_def NUL_def)
  have st: "strip ''list plugins'' = ''list plugins''"
    by code_simp
  have p: "\<forall>s \<in> set [''list plugins'']. NUL \<notin> set s \<and> plain_start (strip s)"
    by (simp add: st plain_start_def quote_def backslash_def blank_def NUL_def)
  have r: "length (q_list (cm_commands m)) + length [''list plugins''] \<le> q_maxsize (cm_commands m)"
    by (simp add: q bitu_queue_new_def COMMAND_QUEUE_SIZE_def)
  show ?thesis
    using local_session_queues [OF plain_list_ok t s(1-3) s(4,5) u ms g p r, of example_env 5]
    by (intro exI [of _ m] exI [of _ 0]) (auto simp: st q bitu_queue_new_def)
qed

section \<open>Recorded errors\<close>

lemma error_numbers: "inj error_number"
proof (rule injI)
  fix e e'
  show "error_number e = error_number e' \<Longrightarrow> e = e'"
    by (cases e; cases e') simp_all
qed

text \<open>
  An IRC transport records an error exactly when it could not connect. An XMPP transport records one when it returns
  \<open>TA_ERROR\<close>, which takes a missing host: a missing user or password, which the recorded text names as well, is
  undefined behaviour before. A connection that the server refuses records nothing.
\<close>

lemma irc_errors_recorded:
  "irc_connect env t = Some (t', rc) \<Longrightarrow> rc_ok rc \<longleftrightarrow> irc_connect_error env t = None"
  by (auto simp: irc_connect_def irc_connect_error_def irc_get_session_def rc_ok_def Let_def
      split: option.splits tr_data.splits if_splits)

lemma xmpp_errors_recorded:
  "xmpp_connect env t = Some (t', rc) \<Longrightarrow> rc = Ta TA_ERROR \<longleftrightarrow> xmpp_connect_error t \<noteq> None"
  "iri_user (tr_uri t) = None \<Longrightarrow> xmpp_connect env t = None"
  by (auto simp: xmpp_connect_def xmpp_connect_error_def split_user_def Let_def bind_eq_Some_conv
      split: option.splits if_splits)

end
