(* ===== verification/App_Props.thy ===== *)
theory App_Props
  imports App_Correct Transport_Props
begin

text \<open>
  The properties of the application: its invariant, its environment, how a command finds its
  handler, the lists it answers with, the life of a plugin and the start of the transports.
\<close>

section \<open>An application, for the examples\<close>

definition example_app_env :: "(string \<Rightarrow> dl_library option) \<Rightarrow> app_env" where
  "example_app_env dl = \<lparr>ae_alloc = glibc_alloc, ae_list = plain_list_api, ae_buf = (@),
     ae_parse = \<lambda>_. None, ae_backend = example_env, ae_dl = dl, ae_open = \<lambda>_. -1, ae_strerror = ''error''\<rparr>"

definition line_command :: "string \<Rightarrow> string list \<Rightarrow> bitu_command" where
  "line_command name params = \<lparr>command_transport = None, command_from = None,
     command_cmd = concat (map (\<lambda>w. w @ [blank]) (butlast (name # params))) @ last (name # params),
     command_name = Some name, command_params = params, command_nparams = int (length params)\<rparr>"

lemma line_command_is [simp]: "is_command name params (line_command name params)"
  by (simp add: is_command_def line_command_def)

lemma glibc_room: "n \<le> glibc_alloc n"
  by (rule glibc_alloc_ge)

section \<open>The invariant\<close>

text \<open>
  C9. A new application satisfies the invariant, and every command that has a defined result keeps
  it, whether it is built in or runs a plugin: the tables stay well-formed, every plugin is
  stored under its own name, every URI leads to a transport of its own, and the table of
  built-in commands never changes.
\<close>
theorem app_keeps_invariant:
  assumes "app_inv app" "app_room app" "bitu_app_exec_command E app c = Some (app', out, st)"
  shows "app_inv app' \<and> ap_commands app' = ap_commands app \<and>
    (\<exists>app0. bitu_app_new = Some app0 \<and> app_inv app0 \<and> app_room app0)"
  using exec_inv [OF assms] app_new_run by blast

theorem app_keeps_invariant_witness:
  "\<exists>app app'. bitu_app_exec_command (example_app_env (\<lambda>_. None)) app (line_command ''set'' [''a'', ''b'']) =
     Some (app', None, TA_OK) \<and> app_inv app' \<and> env_of app' = [''a'' \<mapsto> ''b'']"
proof -
  obtain app where app: "app_inv app" "app_room app" "env_of app = Map.empty"
    using app_new_run by blast
  obtain app' where "bitu_app_exec_command (example_app_env (\<lambda>_. None)) app (line_command ''set'' [''a'', ''b'']) =
      Some (app', None, TA_OK)" "env_of app' = [''a'' \<mapsto> ''b'']"
    using env_exec [OF app(1), of "Env_set ''a'' ''b''" "line_command ''set'' [''a'', ''b'']"] app(2,3)
    by (auto simp: app_room_def env_of_def)
  then show ?thesis
    using app_keeps_invariant [OF app(1,2)] by blast
qed

section \<open>The environment\<close>

text \<open>
  C10. The environment is a finite map: any sequence of \<open>set\<close>, \<open>unset\<close> and \<open>get\<close> commands,
  executed one after the other, changes it as the map operations do and answers as the map
  does (\<open>set\<close> and \<open>unset\<close> with nothing, \<open>get\<close> with the value or nothing), and changes
  nothing else of the application. As a configuration file the same sequence has a defined
  result exactly when no \<open>get\<close> finds a value, because an answer makes the code read the
  command that it has just freed.
\<close>
theorem environment_commands:
  assumes "app_inv app" "card (dom (env_of app)) + length ops \<le> 1610612741" "list_all2 env_command ops cs"
  shows "\<exists>app'. exec_all E app cs = Some (app', env_answers ops (env_of app)) \<and> app_inv app' \<and>
    env_of app' = fold env_step ops (env_of app) \<and> only_environment app app' \<and>
    bitu_app_load_config E app cs =
      (if set (env_answers ops (env_of app)) \<subseteq> {None} then Some app' else None)"
  using env_run [OF assms(1) _ assms(3), of E] assms(2)
  by (auto simp: load_config_eq ht_capacity_def)

theorem environment_commands_witness:
  "\<exists>app app'. bitu_app_new = Some app \<and>
    exec_all (example_app_env (\<lambda>_. None)) app
      [line_command ''set'' [''a'', ''1''], line_command ''get'' [''a''], line_command ''unset'' [''a''], line_command ''get'' [''a'']] =
    Some (app', [None, Some ''1'', None, None]) \<and> env_of app' = Map.empty"
proof -
  obtain app where app: "bitu_app_new = Some app" "app_inv app" "env_of app = Map.empty"
    using app_new_run by blast
  have "list_all2 env_command [Env_set ''a'' ''1'', Env_get ''a'', Env_unset ''a'', Env_get ''a'']
      [line_command ''set'' [''a'', ''1''], line_command ''get'' [''a''], line_command ''unset'' [''a''], line_command ''get'' [''a'']]"
    by simp
  from environment_commands [OF app(2) _ this, of "example_app_env (\<lambda>_. None)"] show ?thesis
    using app(1,3) by auto
qed

section \<open>Finding the handler\<close>

lemma dispatch_run:
  assumes "app_inv app" "ae_alloc E = glibc_alloc" "is_command name params c" "plain_start (strip (command_cmd c))"
  shows "case map_of builtins name of
      Some f \<Rightarrow> bitu_app_exec_command E app c =
        do { (app, out) \<leftarrow> run_builtin E f app params (int (length params)); Some (app, out, TA_OK) }
    | None \<Rightarrow> (case find (\<lambda>p. matches (command_cmd c) p) (map snd (ht_entries (ap_plugin_ctx app))) of
        Some p \<Rightarrow> bitu_app_exec_command E app c = map_option (\<lambda>out. (app, out, TA_OK)) (pl_execute p c)
      | None \<Rightarrow> (case plugins_of app (command_cmd c) of
          Some p \<Rightarrow> pl_name p = command_cmd c \<and> bitu_app_exec_command E app c =
              map_option (\<lambda>out. (app, out, TA_OK)) (pl_execute p c)
        | None \<Rightarrow> bitu_app_exec_command E app c =
            (let answer = take 127 (''No handler for the following command: `'' @ command_cmd c @ [CHR 0x27]) in
             if plain_format answer then Some (app, Some answer, TA_ERROR) else None)))"
proof (cases "map_of builtins name")
  case (Some f)
  then show ?thesis
    using exec_builtin [OF assms(1,3)] by simp
next
  case None
  have n: "command_name c = Some name"
    using assms(3) by (simp add: is_command_def)
  have f: "find (matches (command_cmd c)) (map snd es) = map_option snd (find (\<lambda>e. matches (command_cmd c) (snd e)) es)" for es
    by (induction es) auto
  show ?thesis
    using exec_other [OF assms(1) n None assms(2,4)] None app_invD(6) [OF assms(1)]
    by (auto simp: serving_plugin_def f plugins_of_def snprintf_def apostrophe_def split: option.splits)
qed

text \<open>
  C15. How a command finds its handler. A built-in command is run whatever plugins are loaded.
  Otherwise the first plugin that recognises the line executes it, and if none does, the
  plugin whose name is the whole line, not its first word. If there is none either, the
  answer says so and the status is an error; but that answer is then taken for a format, so
  that a percent sign in it that is not doubled makes the result undefined.
\<close>
theorem command_dispatch:
  assumes "app_inv app" "ae_alloc E = glibc_alloc" "is_command name params c" "plain_start (strip (command_cmd c))"
  shows "case map_of builtins name of
      Some f \<Rightarrow> bitu_app_exec_command E app c =
        do { (app, out) \<leftarrow> run_builtin E f app params (int (length params)); Some (app, out, TA_OK) }
    | None \<Rightarrow> (case find (\<lambda>p. matches (command_cmd c) p) (map snd (ht_entries (ap_plugin_ctx app))) of
        Some p \<Rightarrow> bitu_app_exec_command E app c = map_option (\<lambda>out. (app, out, TA_OK)) (pl_execute p c)
      | None \<Rightarrow> (case plugins_of app (command_cmd c) of
          Some p \<Rightarrow> pl_name p = command_cmd c \<and> bitu_app_exec_command E app c =
              map_option (\<lambda>out. (app, out, TA_OK)) (pl_execute p c)
        | None \<Rightarrow> bitu_app_exec_command E app c =
            (let answer = take 127 (''No handler for the following command: `'' @ command_cmd c @ [CHR 0x27]) in
             if plain_format answer then Some (app, Some answer, TA_ERROR) else None)))"
  by (rule dispatch_run [OF assms])

theorem command_dispatch_witness:
  "\<exists>app. bitu_app_exec_command (example_app_env (\<lambda>_. None)) app (line_command ''hi'' []) =
      Some (app, Some (''No handler for the following command: `hi'' @ [CHR 0x27]), TA_ERROR) \<and>
    bitu_app_exec_command (example_app_env (\<lambda>_. None)) app (line_command ''100%'' [''sure'']) = None"
proof -
  obtain app where app: "app_inv app" "plugins_of app = Map.empty"
    using app_new_run by blast
  have wf: "ht_wf (ap_plugin_ctx app)"
    by (rule app_invD(5) [OF app(1)])
  have e: "ht_entries (ap_plugin_ctx app) = []"
    using ht.keys_entries [OF wf] app(2) by (simp add: plugins_of_def)
  have a: "ae_alloc (example_app_env (\<lambda>_. None)) = glibc_alloc"
    by (simp add: example_app_env_def)
  have s: "strip (command_cmd (line_command ''hi'' [])) = ''hi''"
    "strip (command_cmd (line_command ''100%'' [''sure''])) = ''100% sure''"
    by code_simp+
  have p: "plain_start (strip (command_cmd (line_command ''hi'' [])))"
    "plain_start (strip (command_cmd (line_command ''100%'' [''sure''])))"
    unfolding s by (simp_all add: plain_start_def quote_def backslash_def blank_def)
  have b: "map_of builtins ''hi'' = None" "map_of builtins ''100%'' = None"
    by (simp_all add: builtins_def)
  have f: "plain_format (''No handler for the following command: `hi'' @ [CHR 0x27])"
    "\<not> plain_format (take 127 (''No handler for the following command: `'' @ command_cmd (line_command ''100%'' [''sure'']) @ [CHR 0x27]))"
    by code_simp+
  have c: "command_cmd (line_command ''hi'' []) = ''hi''"
    by (simp add: line_command_def)
  have 1: "bitu_app_exec_command (example_app_env (\<lambda>_. None)) app (line_command ''hi'' []) =
      Some (app, Some (''No handler for the following command: `hi'' @ [CHR 0x27]), TA_ERROR)"
    using command_dispatch [OF app(1) a line_command_is p(1)] f(1) by (simp add: e b app(2) c)
  have 2: "bitu_app_exec_command (example_app_env (\<lambda>_. None)) app (line_command ''100%'' [''sure'']) = None"
    using command_dispatch [OF app(1) a line_command_is p(2)] f(2) by (simp only: e b app(2) Let_def) simp
  show ?thesis
    using 1 2 by blast
qed

section \<open>Numbers of parameters\<close>

text \<open>
  What each command asks for: the name it shows in the error message, the number of parameters,
  and whether more are allowed.
\<close>

fun takes :: "builtin \<Rightarrow> (string \<times> int \<times> bool) option" where
  "takes Cmd_set = Some (''set'', 2, False)"
| "takes Cmd_get = Some (''set'', 1, False)"
| "takes Cmd_unset = Some (''unset'', 1, False)"
| "takes Cmd_env = Some (''env'', 0, False)"
| "takes Cmd_transport = Some (''transport'', 1, True)"
| "takes Cmd_load = Some (''load'', 1, False)"
| "takes Cmd_unload = Some (''unload'', 1, False)"
| "takes Cmd_list = Some (''list'', 1, False)"
| "takes Cmd_set_log_file = Some (''set-log-file'', 1, False)"
| "takes Cmd_set_log_level = Some (''set-log-level'', 1, True)"
| "takes Cmd_set_log_use_colors = Some (''set-log-use-colors'', 1, False)"
| "takes Cmd_help = None"
| "takes Cmd_send = None"

text \<open>
  C39. A built-in command that is given a wrong number of parameters changes nothing and answers
  with the error, cut at 127 characters; in it each command shows its own name, except
  \<open>get\<close>, which shows \<open>set\<close>.
\<close>
theorem parameter_count_errors:
  assumes "map_of builtins name = Some f" "takes f = Some (shown, x, open_ended)"
    and "if open_ended then n < x else n \<noteq> x"
  shows "run_builtin E f app params n = Some (app, Some (take 127
      (''Command `'' @ shown @ [CHR 0x27] @ '' takes '' @ show_int x @ '' param(s), '' @ show_int n @ '' given''))) \<and>
    shown = (if name = ''get'' then ''set'' else name)"
proof
  show "run_builtin E f app params n = Some (app, Some (take 127
      (''Command `'' @ shown @ [CHR 0x27] @ '' takes '' @ show_int x @ '' param(s), '' @ show_int n @ '' given'')))"
    using assms(2,3)
    by (cases f) (auto simp: run_builtin_def cmd_set_def cmd_get_def cmd_unset_def cmd_env_def cmd_transport_def
        cmd_load_def cmd_unload_def cmd_list_def cmd_set_log_file_def cmd_set_log_level_def cmd_set_log_use_colors_def
        checked_def validate_num_params_def validate_min_num_params_def params_error_def snprintf_def apostrophe_def)
  show "shown = (if name = ''get'' then ''set'' else name)"
    using assms(1,2) by (cases f) (auto simp: builtins_def split: if_splits)
qed

theorem parameter_count_errors_witness:
  "\<exists>app. bitu_app_new = Some app \<and> run_builtin (example_app_env (\<lambda>_. None)) Cmd_get app [] 0 =
     Some (app, Some (''Command `set'' @ [CHR 0x27] @ '' takes 1 param(s), 0 given''))"
proof -
  obtain app where app: "bitu_app_new = Some app"
    using app_new_run by blast
  have "show_int 1 = ''1''" "show_int 0 = ''0''"
    by code_simp+
  then show ?thesis
    using parameter_count_errors [of "''get''" Cmd_get "''set''" 1 False 0 "example_app_env (\<lambda>_. None)" app "[]"]
    by (intro exI [of _ app]) (simp add: builtins_def app)
qed

section \<open>Lists in answers\<close>

text \<open>
  C38. The commands that answer with a list: \<open>list commands\<close> names every built-in command,
  \<open>list plugins\<close> every plugin that is loaded and \<open>env\<close> every variable of the environment,
  each exactly once and one per line, with no line break at the end; an empty list is no
  answer. For \<open>env\<close> the names must have less than 256 characters: its block grows by 256 bytes
  for each name, and a longer one is written beyond its end.
\<close>
theorem list_answers:
  assumes "app_inv app" "\<And>n. n \<le> ae_alloc E n" "ta_list_ok (ae_list E)"
  shows "(\<exists>names. distinct names \<and> set names = fst ` set builtins \<and>
      run_builtin E Cmd_list app [''commands''] 1 = Some (app, Some (join_lines names))) \<and>
    (\<exists>names. distinct names \<and> set names = dom (plugins_of app) \<and>
      run_builtin E Cmd_list app [''plugins''] 1 = Some (app, if names = [] then None else Some (join_lines names))) \<and>
    ((\<forall>k \<in> dom (env_of app). length k < 256) \<longrightarrow> (\<exists>names. distinct names \<and> set names = dom (env_of app) \<and>
      run_builtin E Cmd_env app [] 0 = Some (app, if names = [] then None else Some (join_lines names)))) \<and>
    (\<forall>k v. env_of app = [k \<mapsto> v] \<and> ae_alloc E 256 < length k + 1 \<longrightarrow> run_builtin E Cmd_env app [] 0 = None)"
  using cmd_list_commands_run [OF assms(1,2)] cmd_list_plugins_run [OF assms] cmd_env_run [OF assms(1,2)]
    env_overrun [OF assms(1)]
  by (simp add: run_builtin_def)

theorem list_answers_witness:
  "\<exists>app. env_of app = [''a'' \<mapsto> ''b''] \<and>
    run_builtin (example_app_env (\<lambda>_. None)) Cmd_env app [] 0 = Some (app, Some ''a'')"
proof -
  obtain app0 where app0: "app_inv app0" "app_room app0" "env_of app0 = Map.empty"
    using app_new_run by blast
  then obtain app where app: "app_inv app" "env_of app = [''a'' \<mapsto> ''b'']"
    using env_exec [OF app0(1), of "Env_set ''a'' ''b''" "line_command ''set'' [''a'', ''b'']"]
    by (auto simp: app_room_def env_of_def)
  let ?E = "example_app_env (\<lambda>_. None)"
  have E: "\<And>n. n \<le> ae_alloc ?E n" "ta_list_ok (ae_list ?E)"
    by (simp_all add: example_app_env_def glibc_room plain_list_ok)
  obtain names where n: "distinct names" "set names = {''a''}"
    "run_builtin ?E Cmd_env app [] 0 = Some (app, if names = [] then None else Some (join_lines names))"
    using list_answers [OF app(1) E] app(2) by auto
  then have "names = [''a'']"
    by (cases names; cases "tl names") auto
  then show ?thesis
    using n(3) app(2) by auto
qed

section \<open>The life of a plugin\<close>

lemma libname_eq: "libname x = ''lib'' @ x @ ''.so''"
  by (simp add: libname_def snprintf_def)

lemma no_match_find: "(\<And>p. p \<in> ran (ht_map h) \<Longrightarrow> \<not> matches cmd p) \<Longrightarrow> ht_wf h \<Longrightarrow>
    find (matches cmd) (map snd (ht_entries h)) = None"
  using ht.in_entries [of h] by (fastforce simp: find_None_iff ran_def)

text \<open>
  The life of a plugin without a matching function: \<open>load x\<close> looks for the library
  \<open>libx.so\<close>, and the plugin in it is then known under the name that the library gives
  itself. The line that consists of that name is executed by the plugin (when no other
  plugin claims the line), and \<open>unload\<close> with that name removes it again, and only it. A
  library that cannot be loaded is reported and changes nothing.
\<close>
theorem plugin_life:
  assumes "app_inv app" "app_room app" "ae_alloc E = glibc_alloc"
    and "ae_dl E (''lib'' @ x @ ''.so'') = Some \<lparr>dl_plugin_name = Some nm, dl_plugin_execute = Some ex, dl_plugin_match = None\<rparr>"
    and "ae_dl E (''lib'' @ y @ ''.so'') = None"
    and "map_of builtins nm = None" "plain_start (strip nm)" "\<forall>p \<in> ran (plugins_of app). \<not> matches nm p"
    and "is_command ''load'' [x] c1" "is_command nm [] c2" "command_cmd c2 = nm" "is_command ''unload'' [nm] c3"
    and "is_command ''load'' [y] c4"
  shows "\<exists>app1 app2. bitu_app_exec_command E app c1 = Some (app1, None, TA_OK) \<and>
    dom (plugins_of app1) = insert nm (dom (plugins_of app)) \<and>
    bitu_app_exec_command E app1 c2 = map_option (\<lambda>out. (app1, out, TA_OK)) (ex c2) \<and>
    bitu_app_exec_command E app1 c3 = Some (app2, None, TA_OK) \<and>
    plugins_of app2 = (plugins_of app)(nm := None) \<and>
    bitu_app_exec_command E app c4 = Some (app, Some ''Unable to load module'', TA_OK)"
proof -
  let ?p = "\<lparr>pl_handle = ''lib'' @ x @ ''.so'', pl_name = nm, pl_execute = ex, pl_match = None\<rparr>"
  have r: "card (dom (ht_map (ap_plugin_ctx app))) < ht_capacity"
    using assms(2) by (simp add: app_room_def)
  have l: "bitu_plugin_load (ae_dl E) (libname x) = Some ?p" "bitu_plugin_load (ae_dl E) (libname y) = None"
    using assms(4,5) by (simp_all add: bitu_plugin_load_def libname_eq)
  obtain ctx where ctx: "bitu_plugin_ctx_load (ae_dl E) (ap_plugin_ctx app) (libname x) = Some (ctx, TA_OK)"
    "ht_map ctx = (plugins_of app)(nm \<mapsto> ?p)"
    using plugin_load_run [OF app_invD(5) [OF assms(1)] r, of "ae_dl E" "libname x"] l(1) by (auto simp: plugins_of_def)
  let ?app1 = "app\<lparr>ap_plugin_ctx := ctx\<rparr>"
  have c1: "bitu_app_exec_command E app c1 = Some (?app1, None, TA_OK)"
    using ctx(1) by (simp add: exec_builtin [OF assms(1,9) builtin_names(5)] run_builtin_def cmd_load_def checked_def validate_num_params_def)
  have inv: "app_inv ?app1"
    using exec_inv [OF assms(1,2) c1] by simp
  have "find (matches nm) (map snd (ht_entries ctx)) = None"
  proof (rule no_match_find)
    show "ht_wf ctx"
      using app_invD(5) [OF inv] by simp
    show "\<not> matches nm p" if "p \<in> ran (ht_map ctx)" for p
      using that assms(8) by (auto simp: ctx(2) ran_def matches_def split: if_splits)
  qed
  then have c2: "bitu_app_exec_command E ?app1 c2 = map_option (\<lambda>out. (?app1, out, TA_OK)) (ex c2)"
    using dispatch_run [OF inv assms(3,10)] assms(6,7,11) ctx(2) by (simp add: plugins_of_def)
  obtain ctx2 where ctx2: "bitu_plugin_ctx_unload ctx nm = Some (ctx2, True)" "ht_map ctx2 = (ht_map ctx)(nm := None)"
    using plugin_unload_run [of ctx nm] app_invD(5) [OF inv] ctx(2) by auto
  have c3: "bitu_app_exec_command E ?app1 c3 = Some (?app1\<lparr>ap_plugin_ctx := ctx2\<rparr>, None, TA_OK)"
    using ctx2(1) by (simp add: exec_builtin [OF inv assms(12) builtin_names(6)] run_builtin_def cmd_unload_def checked_def validate_num_params_def)
  have c4: "bitu_app_exec_command E app c4 = Some (app, Some ''Unable to load module'', TA_OK)"
    by (simp add: exec_builtin [OF assms(1,13) builtin_names(5)] run_builtin_def cmd_load_def checked_def
        validate_num_params_def bitu_plugin_ctx_load_def l(2))
  show ?thesis
    using c1 c2 c3 c4 ctx(2) ctx2(2)
    by (intro exI [of _ ?app1] exI [of _ "?app1\<lparr>ap_plugin_ctx := ctx2\<rparr>"]) (simp add: plugins_of_def)
qed

theorem plugin_life_witness:
  "\<exists>E app app1 app2. bitu_app_new = Some app \<and>
    bitu_app_exec_command E app (line_command ''load'' [''uptime'']) = Some (app1, None, TA_OK) \<and>
    bitu_app_exec_command E app1 (line_command ''uptime'' []) = Some (app1, Some ''up'', TA_OK) \<and>
    bitu_app_exec_command E app1 (line_command ''unload'' [''uptime'']) = Some (app2, None, TA_OK)"
proof -
  define lib where "lib = \<lparr>dl_plugin_name = Some ''uptime'', dl_plugin_execute = Some (\<lambda>c. Some (Some ''up'')), dl_plugin_match = None\<rparr>"
  define E where "E = example_app_env [''libuptime.so'' \<mapsto> lib]"
  obtain app where app: "bitu_app_new = Some app" "app_inv app" "app_room app" "plugins_of app = Map.empty"
    using app_new_run by blast
  have s: "strip ''uptime'' = ''uptime''"
    by code_simp
  have 1: "ae_alloc E = glibc_alloc"
    by (simp add: E_def example_app_env_def)
  have 2: "ae_dl E (''lib'' @ ''uptime'' @ ''.so'') = Some \<lparr>dl_plugin_name = Some ''uptime'',
      dl_plugin_execute = Some (\<lambda>c. Some (Some ''up'')), dl_plugin_match = None\<rparr>"
    "ae_dl E (''lib'' @ ''no'' @ ''.so'') = None"
    by (simp_all add: E_def example_app_env_def lib_def)
  have 3: "map_of builtins ''uptime'' = None"
    by (simp add: builtins_def)
  have 4: "plain_start (strip ''uptime'')"
    unfolding s by (simp add: plain_start_def quote_def backslash_def blank_def)
  have 5: "\<forall>p \<in> ran (plugins_of app). \<not> matches ''uptime'' p"
    by (simp add: app(4))
  have 6: "command_cmd (line_command ''uptime'' []) = ''uptime''"
    by (simp add: line_command_def)
  note life = plugin_life [OF app(2,3) 1 2 3 4 5 line_command_is line_command_is 6 line_command_is line_command_is]
  from life [unfolded option.map] obtain app1 app2 where "bitu_app_exec_command E app (line_command ''load'' [''uptime'']) = Some (app1, None, TA_OK)"
    "bitu_app_exec_command E app1 (line_command ''uptime'' []) = Some (app1, Some ''up'', TA_OK)"
    "bitu_app_exec_command E app1 (line_command ''unload'' [''uptime'']) = Some (app2, None, TA_OK)"
    by (elim exE conjE) (rule that)
  then show ?thesis
    using app(1) by (intro exI conjI)
qed

section \<open>Starting the transports\<close>

lemma length_filter_card: "distinct xs \<Longrightarrow> length (filter P xs) = card {x \<in> set xs. P x}"
  using distinct_card [OF distinct_filter, of xs P] by simp

lemma run_transports_run:
  assumes "app_inv app" "ta_list_ok (ae_list E)" "threads_start E envs"
    and "\<forall>uri \<in> dom (lookup (ap_connections app)). startable (ap_connections app) uri"
  shows "\<exists>app'. let m = ap_connections app; m' = ap_connections app'; up = {uri \<in> dom (lookup m). socket_ok (envs uri)} in
    bitu_app_run_transports E envs app = Some (app', if up = {} then TA_ERROR else TA_OK) \<and> app_inv app' \<and>
    dom (lookup m') = dom (lookup m) \<and>
    (\<forall>uri t. lookup m' uri = Some t \<longrightarrow>
       bitu_transport_is_running env t = Some (Ta (if uri \<in> up then TA_OK else TA_ERROR))) \<and>
    length (cm_threads m') = length (cm_threads m) + card up \<and>
    cm_consumers m' = cm_consumers m + (if up = {} then 0 else 1)"
proof -
  let ?m = "ap_connections app"
  let ?uris = "map fst (ht_entries (cm_transports ?m))"
  let ?up = "{uri \<in> dom (lookup ?m). socket_ok (envs uri)}"
  note inv = app_invD(4) [OF assms(1)]
  note uris = uris_of_manager [OF inv]
  have all: "\<forall>uri \<in> set ?uris. startable ?m uri"
    using assms(4) uris(2) by blast
  obtain m' where m': "run_each envs ?m ?uris 0 = Some (m', length (filter (\<lambda>uri. socket_ok (envs uri)) ?uris))" "cm_inv m'"
    "\<And>uri. uri \<notin> set ?uris \<Longrightarrow> lookup m' uri = lookup ?m uri"
    "\<And>uri. uri \<in> set ?uris \<Longrightarrow> \<exists>t. lookup m' uri = Some t \<and>
       bitu_transport_is_running env t = Some (Ta (if socket_ok (envs uri) then TA_OK else TA_ERROR))"
    "length (cm_threads m') = length (cm_threads ?m) + length (filter (\<lambda>uri. socket_ok (envs uri)) ?uris)"
    using run_each_run [OF inv uris(1) all assms(3), of 0 env] by auto
  have up: "length (filter (\<lambda>uri. socket_ok (envs uri)) ?uris) = card ?up"
    by (simp only: length_filter_card [OF uris(1)] uris(2))
  have "?up \<subseteq> set ?uris"
    using uris(2) by blast
  then have "finite ?up"
    by (rule finite_subset) simp
  then have pos: "0 < card ?up \<longleftrightarrow> ?up \<noteq> {}"
    by (simp add: card_gt_0_iff)
  have cons: "cm_consumers m' = cm_consumers ?m"
    by (rule run_each_consumers [OF m'(1)])
  have dom: "dom (lookup m') = dom (lookup ?m)"
  proof -
    have "uri \<in> dom (lookup m') \<longleftrightarrow> uri \<in> dom (lookup ?m)" for uri
      using m'(3,4) [of uri] uris(2) by (cases "uri \<in> set ?uris") auto
    then show ?thesis by blast
  qed
  have state: "bitu_transport_is_running env t = Some (Ta (if uri \<in> ?up then TA_OK else TA_ERROR))"
    if "lookup m' uri = Some t" for uri t
  proof -
    have u: "uri \<in> set ?uris"
      using that uris(2) dom by blast
    show ?thesis
      using m'(4) [OF u] that u uris(2) by auto
  qed
  define m2 where "m2 = (if ?up = {} then m' else m'\<lparr>cm_consumers := Suc (cm_consumers m')\<rparr>)"
  have m2: "lookup m2 = lookup m'" "cm_threads m2 = cm_threads m'" "cm_inv m2"
    "cm_consumers m2 = cm_consumers ?m + (if ?up = {} then 0 else 1)"
    using m'(2) cons by (simp_all add: m2_def)
  have "bitu_app_run_transports E envs app =
      Some (app\<lparr>ap_connections := m2\<rparr>, if ?up = {} then TA_ERROR else TA_OK)"
    using m'(1) get_transports_run [OF assms(2) inv] pos assms(3) unfolding up
    by (cases "?up = {}")
       (simp_all only: bitu_app_run_transports_def m2_def bitu_conn_manager_consume_def threads_start_def
         start_new_thread bind.simps prod.case if_True if_False simp_thms)
  then show ?thesis
    using m2 m'(5) dom state app_inv_connections [OF assms(1) m2(3)] unfolding up
    by (intro exI [of _ "app\<lparr>ap_connections := m2\<rparr>"]) (simp add: Let_def)
qed

text \<open>
  C27. Starting the transports of an application whose transports are local, stopped ones, on a system
  that can create the threads: each
  whose socket can be bound is running afterwards, with a thread of its own, and each other one
  is stopped; when at least one is running, the result is \<open>TA_OK\<close> and one consumer of the
  command queue has been started, otherwise it is an error and there is no consumer.
\<close>
theorem transports_started:
  assumes "app_inv app" "ta_list_ok (ae_list E)" "threads_start E envs"
    and "\<forall>uri \<in> dom (lookup (ap_connections app)). startable (ap_connections app) uri"
  shows "\<exists>app'. let m = ap_connections app; m' = ap_connections app'; up = {uri \<in> dom (lookup m). socket_ok (envs uri)} in
    bitu_app_run_transports E envs app = Some (app', if up = {} then TA_ERROR else TA_OK) \<and> app_inv app' \<and>
    dom (lookup m') = dom (lookup m) \<and>
    (\<forall>uri t. lookup m' uri = Some t \<longrightarrow>
       bitu_transport_is_running env t = Some (Ta (if uri \<in> up then TA_OK else TA_ERROR))) \<and>
    length (cm_threads m') = length (cm_threads m) + card up \<and>
    cm_consumers m' = cm_consumers m + (if up = {} then 0 else 1)"
  by (rule run_transports_run [OF assms])

theorem transports_started_witness:
  "\<exists>app app'. lookup (ap_connections app) ''uri'' \<noteq> None \<and>
    bitu_app_run_transports (example_app_env (\<lambda>_. None)) (\<lambda>_. example_env) app = Some (app', TA_OK) \<and>
    cm_consumers (ap_connections app') = cm_consumers (ap_connections app) + 1"
proof -
  obtain app0 where app0: "app_inv app0"
    using app_new_run by blast
  obtain m where m: "cm_inv m" "lookup m ''uri'' = Some (example_transport Local ''file'')"
    "dom (lookup m) = {''uri''}"
    by (rule example_manager [of Local "''file''"]) (simp, blast)
  let ?app = "app0\<lparr>ap_connections := m\<rparr>"
  have inv: "app_inv ?app"
    by (rule app_inv_connections [OF app0 m(1)])
  have l: "ta_list_ok (ae_list (example_app_env (\<lambda>_. None)))"
    by (simp add: example_app_env_def plain_list_ok)
  have th: "threads_start (example_app_env (\<lambda>_. None)) (\<lambda>_. example_env)"
    by (simp add: threads_start_def example_app_env_def example_env_def)
  have "local_stopped (example_transport Local ''file'') ''/tmp/s''" "tr_logger (example_transport Local ''file'') = Logger"
    "socket_ok example_env"
    by (simp_all add: local_stopped_def example_transport_def example_iri_def socket_ok_def example_env_def)
  then have st: "\<forall>uri \<in> dom (lookup (ap_connections ?app)). startable (ap_connections ?app) uri"
    and up: "{uri \<in> dom (lookup (ap_connections ?app)). socket_ok example_env} = {''uri''}"
    using m(2,3) by (auto simp: startable_def)
  obtain app' where "bitu_app_run_transports (example_app_env (\<lambda>_. None)) (\<lambda>_. example_env) ?app = Some (app', TA_OK)"
    "cm_consumers (ap_connections app') = cm_consumers (ap_connections ?app) + 1"
    using transports_started [OF inv l th st, of example_env] unfolding up Let_def by auto
  then show ?thesis
    using m(2) by (intro exI [of _ ?app] exI [of _ app']) simp
qed

end
