(* ===== verification/Sequential.thy ===== *)
theory Sequential
  imports Queue_Props App_Props
begin

text \<open>
  The queue together with the application: whatever the order in which the threads of the transports
  and the consumer run, the application goes through the states of a sequential execution of the
  commands in the order of their insertion.
\<close>

lemma called_prefix:
  assumes "ta_list_ok T" "qreach T n s"
  shows "called s = take (length (called s)) (somes (added s))"
    and "quiescent s \<Longrightarrow> called s = somes (added s)"
proof -
  have f: "somes (added s) = called s @ in_call s @ somes (rev (q_list (queue s)))"
    using queue_list.reach_invs [OF queue_listI [OF assms(1)] assms(2)]
    by (simp add: fifo_inv_def somes_append)
  show "called s = take (length (called s)) (somes (added s))"
    by (simp add: f)
  show "called s = somes (added s)" if "quiescent s"
    using that f by (simp add: quiescent_def in_call_def somes_def)
qed

text \<open>
  C6. Commands on the environment from any number of transports: at any moment of any interleaving of their
  threads with the consumer, the commands that have been executed are the first ones in the order of
  insertion, and they have left the environment, and given the answers, that a map updated in this
  order has; when all threads have come to rest these are all commands.
\<close>
theorem concurrent_commands_sequential:
  assumes "ta_list_ok T" "qreach T n s" "app_inv app"
    and "list_all2 env_command ops (somes (added s))" "card (dom (env_of app)) + length ops \<le> 1610612741"
  shows "\<exists>app' k. k = length (called s) \<and> k \<le> length ops \<and>
    exec_all E app (called s) = Some (app', env_answers (take k ops) (env_of app)) \<and>
    env_of app' = fold env_step (take k ops) (env_of app) \<and> app_inv app' \<and> only_environment app app' \<and>
    (quiescent s \<longrightarrow> env_of app' = fold env_step ops (env_of app))"
proof -
  let ?k = "length (called s)"
  have l: "length ops = length (somes (added s))"
    using assms(4) by (rule list_all2_lengthD)
  have p: "called s = take ?k (somes (added s))"
    by (rule called_prefix(1) [OF assms(1,2)])
  have k: "?k \<le> length ops"
    using arg_cong [OF p, of length] by (simp add: l)
  have e: "list_all2 env_command (take ?k ops) (called s)"
    using list_all2_takeI [OF assms(4), of ?k] p by simp
  have "card (dom (env_of app)) + length (take ?k ops) \<le> ht_capacity"
    using assms(5) by (simp add: ht_capacity_def)
  then obtain app' where app': "exec_all E app (called s) = Some (app', env_answers (take ?k ops) (env_of app))"
    "app_inv app'" "env_of app' = fold env_step (take ?k ops) (env_of app)" "only_environment app app'"
    using env_run [OF assms(3) _ e] by blast
  have "take ?k ops = ops" if "quiescent s"
    using called_prefix(2) [OF assms(1,2) that] l by simp
  then show ?thesis
    using app' k by (intro exI [of _ app'] exI [of _ ?k]) auto
qed

theorem concurrent_commands_sequential_witness:
  "\<exists>s app app'. qreach plain_list_api 1 s \<and> quiescent s \<and> bitu_app_new = Some app \<and>
     exec_all (example_app_env (\<lambda>_. None)) app (called s) = Some (app', [None]) \<and> env_of app' = [''a'' \<mapsto> ''1'']"
proof -
  let ?c = "line_command ''set'' [''a'', ''1'']"
  let ?s0 = "set_producer (qinit 1) 0 (P_lock (Some ?c))"
  have r0: "qreach plain_list_api 1 ?s0"
    by (rule qreach.env [OF qreach.init qenv.Call]) (simp add: at_def qinit_def)
  obtain s where s: "(qstep plain_list_api)\<^sup>*\<^sup>* ?s0 s" "\<nexists>s''. qstep plain_list_api s s''"
    using maximal_run [OF plain_list_ok r0] by blast
  have r: "qreach plain_list_api 1 s"
    by (rule reach_run [OF r0 s(1)])
  have q: "quiescent s" and m: "mset (added s) = {#Some ?c#}"
    using final_calls [OF plain_list_ok r0 s] by (simp_all add: qinit_def pending_def)
  have a: "added s = [Some ?c]"
    using m by (metis mset_single_iff)
  obtain app where app: "bitu_app_new = Some app" "app_inv app" "env_of app = Map.empty"
    using app_new_run by blast
  have "list_all2 env_command [Env_set ''a'' ''1''] (somes (added s))"
    by (simp add: a somes_def)
  from concurrent_commands_sequential [OF plain_list_ok r app(2) this, of "example_app_env (\<lambda>_. None)"]
  obtain app' k where k: "k = length (called s)"
    "exec_all (example_app_env (\<lambda>_. None)) app (called s) = Some (app', env_answers (take k [Env_set ''a'' ''1'']) (env_of app))"
    "env_of app' = fold env_step [Env_set ''a'' ''1''] (env_of app)"
    using q app(3) by auto
  have "called s = [?c]"
    using called_prefix(2) [OF plain_list_ok r q] by (simp add: a somes_def)
  then show ?thesis
    using r q app k by (intro exI [of _ s] exI [of _ app] exI [of _ app']) simp
qed

end
