(* ===== verification/Conf.thy ===== *)
theory Conf
  imports Transport
begin

text \<open>
  \<open>src/conf.c\<close>: a configuration file is read line by line with \<open>fgets\<close>, each line becomes a
  command without transport and sender. The content of the file is an argument.
\<close>

section \<open>Reading lines\<close>

text \<open>\<open>fgets\<close> with a buffer of \<open>n + 1\<close> bytes: at most \<open>n\<close> characters, up to the line break.\<close>

fun fgets :: "nat \<Rightarrow> string \<Rightarrow> string \<times> string" where
  "fgets 0 content = ([], content)"
| "fgets (Suc n) [] = ([], [])"
| "fgets (Suc n) (c # content) =
     (if c = newline then ([c], content) else (let (line, rest) = fgets n content in (c # line, rest)))"

lemma fgets_split: "fgets n content = (line, rest) \<Longrightarrow> content = line @ rest"
  by (induction n content arbitrary: line rule: fgets.induct) (auto split: if_splits prod.splits)

lemma fgets_shorter: "fgets (Suc n) content = (line, rest) \<Longrightarrow> content \<noteq> [] \<Longrightarrow> length rest < length content"
  using fgets_split [of "Suc n" content line rest] by (cases content) (auto split: if_splits prod.splits)

definition LINE_LEN_MAX :: nat where
  "LINE_LEN_MAX = 255"

section \<open>Reading a file\<close>

text \<open>
  One round of the loop. \<open>line[strlen (line) - 1] = 0\<close> removes the last character, whatever it
  is; it is undefined when the line begins with a zero byte.
\<close>

definition conf_line ::
    "allocator \<Rightarrow> bitu_command ta_list_api \<Rightarrow> string \<Rightarrow> bitu_command list \<Rightarrow> bitu_command list option" where
  "conf_line U T buf config = do {
     let line = c_string buf;
     require (line \<noteq> []);
     let line = butlast line;
     if line = [] \<or> hd line = CHR 0x23 then Some config
     else do {
       command \<leftarrow> bitu_command_new U None line None;
       Some (ta_append T config command) } }"

function conf_loop ::
    "allocator \<Rightarrow> bitu_command ta_list_api \<Rightarrow> string \<Rightarrow> bitu_command list \<Rightarrow> bitu_command list option" where
  "conf_loop U T content config =
     (if content = [] then Some config
      else (let (buf, rest) = fgets (LINE_LEN_MAX - 1) content in do {
        config \<leftarrow> conf_line U T buf config;
        conf_loop U T rest config }))"
  by pat_completeness auto
termination
proof (relation "measure (\<lambda>(U, T, content, config). length content)")
  fix content :: string and buf rest and x and U :: allocator and T :: "bitu_command ta_list_api" and config :: "bitu_command list" and c
  assume "content \<noteq> []" "x = fgets (LINE_LEN_MAX - 1) content" "(buf, rest) = x"
  then have "length rest < length content"
    using fgets_shorter [of 253 content buf rest] by (simp add: LINE_LEN_MAX_def)
  then show "((U, T, rest, c), U, T, content, config) \<in> measure (\<lambda>(U, T, content, config). length content)"
    by simp
qed simp

declare conf_loop.simps [simp del]

text \<open>A file that cannot be opened gives NULL, which is also the empty list.\<close>

definition bitu_conf_read_from_file ::
    "allocator \<Rightarrow> bitu_command ta_list_api \<Rightarrow> string option \<Rightarrow> bitu_command list option" where
  "bitu_conf_read_from_file U T file = (case file of None \<Rightarrow> Some [] | Some content \<Rightarrow> conf_loop U T content [])"

section \<open>Files of ordinary lines\<close>

text \<open>
  A line that fits into the buffer, and what it adds to the configuration: nothing for an empty line
  and a comment, one command otherwise.
\<close>

definition fits :: "string \<Rightarrow> bool" where
  "fits line \<longleftrightarrow> length line < 254 \<and> newline \<notin> set line \<and> NUL \<notin> set line"

definition skipped :: "string \<Rightarrow> bool" where
  "skipped line \<longleftrightarrow> line = [] \<or> hd line = CHR 0x23"

lemma fgets_line: "length line < n \<Longrightarrow> newline \<notin> set line \<Longrightarrow> fgets n (line @ newline # rest) = (line @ [newline], rest)"
proof (induction line arbitrary: n)
  case Nil
  then show ?case by (cases n) simp_all
next
  case (Cons c line)
  then show ?case by (cases n) auto
qed

lemma fgets_long: "newline \<notin> set line \<Longrightarrow> fgets (length line) (line @ rest) = (line, rest)"
  by (induction line) auto

lemma fgets_eof: "length line \<le> n \<Longrightarrow> newline \<notin> set line \<Longrightarrow> fgets n line = (line, [])"
proof (induction line arbitrary: n)
  case Nil
  then show ?case by (cases n) simp_all
next
  case (Cons c line)
  then show ?case by (cases n) auto
qed

lemma conf_loop_line:
  assumes "fits line"
  shows "conf_loop U T (line @ newline # rest) config =
    (if skipped line then conf_loop U T rest config
     else do { command \<leftarrow> bitu_command_new U None line None; conf_loop U T rest (ta_append T config command) })"
proof -
  have k: "LINE_LEN_MAX - Suc 0 = 254"
    by (simp add: LINE_LEN_MAX_def)
  have f: "fgets 254 (line @ newline # rest) = (line @ [newline], rest)"
    using assms by (intro fgets_line) (simp_all add: fits_def)
  have c: "c_string (line @ [newline]) = line @ [newline]"
    using assms by (intro c_string_id) (simp add: fits_def newline_def NUL_def)
  show ?thesis
    by (subst conf_loop.simps)
      (simp add: k f conf_line_def c skipped_def Let_def Option.bind_assoc del: fgets.simps)
qed

fun commands_of :: "allocator \<Rightarrow> string list \<Rightarrow> bitu_command list option" where
  "commands_of U [] = Some []"
| "commands_of U (line # ls) =
     (if skipped line then commands_of U ls
      else do { c \<leftarrow> bitu_command_new U None line None; cs \<leftarrow> commands_of U ls; Some (c # cs) })"

lemma conf_loop_lines:
  assumes "\<forall>line \<in> set ls. fits line" "ta_list_ok T"
  shows "conf_loop U T (concat (map (\<lambda>l. l @ [newline]) ls)) config =
    do { cs \<leftarrow> commands_of U ls; Some (config @ cs) }"
  using assms(1)
proof (induction ls arbitrary: config)
  case Nil
  then show ?case by (simp add: conf_loop.simps)
next
  case (Cons l ls)
  have T: "ta_append T xs x = xs @ [x]" for xs x
    using assms(2) by (simp add: ta_list_ok_def)
  show ?case
    using Cons by (simp add: conf_loop_line T Option.bind_assoc)
qed

end
