(* ===== verification/Bitud.thy ===== *)
theory Bitud
  imports App Conf Shell
begin

text \<open>
  \<open>src/main.c\<close>, the program \<open>bitud\<close>: its options, the loop over the configuration files, the start
  of the application, going to the background and the file with the process id.
\<close>

section \<open>The options\<close>

text \<open>What \<open>getopt_long\<close> finds on the command line; the option \<open>t\<close> has no effect.\<close>

datatype main_opt =
    Main_transport string | Main_config string | Main_pid_file string | Main_help | Main_version
  | Main_daemonize | Main_invalid

datatype main_options_result = Options_usage | Options_version | Options_failure | Options_go "string option" "string option" bool

fun main_options :: "main_opt list \<Rightarrow> string option \<Rightarrow> string option \<Rightarrow> bool \<Rightarrow> main_options_result" where
  "main_options [] config_file pid_file daemonize = Options_go config_file pid_file daemonize"
| "main_options (Main_transport uri # opts) config_file pid_file daemonize =
     main_options opts config_file pid_file daemonize"
| "main_options (Main_config path # opts) config_file pid_file daemonize =
     main_options opts (Some path) pid_file daemonize"
| "main_options (Main_pid_file path # opts) config_file pid_file daemonize =
     main_options opts config_file (Some path) daemonize"
| "main_options (Main_help # opts) config_file pid_file daemonize = Options_usage"
| "main_options (Main_version # opts) config_file pid_file daemonize = Options_version"
| "main_options (Main_daemonize # opts) config_file pid_file daemonize =
     main_options opts config_file pid_file True"
| "main_options (Main_invalid # opts) config_file pid_file daemonize = Options_failure"

text \<open>The help text.\<close>

definition main_usage :: "string \<Rightarrow> string \<Rightarrow> string" where
  "main_usage bugreport prname = (let nl = [newline]; tab = CHR 0x09; quo = [CHR 0x27] in
     ''Usage: '' @ prname @ '' [OPTIONS]'' @ nl @
     ''  All connection and server (except daemonize) can be described'' @ nl @
     ''  in a config file. You will need to inform, at least, jid and'' @ nl @
     ''  password to start bitU.'' @ nl @ nl @
     ''General Options:'' @ nl @
     ''  -c,--config-file=FILE'' @ [tab, tab] @ '': Path to the config file'' @ nl @
     ''  -v,--version'' @ [tab, tab, tab] @ '': Show current version and exit'' @ nl @
     ''  -h,--help'' @ [tab, tab, tab] @ '': Shows this help'' @ nl @ nl @
     ''Connection Options:'' @ nl @
     ''  -t,--transport=URI'' @ [tab, tab] @ '': URI to connect to a server it can be a valid JID but must start with '' @
       quo @ ''xmpp:'' @ quo @ '' or an irc uri'' @ nl @ nl @
     ''Server Options:'' @ nl @
     ''  -i,--pid-file=PATH'' @ [tab, tab] @ '': Path to store the pid. Useful when running as daemon'' @ nl @
     ''  -d,--daemonize'' @ [tab, tab] @ '': Send the program to background after starting'' @ nl @ nl @
     ''Report bugs to '' @ bugreport @ nl @ nl)"

section \<open>The signal\<close>

text \<open>
  \<open>_setup_sigaction\<close> is called before there is an application: when \<open>sigaction\<close> fails, the warning reads
  the logger through a null pointer. \<open>None\<close> for the application is the null pointer.
\<close>

definition setup_sigaction :: "bool \<Rightarrow> 'app option \<Rightarrow> unit option" where
  "setup_sigaction installed app = (if installed then Some () else require (app \<noteq> None))"

text \<open>\<open>_signal_handler\<close> does nothing, so that a process that gets one of its signals goes on as it is.\<close>

definition signal_handler :: "int \<Rightarrow> 's \<Rightarrow> 's" where
  "signal_handler sig s = s"

section \<open>The configuration files\<close>

text \<open>
  The files of the machine: what \<open>glob\<close> expands a pattern to (\<open>None\<close> for an error or no
  match), and the content of a file.
\<close>

record file_world =
  fw_glob :: "string \<Rightarrow> string list option"
  fw_content :: "string \<Rightarrow> string option"

text \<open>
  The loop over the files of a pattern: \<open>conf\<close> is overwritten by each of them. A file without
  commands ends the program, which is the inner \<open>None\<close>.
\<close>

fun read_globbed ::
    "allocator \<Rightarrow> bitu_command ta_list_api \<Rightarrow> file_world \<Rightarrow> string list \<Rightarrow> bitu_command list \<Rightarrow>
     bitu_command list option option" where
  "read_globbed U T w [] conf = Some (Some conf)"
| "read_globbed U T w (single_file # files) conf = do {
     conf \<leftarrow> bitu_conf_read_from_file U T (fw_content w single_file);
     if conf = [] then Some None else read_globbed U T w files conf }"

text \<open>The loop over the commands of a file.\<close>

fun sort_commands ::
    "bitu_command ta_list_api \<Rightarrow> bitu_command list \<Rightarrow> string option \<Rightarrow> string option \<Rightarrow> bitu_command list \<Rightarrow>
     (string option \<times> string option \<times> bitu_command list) option" where
  "sort_commands T [] config_file pid_file commands = Some (config_file, pid_file, commands)"
| "sort_commands T (command # conf) config_file pid_file commands = do {
     name \<leftarrow> bitu_command_get_name command;
     if name = ''pid-file'' \<and> pid_file = None then do {
       p \<leftarrow> nth_opt (bitu_command_get_params command) 0;
       sort_commands T conf config_file (Some p) commands }
     else if name = ''include'' then do {
       p \<leftarrow> nth_opt (bitu_command_get_params command) 0;
       sort_commands T conf (Some p) pid_file commands }
     else sort_commands T conf config_file pid_file (ta_append T commands command) }"

datatype config_result = Config_failure | Config "string option" "bitu_command list"

text \<open>\<open>while (config_file != NULL)\<close>; files that include each other keep it running for ever.\<close>

partial_function (option) config_loop ::
    "allocator \<Rightarrow> bitu_command ta_list_api \<Rightarrow> file_world \<Rightarrow> string option \<Rightarrow> string option \<Rightarrow>
     bitu_command list \<Rightarrow> bitu_command list \<Rightarrow> config_result option" where
  "config_loop U T w config_file pid_file conf commands = (case config_file of
       None \<Rightarrow> Some (Config pid_file commands)
     | Some pattern \<Rightarrow> (case fw_glob w pattern of
           None \<Rightarrow> Some (Config pid_file commands)
         | Some files \<Rightarrow> do {
             r \<leftarrow> read_globbed U T w files conf;
             case r of
               None \<Rightarrow> Some Config_failure
             | Some conf \<Rightarrow> do {
                 s \<leftarrow> sort_commands T conf None pid_file commands;
                 config_loop U T w (fst s) (fst (snd s)) conf (snd (snd s)) } }))"

declare config_loop.simps [code]

section \<open>The file with the process id\<close>

text \<open>
  \<open>_save_pid\<close>: the new content of the file, \<open>None\<close> when it is not written. The file is opened
  without truncating it, so that \<open>write\<close> overwrites the beginning of the old content.
\<close>

datatype stat_result = Stat_ok | Stat_noent | Stat_error

definition save_pid :: "stat_result \<Rightarrow> bool \<Rightarrow> string \<Rightarrow> int \<Rightarrow> string option" where
  "save_pid st opened old pid =
     (if st = Stat_error then None
      else if \<not> opened then None
      else let pidbuf = snprintf 32 (show_int pid) in Some (pidbuf @ drop (length pidbuf) old))"

section \<open>The program\<close>

text \<open>
  What the system answers: whether \<open>sigaction\<close> and \<open>daemon\<close> succeed, what \<open>stat\<close>, \<open>open\<close> and \<open>access\<close> say about
  the file with the process id and what it holds, and the process id; then the
  name of the program and what the build has put into \<open>config.h\<close>.
\<close>

record main_env =
  me_files :: file_world
  me_list :: "bitu_command ta_list_api"
  me_app :: app_env
  me_transports :: "string \<Rightarrow> backend_env"
  me_daemon :: bool
  me_stat :: stat_result
  me_open :: bool
  me_access :: bool
  me_old :: string
  me_pid :: int
  me_sigaction :: bool
  me_prname :: string
  me_version :: string
  me_bugreport :: string

text \<open>\<open>daemon\<close> continues in a child process, which has only the thread that called it.\<close>

definition daemon_child :: "bitu_app \<Rightarrow> bitu_app" where
  "daemon_child app = app\<lparr>ap_connections := (ap_connections app)\<lparr>cm_threads := [], cm_consumers := 0\<rparr>\<rparr>"

text \<open>
  \<open>Main_sleeps\<close>: the main loop has been reached, with the application and the content of the
  file with the process id; \<open>Main_exit\<close>: whether the status is 0, and what has been printed; \<open>Main_returns\<close>: no transport is running, and the program has
  returned 0; the last component says whether the file has been removed.
\<close>

datatype main_result =
    Main_exit bool string
  | Main_sleeps bitu_app "string option"
  | Main_returns bitu_app "string option" bool

definition bitud_main :: "main_env \<Rightarrow> main_opt list \<Rightarrow> main_result option" where
  "bitud_main E opts = do {
     setup_sigaction (me_sigaction E) (None :: bitu_app option);
     case main_options opts None None False of
       Options_usage \<Rightarrow> Some (Main_exit True (main_usage (me_bugreport E) (me_prname E)))
     | Options_version \<Rightarrow> Some (Main_exit True (version_line (me_version E)))
     | Options_failure \<Rightarrow> Some (Main_exit False [])
     | Options_go config_file pid_file daemonize \<Rightarrow> do {
         r \<leftarrow> config_loop (ae_alloc (me_app E)) (me_list E) (me_files E) config_file pid_file [] [];
         case r of
           Config_failure \<Rightarrow> Some (Main_exit False [])
         | Config pid_file commands \<Rightarrow> do {
             app \<leftarrow> bitu_app_new;
             app \<leftarrow> bitu_app_load_config (me_app E) app commands;
             (app, rolou) \<leftarrow> bitu_app_run_transports (me_app E) (me_transports E) app;
             if daemonize \<and> \<not> me_daemon E then Some (Main_exit False [])
             else (
               let app = (if daemonize then daemon_child app else app);
                   saved = (case pid_file of None \<Rightarrow> None
                            | Some _ \<Rightarrow> save_pid (me_stat E) (me_open E) (me_old E) (me_pid E)) in
               if rolou = TA_OK then Some (Main_sleeps app saved)
               else Some (Main_returns app saved (pid_file \<noteq> None \<and> me_access E))) } } }"

end
