(* ===== verification/Bitud_Props.thy ===== *)
theory Bitud_Props
  imports Bitud App_Props
begin

text \<open>
  The properties of the configuration files and of the program \<open>bitud\<close>.
\<close>

section \<open>Configuration lines\<close>

text \<open>What a word must be so that \<open>bituctl\<close> can write it and the parser reads it back.\<close>

definition config_word :: "string \<Rightarrow> bool" where
  "config_word p \<longleftrightarrow> backslash \<notin> set p \<and> (\<exists>c \<in> set p. \<not> special c) \<and> \<not> isspace (last p)"

definition set_line :: "string \<times> string \<Rightarrow> string \<Rightarrow> bool" where
  "set_line kv line \<longleftrightarrow> config_word (fst kv) \<and> config_word (snd kv) \<and>
     build_cmdline glibc_alloc ''set'' [fst kv, snd kv] = Some line \<and> fits line"

lemma set_line_parsed:
  assumes "set_line kv line"
  shows "\<not> skipped line \<and> (\<exists>c. bitu_command_new glibc_alloc tr line sender = Some c \<and>
    env_command (Env_set (fst kv) (snd kv)) c \<and> command_name c = Some ''set'')"
proof -
  let ?ps = "[fst kv, snd kv]"
  have h: "2 \<le> length ''set''" "length ''set'' < 136" "\<forall>c \<in> set ''set''. c \<noteq> backslash \<and> \<not> special c"
    "\<not> isspace (hd ''set'')" "\<not> isspace (last (last (''set'' # ?ps)))"
    "\<forall>p \<in> set ?ps. backslash \<notin> set p \<and> (\<exists>c \<in> set p. \<not> special c)"
    using assms by (auto simp: set_line_def config_word_def special_def isspace_def blank_def quote_def backslash_def)
  note parsed = cmdline_parsed [OF h]
  have line: "line = ''set'' @ params_text ?ps"
    using assms parsed(1) by (simp add: set_line_def)
  have "plain_start (strip line)"
    using parsed(2,3) line by simp
  from command_new_run [OF this, of tr sender] show ?thesis
    using parsed(3,4) line by (simp add: is_command_def skipped_def)
qed

lemma set_lines_parsed:
  assumes "list_all2 set_line kvs lines"
  shows "\<exists>cs. commands_of glibc_alloc lines = Some cs \<and> length cs = length kvs \<and>
    list_all2 env_command (map (\<lambda>kv. Env_set (fst kv) (snd kv)) kvs) cs \<and> (\<forall>c \<in> set cs. command_name c = Some ''set'')"
  using assms
proof (induction kvs lines rule: list_all2_induct)
  case (Cons kv kvs line lines)
  then show ?case
    using set_line_parsed [OF Cons.hyps(1), of None None] by auto
qed simp

lemma env_sets:
  "env_answers (map (\<lambda>kv. Env_set (fst kv) (snd kv)) kvs) m = replicate (length kvs) None"
  "fold env_step (map (\<lambda>kv. Env_set (fst kv) (snd kv)) kvs) m = m ++ map_of (rev kvs)"
  by (induction kvs arbitrary: m) (auto simp: fun_eq_iff map_add_def split: option.splits)

lemma sort_plain:
  assumes "ta_list_ok T" "\<forall>c \<in> set cs. \<exists>name. command_name c = Some name \<and> name \<noteq> ''pid-file'' \<and> name \<noteq> ''include''"
  shows "sort_commands T cs file pid commands = Some (file, pid, commands @ cs)"
proof -
  have T: "ta_append T xs x = xs @ [x]" for xs x
    using assms(1) by (simp add: ta_list_ok_def)
  show ?thesis
    using assms(2) by (induction cs arbitrary: commands) (auto simp: T)
qed

text \<open>One round of the loop over the configuration files, and its end.\<close>

lemma config_round:
  assumes "fw_glob w pattern = Some files" "read_globbed U T w files conf = Some (Some cs)"
    and "sort_commands T cs None pid commands = Some (next, pid', commands')"
  shows "config_loop U T w (Some pattern) pid conf commands = config_loop U T w next pid' cs commands'"
  using assms by (subst config_loop.simps) simp

lemma config_end: "config_loop U T w None pid conf commands = Some (Config pid commands)"
  by (subst config_loop.simps) simp

section \<open>Properties\<close>

text \<open>
  C25. A configuration file written with the escapes of \<open>bituctl\<close>, one line \<open>set KEY VALUE\<close> for each
  pair, no line longer than 253 characters: \<open>bitud\<close> reads one command from each line, and
  executing them gives the environment all the pairs, the last one for a key that occurs
  twice, and changes nothing else. The loop over the configuration files ends.
\<close>
theorem config_file_sets_environment:
  assumes "list_all2 set_line kvs lines" "kvs \<noteq> []" "ta_list_ok T"
    and "fw_glob w pattern = Some [path]" "fw_content w path = Some (concat (map (\<lambda>l. l @ [newline]) lines))"
    and "app_inv app" "card (dom (env_of app)) + length kvs \<le> 1610612741"
  shows "\<exists>cs app'. config_loop glibc_alloc T w (Some pattern) pid [] [] = Some (Config pid cs) \<and>
    bitu_app_load_config E app cs = Some app' \<and> env_of app' = env_of app ++ map_of (rev kvs) \<and> only_environment app app'"
proof -
  obtain cs where cs: "commands_of glibc_alloc lines = Some cs" "length cs = length kvs"
    "list_all2 env_command (map (\<lambda>kv. Env_set (fst kv) (snd kv)) kvs) cs" "\<forall>c \<in> set cs. command_name c = Some ''set''"
    using set_lines_parsed [OF assms(1)] by blast
  have ne: "cs \<noteq> []"
    using assms(2) cs(2) by auto
  have fits: "\<forall>line \<in> set lines. fits line"
    using assms(1) by (auto simp: list_all2_conv_all_nth in_set_conv_nth set_line_def)
  have "conf_loop glibc_alloc T (concat (map (\<lambda>l. l @ [newline]) lines)) [] = Some cs"
    using conf_loop_lines [OF fits assms(3), of glibc_alloc "[]"] cs(1) by simp
  then have rd: "read_globbed glibc_alloc T w [path] [] = Some (Some cs)"
    using assms(5) ne by (simp add: bitu_conf_read_from_file_def)
  have s: "sort_commands T cs None pid [] = Some (None, pid, cs)"
    using sort_plain [OF assms(3), of cs None pid "[]"] cs(4) by simp
  have loop: "config_loop glibc_alloc T w (Some pattern) pid [] [] = Some (Config pid cs)"
    using config_round [OF assms(4) rd s] config_end by simp
  show ?thesis
    using env_run [OF assms(6) _ cs(3), of E] assms(7) loop by (auto simp: env_sets load_config_eq ht_capacity_def)
qed

theorem config_file_sets_environment_witness:
  "\<exists>cs app app'. config_loop glibc_alloc plain_list_api \<lparr>fw_glob = \<lambda>_. Some [''bitu.conf''],
      fw_content = \<lambda>_. Some (''set name bitU'' @ [newline])\<rparr> (Some ''*.conf'') None [] [] = Some (Config None cs) \<and>
    bitu_app_load_config (example_app_env (\<lambda>_. None)) app cs = Some app' \<and> env_of app' = [''name'' \<mapsto> ''bitU'']"
proof -
  obtain app where app: "app_inv app" "env_of app = Map.empty"
    using app_new_run by blast
  have "build_cmdline glibc_alloc ''set'' [''name'', ''bitU''] = Some ''set name bitU''"
    by code_simp
  then have "list_all2 set_line [(''name'', ''bitU'')] [''set name bitU'']"
    by (auto simp: set_line_def config_word_def special_def isspace_def blank_def quote_def backslash_def fits_def
        newline_def NUL_def)
  from config_file_sets_environment [OF this _ plain_list_ok, where w = "\<lparr>fw_glob = \<lambda>_. Some [''bitu.conf''],
      fw_content = \<lambda>_. Some (''set name bitU'' @ [newline])\<rparr>" and pattern = "''*.conf''" and path = "''bitu.conf''"
      and pid = None and E = "example_app_env (\<lambda>_. None)", OF _ _ _ app(1)]
  show ?thesis
    using app(2) by auto
qed

lemma conf_loop_piece:
  assumes "newline \<notin> set line" "NUL \<notin> set line" "line \<noteq> []" "length line = 254 \<or> length line < 254 \<and> rest = []"
  shows "conf_loop U T (line @ rest) config =
    (if skipped (butlast line) then conf_loop U T rest config
     else do { c \<leftarrow> bitu_command_new U None (butlast line) None; conf_loop U T rest (ta_append T config c) })"
proof -
  have k: "LINE_LEN_MAX - Suc 0 = 254"
    by (simp add: LINE_LEN_MAX_def)
  have f: "fgets 254 (line @ rest) = (line, rest)"
    using assms(4) fgets_long [OF assms(1), of rest] fgets_eof [of line 254] assms(1) by auto
  show ?thesis
    using assms(2,3)
    by (subst conf_loop.simps)
      (simp add: k f conf_line_def skipped_def Let_def Option.bind_assoc del: fgets.simps)
qed

text \<open>
  What a configuration file cannot hold: the last character of a last line without a line
  break is dropped; the 254th character of a longer line is dropped too, and what follows it is
  read as a line of its own; a line of blanks makes the parser read before its beginning.
\<close>
theorem config_line_limits:
  assumes "newline \<notin> set line" "NUL \<notin> set line" "line \<noteq> []" "length line < 254"
    and "newline \<notin> set chunk" "NUL \<notin> set chunk" "length chunk = 254"
    and "0 < n" "n < 254"
  shows "conf_loop U T line config =
      (if skipped (butlast line) then Some config
       else do { c \<leftarrow> bitu_command_new U None (butlast line) None; Some (ta_append T config c) }) \<and>
    conf_loop U T (chunk @ rest) config =
      (if skipped (butlast chunk) then conf_loop U T rest config
       else do { c \<leftarrow> bitu_command_new U None (butlast chunk) None; conf_loop U T rest (ta_append T config c) }) \<and>
    conf_loop U T (replicate n blank @ newline # rest) config = None"
proof -
  have e: "conf_loop U T [] config = Some config" for config
    by (simp add: conf_loop.simps)
  have 1: "chunk \<noteq> []"
    using assms(7) by auto
  have b: "fits (replicate n blank)"
    using assms(9) by (auto simp: fits_def newline_def NUL_def blank_def)
  have "strip (replicate n blank) = []"
    using strip_nonempty [of "replicate n blank"] by (auto simp: isspace_def blank_def)
  then have "bitu_command_new U None (replicate n blank) None = None"
    by (simp add: bitu_command_new_def strstrip_eq isspace_def blank_def)
  moreover have "\<not> skipped (replicate n blank)"
    using assms(8) by (simp add: skipped_def blank_def)
  ultimately have "conf_loop U T (replicate n blank @ newline # rest) config = None"
    by (simp add: conf_loop_line [OF b])
  then show ?thesis
    using conf_loop_piece [OF assms(1,2,3), of "[]" U T config] conf_loop_piece [OF assms(5,6) 1, of rest U T config] assms(4,7)
    by (simp add: e)
qed

theorem config_line_limits_witness:
  "conf_loop glibc_alloc plain_list_api ''set a bc'' [] =
     do { c \<leftarrow> bitu_command_new glibc_alloc None ''set a b'' None; Some [c] } \<and>
   conf_loop glibc_alloc plain_list_api (''  '' @ [newline]) [] = None"
proof -
  have h: "newline \<notin> set ''set a bc''" "NUL \<notin> set ''set a bc''" "''set a bc'' \<noteq> []" "length ''set a bc'' < 254"
    "newline \<notin> set (replicate 254 blank)" "NUL \<notin> set (replicate 254 blank)" "length (replicate 254 blank) = 254"
    "0 < (2::nat)" "(2::nat) < 254"
    by (auto simp: newline_def NUL_def blank_def)
  show ?thesis
    using config_line_limits [OF h, of glibc_alloc plain_list_api "[]" "[]"]
    by (simp add: skipped_def plain_list_api_def numeral_eq_Suc blank_def)
qed

section \<open>The program\<close>

lemma main_options_daemonize:
  "main_options opts c p d = Options_go c' p' d' \<Longrightarrow> d' \<longleftrightarrow> d \<or> Main_daemonize \<in> set opts"
  by (induction opts c p d rule: main_options.induct) auto

lemma include_cycle:
  assumes "fw_glob w pattern = Some files" "\<And>conf. read_globbed U T w files conf = Some (Some cs)"
    and "\<And>pid commands. \<exists>pid' commands'. sort_commands T cs None pid commands = Some (Some pattern, pid', commands')"
  shows "config_loop U T w (Some pattern) pid conf commands = None"
proof -
  have "\<not> (U' = U \<and> T' = T \<and> w' = w \<and> cfile = Some pattern)"
    if "config_loop U' T' w' cfile pid conf commands = Some y" for U' T' w' cfile pid conf commands y
    using that
  proof (rule config_loop.raw_induct [rotated])
    fix f :: "allocator \<Rightarrow> bitu_command ta_list_api \<Rightarrow> file_world \<Rightarrow> string option \<Rightarrow> string option \<Rightarrow>
        bitu_command list \<Rightarrow> bitu_command list \<Rightarrow> config_result option"
      and U' T' w' cfile pid conf commands y
    assume IH: "\<And>U' T' w' cfile pid conf commands y. f U' T' w' cfile pid conf commands = Some y \<Longrightarrow>
        \<not> (U' = U \<and> T' = T \<and> w' = w \<and> cfile = Some pattern)"
      and step: "(case cfile of None \<Rightarrow> Some (Config pid commands)
        | Some pattern \<Rightarrow> case fw_glob w' pattern of None \<Rightarrow> Some (Config pid commands)
          | Some files \<Rightarrow> read_globbed U' T' w' files conf \<bind>
              (\<lambda>r. case r of None \<Rightarrow> Some Config_failure
               | Some conf \<Rightarrow> sort_commands T' conf None pid commands \<bind>
                   (\<lambda>s. f U' T' w' (fst s) (fst (snd s)) conf (snd (snd s))))) = Some y"
    show "\<not> (U' = U \<and> T' = T \<and> w' = w \<and> cfile = Some pattern)"
    proof
      assume eq: "U' = U \<and> T' = T \<and> w' = w \<and> cfile = Some pattern"
      obtain pid' commands' where "sort_commands T cs None pid commands = Some (Some pattern, pid', commands')"
        using assms(3) by blast
      then have "f U T w (Some pattern) pid' cs commands' = Some y"
        using step eq assms(1,2) by simp
      then show False
        using IH by blast
    qed
  qed
  then show ?thesis
    by (metis option.exhaust)
qed

text \<open>A file of ordinary lines, and commands that are neither \<open>pid-file\<close> nor \<open>include\<close>.\<close>

definition file_lines :: "file_world \<Rightarrow> string \<Rightarrow> string list \<Rightarrow> bool" where
  "file_lines w path lines \<longleftrightarrow> (\<forall>line \<in> set lines. fits line) \<and>
     fw_content w path = Some (concat (map (\<lambda>l. l @ [newline]) lines))"

definition plain_commands :: "bitu_command list \<Rightarrow> bool" where
  "plain_commands cs \<longleftrightarrow> (\<forall>c \<in> set cs. \<exists>name. command_name c = Some name \<and> name \<noteq> ''pid-file'' \<and> name \<noteq> ''include'')"

lemma read_lines:
  assumes "file_lines w path lines" "commands_of U lines = Some cs" "cs \<noteq> []" "ta_list_ok T"
  shows "read_globbed U T w [path] conf = Some (Some cs)"
  using assms conf_loop_lines [of lines T U "[]"] by (simp add: file_lines_def bitu_conf_read_from_file_def)

lemma sort_include:
  assumes "ta_list_ok T" "plain_commands cs" "is_command ''include'' [target] c"
  shows "sort_commands T (cs @ [c]) None pid commands = Some (Some target, pid, commands @ cs)"
proof -
  have T: "ta_append T xs x = xs @ [x]" for xs x
    using assms(1) by (simp add: ta_list_ok_def)
  show ?thesis
    using assms(2,3) by (induction cs arbitrary: commands) (auto simp: T plain_commands_def is_command_def)
qed

text \<open>
  C26. Included configuration files: a file that ends with \<open>include\<close> of another one gives its own
  commands, then those of the other file, and the loop over the files ends; a file that ends
  with \<open>include\<close> of itself keeps \<open>bitud\<close> in this loop for ever.
\<close>
theorem config_includes:
  assumes "ta_list_ok T" "fw_glob w p1 = Some [f1]" "fw_glob w p2 = Some [f2]" "fw_glob w p3 = Some [f3]"
    and "file_lines w f1 lines1" "commands_of U lines1 = Some (cs1 @ [c1])" "plain_commands cs1" "is_command ''include'' [p2] c1"
    and "file_lines w f2 lines2" "commands_of U lines2 = Some cs2" "plain_commands cs2" "cs2 \<noteq> []"
    and "file_lines w f3 lines3" "commands_of U lines3 = Some (cs3 @ [c3])" "plain_commands cs3" "is_command ''include'' [p3] c3"
  shows "config_loop U T w (Some p1) pid [] [] = Some (Config pid (cs1 @ cs2)) \<and>
    config_loop U T w (Some p3) pid [] [] = None"
proof
  have r1: "read_globbed U T w [f1] conf = Some (Some (cs1 @ [c1]))" for conf
    by (rule read_lines [OF assms(5,6) _ assms(1)]) simp
  have r2: "read_globbed U T w [f2] conf = Some (Some cs2)" for conf
    by (rule read_lines [OF assms(9,10,12,1)])
  have r3: "read_globbed U T w [f3] conf = Some (Some (cs3 @ [c3]))" for conf
    by (rule read_lines [OF assms(13,14) _ assms(1)]) simp
  have s2: "sort_commands T cs2 None pid cs1 = Some (None, pid, cs1 @ cs2)"
    using sort_plain [OF assms(1)] assms(11) by (simp add: plain_commands_def)
  show "config_loop U T w (Some p1) pid [] [] = Some (Config pid (cs1 @ cs2))"
    using config_round [OF assms(2) r1 sort_include [OF assms(1,7,8)]] config_round [OF assms(3) r2 s2] config_end by simp
  show "config_loop U T w (Some p3) pid [] [] = None"
    by (rule include_cycle [OF assms(4) r3]) (use sort_include [OF assms(1,15,16)] in blast)
qed

text \<open>Files with the lines \<open>set a b\<close> and \<open>include ...\<close>, for the example.\<close>

definition example_world :: file_world where
  "example_world = \<lparr>fw_glob = \<lambda>p. Some [p],
     fw_content = [''/a'' \<mapsto> ''env'' @ [newline] @ ''include /b'' @ [newline], ''/b'' \<mapsto> ''env'' @ [newline],
       ''/c'' \<mapsto> ''include /c'' @ [newline]]\<rparr>"

theorem config_includes_witness:
  "config_loop glibc_alloc plain_list_api example_world (Some ''/a'') None [] [] =
     Some (Config None [line_command ''env'' [], line_command ''env'' []]) \<and>
   config_loop glibc_alloc plain_list_api example_world (Some ''/c'') None [] [] = None"
proof -
  let ?inc = "\<lambda>p. line_command ''include'' [p]"
  have w: "fw_glob example_world p = Some [p]" for p
    by (simp add: example_world_def)
  have f: "file_lines example_world ''/a'' [''env'', ''include /b'']" "file_lines example_world ''/b'' [''env'']"
    "file_lines example_world ''/c'' [''include /c'']"
    by (auto simp: file_lines_def example_world_def fits_def newline_def NUL_def)
  have c: "commands_of glibc_alloc [''env'', ''include /b''] = Some ([line_command ''env'' []] @ [?inc ''/b''])"
    "commands_of glibc_alloc [''env''] = Some [line_command ''env'' []]"
    "commands_of glibc_alloc [''include /c''] = Some ([] @ [?inc ''/c''])"
    by code_simp+
  have p: "plain_commands [line_command ''env'' []]" "plain_commands []"
    by (simp_all add: plain_commands_def line_command_def)
  show ?thesis
    using config_includes [OF plain_list_ok w w w f(1) c(1) p(1) line_command_is f(2) c(2) p(1) _ f(3) c(3) p(2) line_command_is, of None]
    by simp
qed

section \<open>Starting \<open>bitud\<close>\<close>

lemma add_line_parsed:
  assumes "config_word uri" "build_cmdline glibc_alloc ''transport'' [''add'', uri] = Some line" "fits line"
  shows "\<not> skipped line \<and> (\<exists>c. bitu_command_new glibc_alloc None line None = Some c \<and> is_command ''transport'' [''add'', uri] c)"
proof -
  let ?ps = "[''add'', uri]"
  have h: "2 \<le> length ''transport''" "length ''transport'' < 136" "\<forall>c \<in> set ''transport''. c \<noteq> backslash \<and> \<not> special c"
    "\<not> isspace (hd ''transport'')" "\<not> isspace (last (last (''transport'' # ?ps)))"
    "\<forall>p \<in> set ?ps. backslash \<notin> set p \<and> (\<exists>c \<in> set p. \<not> special c)"
    using assms(1) by (auto simp: config_word_def special_def isspace_def blank_def quote_def backslash_def)
  note parsed = cmdline_parsed [OF h]
  have line: "line = ''transport'' @ params_text ?ps"
    using assms parsed(1) by simp
  have "plain_start (strip line)"
    using parsed(2,3) line by simp
  from command_new_run [OF this, of None None] show ?thesis
    using parsed(3,4) line by (simp add: is_command_def skipped_def)
qed

text \<open>The command \<open>transport add\<close> for a local transport in an application without transports.\<close>

definition file_iri :: "iri \<Rightarrow> string \<Rightarrow> bool" where
  "file_iri iri path \<longleftrightarrow> iri_scheme iri = Some ''file'' \<and> iri_path iri = Some path \<and> length path < 108"

lemma exec_add:
  assumes "app_inv app" "app_room app" "\<forall>uri. lookup (ap_connections app) uri = None"
    and "is_command ''transport'' [''add'', uri] c" "ae_parse E uri = Some iri" "file_iri iri path"
  shows "\<exists>app'. bitu_app_exec_command E app c = Some (app', None, TA_OK) \<and> app_inv app' \<and>
    dom (lookup (ap_connections app')) = {uri} \<and> startable (ap_connections app') uri \<and>
    cm_threads (ap_connections app') = cm_threads (ap_connections app) \<and>
    cm_consumers (ap_connections app') = cm_consumers (ap_connections app) \<and> (\<exists>m. app' = app\<lparr>ap_connections := m\<rparr>)"
proof -
  let ?m = "ap_connections app"
  let ?t = "\<lparr>tr_uri = iri, tr_data = None, tr_logger = Logger, tr_callbacks = all_of Local, tr_commands = No_value\<rparr>"
  have new: "bitu_transport_new (ae_parse E) uri = Some (Inr ?t)"
    using assms(5,6) by (simp add: transport_new_eq file_iri_def)
  have room: "cm_room ?m"
    using assms(2) by (simp add: app_room_def)
  obtain m' p where m': "bitu_conn_manager_add (ae_parse E) ?m uri = Some (m', p)" "cm_inv m'"
    "lookup m' = (lookup ?m)(uri \<mapsto> ?t\<lparr>tr_commands := Manager_queue\<rparr>)"
    using add_run [OF app_invD(4) [OF assms(1)] room new] assms(3) by auto
  have same: "cm_threads m' = cm_threads ?m \<and> cm_consumers m' = cm_consumers ?m"
    using m'(1) by (auto simp: bitu_conn_manager_add_def Let_def split: bind_splits option.splits sum.splits)
  let ?app = "app\<lparr>ap_connections := m'\<rparr>"
  have exec: "bitu_app_exec_command E app c = Some (?app, None, TA_OK)"
    by (simp add: exec_builtin [OF assms(1,4) builtin_names(8)] run_builtin_def cmd_transport_def checked_def
        validate_num_params_def validate_min_num_params_def with_connections_def m'(1))
  have "dom (lookup m') = {uri}" "startable m' uri"
    using assms(3,6) by (auto simp: m'(3) startable_def local_stopped_def file_iri_def split: if_splits)
  then show ?thesis
    using exec app_inv_connections [OF assms(1) m'(2)] same by (intro exI [of _ ?app]) (simp, blast)
qed

text \<open>
  C21. \<open>bitud\<close> with a configuration file that adds one local transport, whose socket can be bound and whose threads can be created:
  the configuration is read, the transport runs, and the program reaches its main loop. In the
  foreground the transport has its thread and there is one consumer of the command queue. With
  the option to go to the background it goes there after these threads have been
  started, in a child process that has neither of them: nobody accepts connections and nobody
  executes commands.
\<close>
theorem bitud_starts:
  assumes "main_options opts None None False = Options_go (Some pattern) pid daemonize" "me_daemon E"
    and "fw_glob (me_files E) pattern = Some [f]" "file_lines (me_files E) f [line]"
    and "config_word uri" "build_cmdline glibc_alloc ''transport'' [''add'', uri] = Some line"
    and "ae_alloc (me_app E) = glibc_alloc" "ta_list_ok (ae_list (me_app E))" "ta_list_ok (me_list E)"
    and "ae_parse (me_app E) uri = Some iri" "file_iri iri path" "socket_ok (me_transports E uri)"
    and "me_sigaction E" "threads_start (me_app E) (me_transports E)"
  shows "\<exists>app t. bitud_main E opts = Some (Main_sleeps app
        (case pid of None \<Rightarrow> None | Some _ \<Rightarrow> save_pid (me_stat E) (me_open E) (me_old E) (me_pid E))) \<and>
    dom (lookup (ap_connections app)) = {uri} \<and> lookup (ap_connections app) uri = Some t \<and>
    bitu_transport_is_running env t = Some (Ta TA_OK) \<and>
    length (cm_threads (ap_connections app)) = (if Main_daemonize \<in> set opts then 0 else 1) \<and>
    cm_consumers (ap_connections app) = (if Main_daemonize \<in> set opts then 0 else 1)"
proof -
  have fits: "fits line"
    using assms(4) by (simp add: file_lines_def)
  obtain c where c: "\<not> skipped line" "bitu_command_new glibc_alloc None line None = Some c"
    "is_command ''transport'' [''add'', uri] c"
    using add_line_parsed [OF assms(5,6) fits] by blast
  have "read_globbed glibc_alloc (me_list E) (me_files E) [f] [] = Some (Some [c])"
    by (rule read_lines [OF assms(4) _ _ assms(9)]) (simp_all add: c)
  moreover have "sort_commands (me_list E) [c] None pid [] = Some (None, pid, [c])"
    using sort_plain [OF assms(9), of "[c]" None pid "[]"] c(3) by (simp add: is_command_def)
  ultimately have conf: "config_loop glibc_alloc (me_list E) (me_files E) (Some pattern) pid [] [] = Some (Config pid [c])"
    using config_round [OF assms(3)] config_end by simp
  obtain app0 where app0: "bitu_app_new = Some app0" "app_inv app0" "app_room app0"
    "\<forall>uri. lookup (ap_connections app0) uri = None" "cm_consumers (ap_connections app0) = 0"
    "cm_threads (ap_connections app0) = []"
    using app_new_run by blast
  obtain app1 where app1: "bitu_app_exec_command (me_app E) app0 c = Some (app1, None, TA_OK)" "app_inv app1"
    "dom (lookup (ap_connections app1)) = {uri}" "startable (ap_connections app1) uri"
    "cm_threads (ap_connections app1) = []" "cm_consumers (ap_connections app1) = 0"
    using exec_add [OF app0(2,3,4) c(3) assms(10,11)] app0(5,6) by auto
  have up: "{u \<in> dom (lookup (ap_connections app1)). socket_ok (me_transports E u)} = {uri}"
    using app1(3) assms(12) by auto
  have st: "\<forall>u \<in> dom (lookup (ap_connections app1)). startable (ap_connections app1) u"
    using app1(3,4) by simp
  obtain app2 where app2: "bitu_app_run_transports (me_app E) (me_transports E) app1 = Some (app2, TA_OK)"
    "dom (lookup (ap_connections app2)) = {uri}"
    "\<And>t. lookup (ap_connections app2) uri = Some t \<Longrightarrow> bitu_transport_is_running env t = Some (Ta TA_OK)"
    "length (cm_threads (ap_connections app2)) = 1" "cm_consumers (ap_connections app2) = 1"
    using run_transports_run [OF app1(2) assms(8,14) st, of env] app1(3,5,6) unfolding up Let_def by auto
  obtain t where t: "lookup (ap_connections app2) uri = Some t"
    using app2(2) by blast
  have d: "daemonize \<longleftrightarrow> Main_daemonize \<in> set opts"
    using main_options_daemonize [OF assms(1)] by simp
  let ?app = "if daemonize then daemon_child app2 else app2"
  have "bitud_main E opts = Some (Main_sleeps ?app
        (case pid of None \<Rightarrow> None | Some _ \<Rightarrow> save_pid (me_stat E) (me_open E) (me_old E) (me_pid E)))"
    using assms(1,2,7,13) conf by (simp add: bitud_main_def setup_sigaction_def Let_def app0(1) app1(1) app2(1))
  then show ?thesis
    using app2 t d by (intro exI [of _ ?app] exI [of _ t]) (simp add: daemon_child_def)
qed

theorem bitud_starts_witness:
  "\<exists>E app app'. bitud_main E [Main_config ''bitu.conf''] = Some (Main_sleeps app None) \<and>
    cm_consumers (ap_connections app) = 1 \<and>
    bitud_main E [Main_daemonize, Main_config ''bitu.conf'', Main_pid_file ''pid''] = Some (Main_sleeps app' (Some ''12345'')) \<and>
    cm_consumers (ap_connections app') = 0"
proof -
  define A where "A = (example_app_env (\<lambda>_. None))\<lparr>ae_parse := \<lambda>_. Some (example_iri ''file'')\<rparr>"
  define W where "W = \<lparr>fw_glob = \<lambda>p. Some [p], fw_content = \<lambda>_. Some (''transport add file:///tmp/s'' @ [newline])\<rparr>"
  define E where "E = \<lparr>me_files = W, me_list = plain_list_api, me_app = A, me_transports = \<lambda>_. example_env,
      me_daemon = True, me_stat = Stat_ok, me_open = True, me_access = False, me_old = ''99945'', me_pid = 123, me_sigaction = True, me_prname = ''bitud'',
      me_version = ''0.3'', me_bugreport = []\<rparr>"
  have b: "build_cmdline glibc_alloc ''transport'' [''add'', ''file:///tmp/s''] = Some ''transport add file:///tmp/s''"
    by code_simp
  have h: "me_daemon E" "fw_glob (me_files E) ''bitu.conf'' = Some [''bitu.conf'']"
    "file_lines (me_files E) ''bitu.conf'' [''transport add file:///tmp/s'']"
    "ae_alloc (me_app E) = glibc_alloc" "ta_list_ok (ae_list (me_app E))" "ta_list_ok (me_list E)"
    "ae_parse (me_app E) ''file:///tmp/s'' = Some (example_iri ''file'')" "socket_ok (me_transports E ''file:///tmp/s'')"
    "file_iri (example_iri ''file'') ''/tmp/s''" "config_word ''file:///tmp/s''" "me_sigaction E" "threads_start (me_app E) (me_transports E)"
    by (auto simp: E_def A_def W_def file_lines_def fits_def newline_def NUL_def example_app_env_def plain_list_ok
        example_iri_def file_iri_def socket_ok_def threads_start_def example_env_def config_word_def special_def isspace_def blank_def
        quote_def backslash_def)
  have o: "main_options [Main_config ''bitu.conf''] None None False = Options_go (Some ''bitu.conf'') None False"
    "main_options [Main_daemonize, Main_config ''bitu.conf'', Main_pid_file ''pid''] None None False =
       Options_go (Some ''bitu.conf'') (Some ''pid'') True"
    by simp_all
  have p: "save_pid (me_stat E) (me_open E) (me_old E) (me_pid E) = Some ''12345''"
    unfolding E_def by code_simp
  show ?thesis
    using bitud_starts [OF o(1) h(1-3,10) b h(4-7,9,8,11,12), of example_env]
      bitud_starts [OF o(2) h(1-3,10) b h(4-7,9,8,11,12), of example_env] by (auto simp: p)
qed

end
