(* ===== verification/System.thy ===== *)
theory System
  imports Bitud_Props
begin

text \<open>
  The whole way of a command: from the words given to \<open>bituctl\<close> over the socket, the local server, the
  transport, the queue and the consumer to the application, and of the answer back to the
  terminal.
\<close>

lemma exec_command_local:
  assumes "bitu_app_exec_command E app c = Some (app2, Some answer, st)" "command_transport c = Some a"
    and "command_from c = Some cid" "cm_heap (ap_connections app2) a = Some t" "tr_callbacks t = all_of Local"
    and "tr_data t = Some (Data_server server)" "ht_wf (sv_clients server)" "ht_map (sv_clients server) cid = Some client"
    and "answer \<noteq> []" "be_wire (ae_backend E) = replicate k Send_again @ Sent (length answer) # rs"
  shows "exec_command E app c = Some (app2, Some answer, st)"
  using assms send_whole [OF assms(9), of k rs]
  by (simp add: exec_command_def bitu_transport_send_def local_send_def server_send_eq)

text \<open>
  C4. A built-in command given to \<open>bituctl\<close>, for words that survive its escapes: however the line is
  cut into pieces, the server puts it together; the transport queues one command; the
  consumer takes exactly this command from the queue, which is then as before; executing it
  runs the built-in function of that name with exactly the words that were given as its
  parameters, and sends its answer to the client; and \<open>bituctl\<close> prints the answer.
\<close>
theorem remote_command:
  assumes "2 \<le> length cmd" "length cmd < 136" "\<forall>c \<in> set cmd. c \<noteq> backslash \<and> \<not> special c"
    and "\<not> isspace (hd cmd)" "\<not> isspace (last (last (cmd # params)))"
    and "\<forall>p \<in> set params. backslash \<notin> set p \<and> (\<exists>c \<in> set p. \<not> special c)"
    and "build_cmdline glibc_alloc cmd params = Some line" "concat pieces = line"
    and "\<forall>d \<in> set pieces. d \<noteq> [] \<and> length d < 128"
    and "ta_list_ok T" "app_inv app" "q_list (cm_commands (ap_connections app)) = []"
    and "0 < q_maxsize (cm_commands (ap_connections app))"
    and "cm_heap (ap_connections app) a = Some t" "tr_callbacks t = all_of Local" "tr_logger t = Logger"
    and "tr_data t = Some (Data_server server)" "ht_wf (sv_clients server)" "ht_map (sv_clients server) cid = Some client"
    and "map_of builtins cmd = Some f" "run_builtin E f app params (int (length params)) = Some (app2, Some answer)"
    and "cm_heap (ap_connections app2) a = Some t"
    and "be_wire (ae_backend E) = replicate k Send_again @ Sent (length answer) # rs"
    and "concat answers = answer" "answers \<noteq> []" "\<forall>d \<in> set answers. 2 \<le> length d \<and> length d < 128 \<and> NUL \<notin> set d"
  shows "\<exists>m1 c. recv_message (\<lambda>_. True) glibc_alloc (map piece pieces @ [Select_none]) None 0 0 = Some (Some line) \<and>
    message_received T glibc_alloc env (ap_connections app) a cid line = Some m1 \<and>
    bitu_queue_pop T (cm_commands m1) = (cm_commands (ap_connections app), Some c) \<and>
    exec_command E app c = Some (app2, Some answer, TA_OK) \<and>
    bitu_shell_recv (map piece answers @ [Select_none]) = Some (answer @ [newline], length answer)"
proof -
  note parsed = cmdline_parsed [OF assms(1-6)]
  have line: "line = cmd @ params_text params"
    using assms(7) parsed(1) by simp
  let ?c = "parsed_command a cid line" and ?q = "cm_commands (ap_connections app)"
  have tc: "tr_commands t = Manager_queue"
    by (rule cm_invD(7) [OF app_invD(4) [OF assms(11)] assms(14)])
  have "pieces \<noteq> []"
    using assms(1,8) line by auto
  then have recv: "recv_message (\<lambda>_. True) glibc_alloc (map piece pieces @ [Select_none]) None 0 0 = Some (Some line)"
    using glibc.recv_message_pieces [OF assms(9)] assms(8) by simp
  let ?m1 = "(ap_connections app)\<lparr>cm_commands := ?q\<lparr>q_list := [Some ?c]\<rparr>\<rparr>"
  have "plain_start (strip line)"
    using parsed(2,3) line by simp
  then have msg: "message_received T glibc_alloc env (ap_connections app) a cid line = Some ?m1"
    using message_received_run [OF assms(10,14) tc assms(16), of line env cid] assms(12,13) parsed(3) line by simp
  have "ta_pop T ([] @ [Some ?c]) = ([], Some (Some ?c))"
    using assms(10) unfolding ta_list_ok_def by blast
  then have pop: "bitu_queue_pop T (cm_commands ?m1) = (?q, Some ?c)"
    using assms(12) by (simp add: bitu_queue_pop_def)
  have "is_command cmd params ?c"
    using parsed(4) line by (simp add: is_command_def parsed_command_def)
  then have exec: "bitu_app_exec_command E app ?c = Some (app2, Some answer, TA_OK)"
    using exec_builtin [OF assms(11) _ assms(20)] assms(21) by simp
  have ne: "answer \<noteq> []"
    using assms(24-26) by (cases answers) auto
  have from_a: "command_transport ?c = Some a" "command_from ?c = Some cid"
    by (simp_all add: parsed_command_def)
  have "exec_command E app ?c = Some (app2, Some answer, TA_OK)"
    by (rule exec_command_local [OF exec from_a assms(22,15,17,18,19) ne assms(23)])
  then show ?thesis
    using recv msg pop shell_recv_run [OF assms(26,25)] assms(24)
    by (intro exI [of _ ?m1] exI [of _ ?c]) (simp add: piece_def [abs_def])
qed

theorem remote_command_witness:
  "\<exists>E app a m1 c. recv_message (\<lambda>_. True) glibc_alloc (map piece [''ge'', ''t name''] @ [Select_none]) None 0 0 = Some (Some ''get name'') \<and>
    message_received plain_list_api glibc_alloc example_env (ap_connections app) a ''id'' ''get name'' = Some m1 \<and>
    bitu_queue_pop plain_list_api (cm_commands m1) = (bitu_queue_new, Some c) \<and>
    exec_command E app c = Some (app, Some ''bitU'', TA_OK) \<and>
    bitu_shell_recv (map piece [''bitU''] @ [Select_none]) = Some (''bitU'' @ [newline], 4)"
proof -
  define E where "E = (example_app_env (\<lambda>_. None))\<lparr>ae_backend := example_env\<lparr>be_wire := replicate 0 Send_again @ [Sent (length ''bitU'')]\<rparr>\<rparr>"
  obtain app0 where app0: "app_inv app0" "app_room app0" "env_of app0 = Map.empty"
    using app_new_run by blast
  obtain app1 where app1: "app_inv app1" "env_of app1 = [''name'' \<mapsto> ''bitU'']"
    using env_exec [OF app0(1), of "Env_set ''name'' ''bitU''" "line_command ''set'' [''name'', ''bitU'']"] app0(2,3)
    by (auto simp: app_room_def env_of_def)
  obtain tbl where tbl: "ht_wf tbl" "ht_map tbl = [''id'' \<mapsto> \<lparr>client_id = ''id'', client_socket = 5\<rparr>]"
    using one_client by metis
  let ?t = "(example_transport Local ''file'')\<lparr>tr_data := Some (Data_server (example_server tbl))\<rparr>"
  obtain m where m: "cm_inv m" "lookup m ''uri'' = Some (example_transport Local ''file'')" "cm_commands m = bitu_queue_new"
    by (rule example_manager [of Local "''file''"]) (simp, blast)
  obtain a where a: "ht_map (cm_transports m) ''uri'' = Some a"
    using m(1,2) by (rule lookup_SomeE)
  have tc: "tr_commands ?t = Manager_queue"
    by (simp add: example_transport_def)
  let ?m = "m\<lparr>cm_heap := (cm_heap m)(a \<mapsto> ?t)\<rparr>"
  let ?app = "app1\<lparr>ap_connections := ?m\<rparr>"
  have inv: "app_inv ?app"
    by (rule app_inv_connections [OF app1(1) cm_inv_update(1) [OF m(1) a tc]])
  have words: "2 \<le> length ''get''" "length ''get'' < 136" "\<forall>c \<in> set ''get''. c \<noteq> backslash \<and> \<not> special c"
    "\<not> isspace (hd ''get'')" "\<not> isspace (last (last (''get'' # [''name''])))"
    "\<forall>p \<in> set [''name'']. backslash \<notin> set p \<and> (\<exists>c \<in> set p. \<not> special c)"
    by (auto simp: special_def isspace_def blank_def quote_def backslash_def)
  have line: "build_cmdline glibc_alloc ''get'' [''name''] = Some ''get name''"
    by code_simp
  have ps: "concat [''ge'', ''t name''] = ''get name''" "\<forall>d \<in> set [''ge'', ''t name'']. d \<noteq> [] \<and> length d < 128"
    by simp_all
  have q: "q_list (cm_commands (ap_connections ?app)) = []" "0 < q_maxsize (cm_commands (ap_connections ?app))"
    by (simp_all add: m(3) bitu_queue_new_def COMMAND_QUEUE_SIZE_def)
  have t: "cm_heap (ap_connections ?app) a = Some ?t" "tr_callbacks ?t = all_of Local" "tr_logger ?t = Logger"
    "tr_data ?t = Some (Data_server (example_server tbl))" "ht_wf (sv_clients (example_server tbl))"
    "ht_map (sv_clients (example_server tbl)) ''id'' = Some \<lparr>client_id = ''id'', client_socket = 5\<rparr>"
    using tbl by (simp_all add: example_transport_def example_server_def)
  have "hashtable_get (ap_environment app1) ''name'' = Some (Some ''bitU'')"
    using ht.get_law [OF app_invD(1) [OF app1(1)], of "''name''"] app1(2) by (simp add: env_of_def)
  then have run: "run_builtin E Cmd_get ?app [''name''] (int (length [''name''])) = Some (?app, Some ''bitU'')"
    by (simp add: run_builtin_def cmd_get_def checked_def validate_num_params_def)
  have wire: "be_wire (ae_backend E) = replicate 0 Send_again @ Sent (length ''bitU'') # []"
    by (simp add: E_def)
  have ans: "concat [''bitU''] = ''bitU''" "[''bitU''] \<noteq> []"
    "\<forall>d \<in> set [''bitU'']. 2 \<le> length d \<and> length d < 128 \<and> NUL \<notin> set d"
    by (simp_all add: NUL_def)
  have qn: "cm_commands (ap_connections ?app) = bitu_queue_new"
    by (simp add: m(3))
  have four: "length ''bitU'' = 4"
    by simp
  from remote_command [OF words line ps plain_list_ok inv q t builtin_names(3) run t(1) wire ans, of example_env]
  show ?thesis
    unfolding qn four by blast
qed

end
