(* ===== verification/Sessions.thy ===== *)
theory Sessions
  imports System Sequential
begin

text \<open>
  The two threads of a local transport together with the application: the server thread, which
  accepts one client after the other and queues their messages, and the consumer, which executes the
  commands and answers while the server goes on. A step is one call that changes the common state; the
  table of clients is used by both threads without a lock, so that a step inside of another one is
  beyond this model.
\<close>

section \<open>The state and its steps\<close>

text \<open>
  \<open>wd_current\<close> is the client that the server thread is serving, with its socket. The other fields do
  not exist in the program: the connections are numbered; \<open>wd_peers\<close> gives the connection that a
  socket belongs to, \<open>wd_conn\<close> the connection an identifier was made for, \<open>wd_asked\<close> the connections
  whose messages were queued, and \<open>wd_sent\<close> for each answer the connection that had asked, the one that
  is at the other end of the socket which the answer is written to, and what is written.
\<close>

record world =
  wd_app :: bitu_app
  wd_current :: "(string \<times> int) option"
  wd_peers :: "int \<rightharpoonup> nat"
  wd_conn :: "string \<rightharpoonup> nat"
  wd_count :: nat
  wd_asked :: "nat option list"
  wd_sent :: "(nat option \<times> nat option \<times> string option) list"

definition local_server :: "bitu_app \<Rightarrow> nat \<Rightarrow> (bitu_transport \<times> bitu_server) option" where
  "local_server app a = do {
     t \<leftarrow> cm_heap (ap_connections app) a;
     require (tr_callbacks t = all_of Local);
     case tr_data t of
       Some (Data_server server) \<Rightarrow> Some (t, server)
     | _ \<Rightarrow> None }"

definition put_clients ::
    "nat \<Rightarrow> bitu_transport \<Rightarrow> bitu_server \<Rightarrow> (string, bitu_client) hashtable \<Rightarrow> bitu_app \<Rightarrow> bitu_app" where
  "put_clients a t server clients app = app\<lparr>ap_connections := (ap_connections app)\<lparr>cm_heap :=
     (cm_heap (ap_connections app))(a \<mapsto> t\<lparr>tr_data := Some (Data_server (server\<lparr>sv_clients := clients\<rparr>))\<rparr>)\<rparr>\<rparr>"

definition put_queue :: "bitu_command bitu_queue \<Rightarrow> bitu_app \<Rightarrow> bitu_app" where
  "put_queue q app = app\<lparr>ap_connections := (ap_connections app)\<lparr>cm_commands := q\<rparr>\<rparr>"

definition asker :: "world \<Rightarrow> bitu_command \<Rightarrow> nat option" where
  "asker w c = do { cid \<leftarrow> command_from c; wd_conn w cid }"

definition receiver :: "world \<Rightarrow> bitu_server \<Rightarrow> bitu_command \<Rightarrow> nat option" where
  "receiver w server c = do {
     cid \<leftarrow> command_from c;
     client \<leftarrow> ht_map (sv_clients server) cid;
     wd_peers w (bitu_client_get_socket client) }"

text \<open>
  \<open>Connect\<close>: the kernel gives a descriptor that is not open, \<open>uuid_generate\<close> an identifier that
  has not been used. \<open>Answer\<close> is about commands that leave the transports as they are.
\<close>

inductive wstep :: "bitu_command option ta_list_api \<Rightarrow> allocator \<Rightarrow> nat \<Rightarrow> world \<Rightarrow> world \<Rightarrow> bool" for T U a where
  Connect: "wd_current w = None \<Longrightarrow> local_server (wd_app w) a = Some (t, server) \<Longrightarrow> sv_can_run server \<Longrightarrow>
     wd_peers w sock = None \<Longrightarrow> bitu_client_new U uuid sock = Some client \<Longrightarrow> cid = bitu_client_get_id client \<Longrightarrow>
     wd_conn w cid = None \<Longrightarrow> hashtable_set True True (sv_clients server) cid client = Some (clients, rc) \<Longrightarrow>
     wstep T U a w (w\<lparr>wd_app := put_clients a t server clients (wd_app w), wd_current := Some (cid, sock),
       wd_peers := (wd_peers w)(sock \<mapsto> wd_count w), wd_conn := (wd_conn w)(cid \<mapsto> wd_count w),
       wd_count := Suc (wd_count w)\<rparr>)"
| Message: "wd_current w = Some (cid, sock) \<Longrightarrow> local_server (wd_app w) a = Some (t, server) \<Longrightarrow> sv_callback server \<Longrightarrow>
     recv_message (\<lambda>_. True) U events None 0 0 = Some (Some s) \<Longrightarrow> \<not> says_goodbye (Some s) \<Longrightarrow>
     local_message_received T U env (ap_connections (wd_app w)) server cid (c_string s) = Some m \<Longrightarrow>
     wstep T U a w (w\<lparr>wd_app := (wd_app w)\<lparr>ap_connections := m\<rparr>, wd_asked := wd_asked w @ [wd_peers w sock]\<rparr>)"
| Leave: "wd_current w = Some (cid, sock) \<Longrightarrow> local_server (wd_app w) a = Some (t, server) \<Longrightarrow>
     recv_message (\<lambda>_. True) U events None 0 0 = Some str \<Longrightarrow> says_goodbye str \<Longrightarrow>
     hashtable_del (sv_clients server) cid = Some (clients, rc) \<Longrightarrow>
     wstep T U a w (w\<lparr>wd_app := put_clients a t server clients (wd_app w), wd_current := None,
       wd_peers := (wd_peers w)(sock := None)\<rparr>)"
| Answer: "bitu_queue_pop T (cm_commands (ap_connections (wd_app w))) = (q, Some c) \<Longrightarrow>
     exec_command E (put_queue q (wd_app w)) c = Some (app2, out, st) \<Longrightarrow>
     ap_connections app2 = ap_connections (put_queue q (wd_app w)) \<Longrightarrow> local_server (wd_app w) a = Some (t, server) \<Longrightarrow>
     wstep T U a w (w\<lparr>wd_app := app2, wd_sent := wd_sent w @ [(asker w c, receiver w server c, out)]\<rparr>)"

inductive_cases wstepE: "wstep T U a w w'"

text \<open>The start: the transport is running, nobody is connected, and nothing is queued.\<close>

definition wstart :: "nat \<Rightarrow> bitu_app \<Rightarrow> bool" where
  "wstart a app \<longleftrightarrow> q_list (cm_commands (ap_connections app)) = [] \<and> (\<exists>t server. local_server app a = Some (t, server) \<and>
     tr_commands t = Manager_queue \<and> sv_data server = Some a \<and> ht_wf (sv_clients server) \<and> ht_map (sv_clients server) = Map.empty)"

definition winit :: "bitu_app \<Rightarrow> world" where
  "winit app = \<lparr>wd_app = app, wd_current = None, wd_peers = Map.empty, wd_conn = Map.empty, wd_count = 0,
     wd_asked = [], wd_sent = []\<rparr>"

inductive wreach :: "bitu_command option ta_list_api \<Rightarrow> allocator \<Rightarrow> nat \<Rightarrow> bitu_app \<Rightarrow> world \<Rightarrow> bool" for T U a app where
  start: "wstart a app \<Longrightarrow> wreach T U a app (winit app)"
| step: "wreach T U a app w \<Longrightarrow> wstep T U a w w' \<Longrightarrow> wreach T U a app w'"

section \<open>The invariant\<close>

text \<open>
  The table of clients holds exactly the client that is being served, and its socket belongs to the
  connection its identifier was made for; every command in the queue comes from this transport and
  from an identifier that some connection got.
\<close>

definition queued :: "world \<Rightarrow> bitu_command list" where
  "queued w = somes (rev (q_list (cm_commands (ap_connections (wd_app w)))))"

definition clients_inv :: "nat \<Rightarrow> world \<Rightarrow> bool" where
  "clients_inv a w \<longleftrightarrow> (\<exists>t server. local_server (wd_app w) a = Some (t, server) \<and> tr_commands t = Manager_queue \<and> sv_data server = Some a \<and>
     ht_wf (sv_clients server) \<and>
     (case wd_current w of
        None \<Rightarrow> ht_map (sv_clients server) = Map.empty
      | Some (cid, sock) \<Rightarrow> ht_map (sv_clients server) = [cid \<mapsto> \<lparr>client_id = cid, client_socket = sock\<rparr>] \<and>
          wd_conn w cid \<noteq> None \<and> wd_peers w sock = wd_conn w cid))"

definition queued_inv :: "nat \<Rightarrow> world \<Rightarrow> bool" where
  "queued_inv a w \<longleftrightarrow> None \<notin> set (q_list (cm_commands (ap_connections (wd_app w)))) \<and>
     (\<forall>c \<in> set (queued w). command_transport c = Some a \<and> (\<exists>cid. command_from c = Some cid \<and> wd_conn w cid \<noteq> None))"

definition order_inv :: "world \<Rightarrow> bool" where
  "order_inv w \<longleftrightarrow> map fst (wd_sent w) @ map (asker w) (queued w) = wd_asked w"

definition sent_inv :: "world \<Rightarrow> bool" where
  "sent_inv w \<longleftrightarrow> (\<forall>(n, r, out) \<in> set (wd_sent w). n \<noteq> None \<and> (r = n \<or> r = None \<and> out = Some []))"

definition world_inv :: "nat \<Rightarrow> world \<Rightarrow> bool" where
  "world_inv a w \<longleftrightarrow> clients_inv a w \<and> queued_inv a w \<and> order_inv w \<and> sent_inv w"

lemma local_serverD:
  "local_server app a = Some (t, server) \<Longrightarrow>
     cm_heap (ap_connections app) a = Some t \<and> tr_callbacks t = all_of Local \<and> tr_data t = Some (Data_server server)"
  by (auto simp: local_server_def split: bind_splits backend.splits option.splits tr_data.splits)

lemma local_server_put [simp]:
  "tr_callbacks t = all_of Local \<Longrightarrow> local_server (put_clients a t server clients app) a =
     Some (t\<lparr>tr_data := Some (Data_server (server\<lparr>sv_clients := clients\<rparr>))\<rparr>, server\<lparr>sv_clients := clients\<rparr>)"
  by (simp add: local_server_def put_clients_def)

lemma put_clients_queue [simp]:
  "cm_commands (ap_connections (put_clients a t server clients app)) = cm_commands (ap_connections app)"
  by (simp add: put_clients_def)

lemma local_server_queue [simp]: "local_server (put_queue q app) a = local_server app a"
  by (simp add: local_server_def put_queue_def)

lemma world_inv_init: "wstart a app \<Longrightarrow> world_inv a (winit app)"
  by (auto simp: world_inv_def wstart_def winit_def clients_inv_def queued_inv_def order_inv_def sent_inv_def queued_def)

text \<open>A message becomes one command, or the callback does not return.\<close>

lemma message_shape:
  assumes "ta_list_ok T" "cm_heap m a = Some t" "tr_commands t = Manager_queue" "message_received T U env m a cid s = Some m'"
  obtains c where "command_transport c = Some a" "command_from c = Some cid" "cm_heap m' = cm_heap m"
    "q_list (cm_commands m') = Some c # q_list (cm_commands m)"
proof -
  have T: "ta_prepend T xs x = x # xs" for xs x
    using assms(1) by (simp add: ta_list_ok_def)
  obtain c where c: "bitu_command_new U (Some a) s (Some cid) = Some c"
    using assms(4) by (auto simp: message_received_def split: bind_splits)
  have "command_transport c = Some a" "command_from c = Some cid"
    using c by (auto simp: bitu_command_new_def split: bind_splits option.splits)
  moreover have "cm_heap m' = cm_heap m" "q_list (cm_commands m') = Some c # q_list (cm_commands m)"
    using assms(2-4) c
    by (auto simp: message_received_def bitu_transport_queue_command_def bitu_queue_add_def T split: bind_splits if_splits)
  ultimately show ?thesis
    by (rule that)
qed

text \<open>What an answer writes to the socket.\<close>

lemma answer_shape:
  assumes "exec_command E app c = Some (app2, out, st)" "ap_connections app2 = ap_connections app"
    and "local_server app a = Some (t, server)" "ht_wf (sv_clients server)"
    and "command_transport c = Some a" "command_from c = Some cid" "ht_map (sv_clients server) cid = None"
  shows "out = Some []"
proof -
  note t = local_serverD [OF assms(3)]
  show ?thesis
    using assms(1,2,5-7) t
    by (auto simp: exec_command_def bitu_transport_send_def local_send_def server_send_eq [OF assms(4)] split: bind_splits)
qed

text \<open>Each kind of step keeps the invariant.\<close>

lemma connect_inv:
  assumes inv: "world_inv a w" and cur: "wd_current w = None" and srv: "local_server (wd_app w) a = Some (t, server)"
    and new: "bitu_client_new U uuid sock = Some client" "wd_conn w (bitu_client_get_id client) = None"
    and set: "hashtable_set True True (sv_clients server) (bitu_client_get_id client) client = Some (clients, rc)"
  shows "world_inv a (w\<lparr>wd_app := put_clients a t server clients (wd_app w),
    wd_current := Some (bitu_client_get_id client, sock), wd_peers := (wd_peers w)(sock \<mapsto> wd_count w),
    wd_conn := (wd_conn w)(bitu_client_get_id client \<mapsto> wd_count w), wd_count := Suc (wd_count w)\<rparr>)"
    (is "world_inv a ?w")
proof -
  let ?cid = "bitu_client_get_id client"
  have c: "client = \<lparr>client_id = ?cid, client_socket = sock\<rparr>"
    using new(1) by (auto simp: bitu_client_new_def bitu_client_get_id_def split: bind_splits)
  have s: "tr_commands t = Manager_queue" "sv_data server = Some a" "ht_wf (sv_clients server)" "ht_map (sv_clients server) = Map.empty"
    using inv cur srv by (simp_all add: world_inv_def clients_inv_def)
  have "card (dom (ht_map (sv_clients server))) < ht_capacity"
    by (simp add: s(4) ht_capacity_def)
  then have clients: "ht_wf clients" "ht_map clients = [?cid \<mapsto> client]"
    using ht.set_law [OF s(3), of ?cid client] set s(4) by auto
  have l: "tr_callbacks t = all_of Local"
    using local_serverD [OF srv] by blast
  have "clients_inv a ?w"
    using s clients l c by (simp add: clients_inv_def)
  moreover have same: "asker ?w x = asker w x" if "x \<in> set (queued w)" for x
    using inv new(2) that by (fastforce simp: world_inv_def queued_inv_def asker_def)
  have q: "queued ?w = queued w"
    by (simp add: queued_def)
  have grows: "wd_conn ?w k \<noteq> None" if "wd_conn w k \<noteq> None" for k
    using that by simp
  have "queued_inv a ?w"
    unfolding queued_inv_def q
  proof (intro conjI ballI)
    show "None \<notin> set (q_list (cm_commands (ap_connections (wd_app ?w))))"
      using inv by (simp add: world_inv_def queued_inv_def)
    fix x
    assume "x \<in> set (queued w)"
    then show "command_transport x = Some a" "\<exists>cid. command_from x = Some cid \<and> wd_conn ?w cid \<noteq> None"
      using inv grows unfolding world_inv_def queued_inv_def by blast+
  qed
  moreover have "order_inv ?w"
    using inv same unfolding world_inv_def order_inv_def q by (simp cong: map_cong)
  moreover have "sent_inv ?w"
    using inv by (simp add: world_inv_def sent_inv_def)
  ultimately show ?thesis
    by (simp add: world_inv_def)
qed

lemma message_inv:
  assumes T: "ta_list_ok T" and inv: "world_inv a w" and cur: "wd_current w = Some (cid, sock)"
    and srv: "local_server (wd_app w) a = Some (t, server)"
    and msg: "local_message_received T U env (ap_connections (wd_app w)) server cid s = Some m"
  shows "world_inv a (w\<lparr>wd_app := (wd_app w)\<lparr>ap_connections := m\<rparr>, wd_asked := wd_asked w @ [wd_peers w sock]\<rparr>)"
    (is "world_inv a ?w")
proof -
  have s: "tr_commands t = Manager_queue" "sv_data server = Some a" "wd_conn w cid \<noteq> None" "wd_peers w sock = wd_conn w cid"
    using inv cur srv by (simp_all add: world_inv_def clients_inv_def)
  have "cm_heap (ap_connections (wd_app w)) a = Some t"
    using local_serverD [OF srv] by blast
  moreover have "message_received T U env (ap_connections (wd_app w)) a cid s = Some m"
    using msg s(2) by (simp add: local_message_received_def bitu_server_get_data_def)
  ultimately obtain c where c: "command_transport c = Some a" "command_from c = Some cid"
    "cm_heap m = cm_heap (ap_connections (wd_app w))"
    "q_list (cm_commands m) = Some c # q_list (cm_commands (ap_connections (wd_app w)))"
    by (rule message_shape [OF T _ s(1)])
  have "local_server ((wd_app w)\<lparr>ap_connections := m\<rparr>) a = local_server (wd_app w) a"
    by (simp add: local_server_def c(3))
  then have "clients_inv a ?w"
    using inv cur by (simp add: world_inv_def clients_inv_def)
  moreover have q: "queued ?w = queued w @ [c]"
    by (simp add: queued_def c(4))
  have a: "asker ?w = asker w"
    by (simp add: fun_eq_iff asker_def)
  have "queued_inv a ?w"
    using inv c s(3) unfolding world_inv_def queued_inv_def q by auto
  moreover have "asker w c = wd_peers w sock"
    by (simp add: asker_def c(2) s(4))
  then have "order_inv ?w"
    using inv unfolding world_inv_def order_inv_def q a by simp
  moreover have "sent_inv ?w"
    using inv by (simp add: world_inv_def sent_inv_def)
  ultimately show ?thesis
    by (simp add: world_inv_def)
qed

lemma leave_inv:
  assumes inv: "world_inv a w" and cur: "wd_current w = Some (cid, sock)"
    and srv: "local_server (wd_app w) a = Some (t, server)"
    and del: "hashtable_del (sv_clients server) cid = Some (clients, rc)"
  shows "world_inv a (w\<lparr>wd_app := put_clients a t server clients (wd_app w), wd_current := None,
    wd_peers := (wd_peers w)(sock := None)\<rparr>)" (is "world_inv a ?w")
proof -
  have s: "tr_commands t = Manager_queue" "sv_data server = Some a" "ht_wf (sv_clients server)"
    "ht_map (sv_clients server) = [cid \<mapsto> \<lparr>client_id = cid, client_socket = sock\<rparr>]"
    using inv cur srv by (simp_all add: world_inv_def clients_inv_def)
  have clients: "ht_wf clients" "ht_map clients = Map.empty"
    using ht.del_law [OF s(3), of cid] del s(4) by auto
  have l: "tr_callbacks t = all_of Local"
    using local_serverD [OF srv] by blast
  have "clients_inv a ?w"
    using s clients l by (simp add: clients_inv_def)
  moreover have q: "queued ?w = queued w" and a: "asker ?w = asker w"
    by (simp_all add: queued_def fun_eq_iff asker_def)
  have "queued_inv a ?w" "order_inv ?w" "sent_inv ?w"
    using inv unfolding world_inv_def queued_inv_def order_inv_def sent_inv_def q a by simp_all
  ultimately show ?thesis
    by (simp add: world_inv_def)
qed

lemma answer_inv:
  assumes T: "ta_list_ok T" and inv: "world_inv a w"
    and pop: "bitu_queue_pop T (cm_commands (ap_connections (wd_app w))) = (q, Some c)"
    and exec: "exec_command E (put_queue q (wd_app w)) c = Some (app2, out, st)"
    and same: "ap_connections app2 = ap_connections (put_queue q (wd_app w))"
    and srv: "local_server (wd_app w) a = Some (t, server)"
  shows "world_inv a (w\<lparr>wd_app := app2, wd_sent := wd_sent w @ [(asker w c, receiver w server c, out)]\<rparr>)"
    (is "world_inv a ?w")
proof -
  let ?l = "q_list (cm_commands (ap_connections (wd_app w)))"
  have ne: "?l \<noteq> []" "q_list q = butlast ?l" "last ?l = Some c"
    using queue_list.pop_run [OF queue_listI [OF T], of "cm_commands (ap_connections (wd_app w))"] pop T
    by (cases "?l"; auto simp: bitu_queue_pop_def ta_list_ok_def)+
  have "?l = q_list q @ [Some c]"
    using ne append_butlast_last_id [of ?l] by simp
  then have q: "queued w = c # queued ?w" and n: "set (q_list q) \<subseteq> set ?l"
    by (auto simp: queued_def same put_queue_def)
  have ls: "local_server app2 a = Some (t, server)"
    using srv by (simp add: local_server_def same put_queue_def)
  have s: "ht_wf (sv_clients server)"
    "case wd_current w of None \<Rightarrow> ht_map (sv_clients server) = Map.empty
      | Some (cid, sock) \<Rightarrow> ht_map (sv_clients server) = [cid \<mapsto> \<lparr>client_id = cid, client_socket = sock\<rparr>] \<and>
          wd_conn w cid \<noteq> None \<and> wd_peers w sock = wd_conn w cid"
    using inv srv by (simp_all add: world_inv_def clients_inv_def)
  obtain cid where c: "command_transport c = Some a" "command_from c = Some cid" "wd_conn w cid \<noteq> None"
    using inv q by (auto simp: world_inv_def queued_inv_def)
  have "clients_inv a ?w"
    using inv srv ls by (cases "wd_current w") (auto simp: world_inv_def clients_inv_def)
  moreover have "queued_inv a ?w"
    using inv q n by (auto simp: world_inv_def queued_inv_def same put_queue_def)
  moreover have "asker ?w = asker w"
    by (simp add: fun_eq_iff asker_def)
  then have "order_inv ?w"
    using inv q by (simp add: world_inv_def order_inv_def)
  moreover have "receiver w server c = asker w c \<or> receiver w server c = None \<and> out = Some []"
  proof (cases "ht_map (sv_clients server) cid")
    case None
    have "local_server (put_queue q (wd_app w)) a = Some (t, server)"
      using srv by simp
    from answer_shape [OF exec same this s(1) c(1,2) None] show ?thesis
      by (simp add: receiver_def c(2) None)
  next
    case (Some client)
    then show ?thesis
      using s(2) by (auto simp: receiver_def asker_def c(2) bitu_client_get_socket_def split: option.splits if_splits)
  qed
  then have "sent_inv ?w"
    using inv c(2,3) by (auto simp: world_inv_def sent_inv_def asker_def)
  ultimately show ?thesis
    by (simp add: world_inv_def)
qed

lemma world_inv_step: "ta_list_ok T \<Longrightarrow> wstep T U a w w' \<Longrightarrow> world_inv a w \<Longrightarrow> world_inv a w'"
  by (erule wstepE) (auto intro: connect_inv message_inv leave_inv answer_inv)

lemma world_inv_reach: "wreach T U a app w \<Longrightarrow> ta_list_ok T \<Longrightarrow> world_inv a w"
  by (induction rule: wreach.induct) (auto intro: world_inv_init world_inv_step)

section \<open>From the start of a transport\<close>

lemma run_starts:
  assumes "cm_inv m" "lookup m uri = Some t" "local_stopped t path" "tr_logger t = Logger" "socket_ok env"
    and "q_list (cm_commands m) = []" "be_thread env"
  shows "\<exists>m1 a t1. bitu_conn_manager_run env m uri = Some (m1, STATUS_SPAWNED) \<and> wstart a (app\<lparr>ap_connections := m1\<rparr>) \<and>
    local_server (app\<lparr>ap_connections := m1\<rparr>) a = Some (t1, fresh_server a path (env_socket (be_sock env))) \<and>
    tr_logger t1 = Logger \<and> tr_commands t1 = Manager_queue \<and> cm_commands m1 = cm_commands m"
proof -
  obtain a where a: "ht_map (cm_transports m) uri = Some a" "cm_heap m a = Some t" "tr_commands t = Manager_queue"
    using assms(1,2) by (rule lookup_SomeE)
  let ?s = "fresh_server a path (env_socket (be_sock env))"
  let ?t1 = "t\<lparr>tr_data := Some (Data_server ?s), tr_logger := Logger\<rparr>"
  let ?m1 = "m\<lparr>cm_heap := (cm_heap m)(a \<mapsto> ?t1), cm_threads := cm_threads m @ [a]\<rparr>"
  have "bitu_conn_manager_run env m uri = Some (?m1, STATUS_SPAWNED)"
    using local_connect_ok [OF assms(5,3,4)] assms(1,7) a
    by (simp add: bitu_conn_manager_run_def get_transport_eq rc_ok_def)
  moreover have l: "local_server (app\<lparr>ap_connections := ?m1\<rparr>) a = Some (?t1, ?s)"
    using assms(3) by (simp add: local_server_def local_stopped_def)
  moreover have "wstart a (app\<lparr>ap_connections := ?m1\<rparr>)"
    using assms(6) a(3) unfolding wstart_def l by (simp add: fresh_map)
  ultimately show ?thesis
    using a(3) by (intro exI [of _ ?m1] exI [of _ a] exI [of _ ?t1]) simp
qed

section \<open>Who gets the answers\<close>

text \<open>
  C7. Whatever the order in which the clients of a local transport connect, ask and leave and the consumer
  answers: an answer is written to the connection that asked or, when that client has left, to
  nobody, even when its socket has been given to another client; and every message that was queued is
  answered once, in the order of the messages, the ones that wait included.
\<close>
theorem answers_reach_their_client:
  assumes "ta_list_ok T" "wreach T U a app w"
  shows "(\<forall>(asked_by, read_by, out) \<in> set (wd_sent w).
      asked_by \<noteq> None \<and> (read_by = asked_by \<or> read_by = None \<and> out = Some [])) \<and>
    map fst (wd_sent w) @ map (asker w) (queued w) = wd_asked w"
  using world_inv_reach [OF assms(2,1)] by (auto simp: world_inv_def sent_inv_def order_inv_def)

text \<open>The consumer executes \<open>send\<close>, which has no answer: the client gets a null byte.\<close>

lemma exec_send:
  assumes "app_inv app0" "ap_commands app = ap_commands app0" "local_server app a = Some (t, server)" "tr_logger t = Logger"
    and "command_name c = Some ''send''" "command_transport c = Some a" "command_from c = Some cid"
    and "ht_wf (sv_clients server)" "ht_map (sv_clients server) cid = Some client" "be_wire (ae_backend E) = [Sent 1]"
  shows "exec_command E app c = Some (app, Some [NUL], TA_OK)"
proof -
  note t = local_serverD [OF assms(3)]
  have "hashtable_get (ap_commands app) ''send'' = Some (Some Cmd_send)"
    using ht.get_law [OF app_invD(2) [OF assms(1)], of "''send''"] app_invD(3) [OF assms(1)] builtin_names
    by (simp add: assms(2) builtins_def)
  then have "bitu_app_exec_command E app c = Some (app, None, TA_OK)"
    by (simp add: bitu_app_exec_command_def assms(5) run_builtin_def cmd_send_def)
  moreover have "bitu_transport_send (ae_backend E) t None cid = Some ([NUL], Ta TA_OK)"
    using t assms(4) by (simp add: bitu_transport_send_def local_send_def server_send_eq [OF assms(8)] assms(9,10))
  ultimately show ?thesis
    using t by (simp add: exec_command_def assms(6,7))
qed

text \<open>A session for the example: a client connects and sends \<open>send\<close>, which has an empty answer.\<close>

lemma example_session:
  fixes E :: app_env
  assumes "app_inv app" "local_server app a = Some (t, server)" "tr_commands t = Manager_queue" "tr_logger t = Logger"
    and "sv_data server = Some a" "sv_can_run server" "sv_callback server"
    and "sv_clients server = fresh_table hash_string False True" "cm_commands (ap_connections app) = bitu_queue_new"
    and "be_wire (ae_backend E) = [Sent 1]"
  shows "\<exists>w1 w2 w3. wstep plain_list_api glibc_alloc a (winit app) w1 \<and> wstep plain_list_api glibc_alloc a w1 w2 \<and>
    wstep plain_list_api glibc_alloc a w2 w3 \<and> wd_sent w3 = [(Some 0, Some 0, Some [NUL])] \<and>
    wd_asked w3 = [Some 0]"
proof -
  let ?id = "replicate 36 (CHR 0x61)"
  let ?client = "\<lparr>client_id = ?id, client_socket = 5\<rparr>"
  have new: "bitu_client_new glibc_alloc ?id 5 = Some ?client"
    by (simp add: bitu_client_new_def bitu_util_uuid4_def glibc_alloc_def)
  have "card (dom (ht_map (sv_clients server))) < ht_capacity"
    by (simp add: assms(8) fresh_map ht_capacity_def)
  then obtain clients where clients: "hashtable_set True True (sv_clients server) ?id ?client = Some (clients, 0)"
    "ht_wf clients" "ht_map clients = [?id \<mapsto> ?client]"
    using ht.set_law [of "sv_clients server" ?id ?client] by (auto simp: assms(8) fresh_wf fresh_map)
  note t = local_serverD [OF assms(2)]
  let ?app1 = "put_clients a t server clients app"
  let ?w1 = "(winit app)\<lparr>wd_app := ?app1, wd_current := Some (?id, 5), wd_peers := [5 \<mapsto> 0], wd_conn := [?id \<mapsto> 0],
    wd_count := 1\<rparr>"
  let ?t1 = "t\<lparr>tr_data := Some (Data_server (server\<lparr>sv_clients := clients\<rparr>))\<rparr>"
  have 1: "wstep plain_list_api glibc_alloc a (winit app) ?w1"
    using wstep.Connect [of "winit app" a t server 5 glibc_alloc ?id ?client ?id clients 0 plain_list_api]
      new clients(1) assms(2,6) by (simp add: winit_def bitu_client_get_id_def)
  have srv1: "local_server ?app1 a = Some (?t1, server\<lparr>sv_clients := clients\<rparr>)"
    using t by simp
  have heap1: "cm_heap (ap_connections ?app1) a = Some ?t1"
    by (simp add: put_clients_def)
  have s: "strip ''send'' = ''send''" "tokens ''send'' = [''send'']"
    by code_simp+
  have "plain_start (strip ''send'')"
    unfolding s by (simp add: plain_start_def quote_def backslash_def blank_def)
  note msg = message_received_run [OF plain_list_ok heap1 _ _ this, of example_env ?id]
  let ?c = "parsed_command a ?id ''send''"
  let ?m2 = "(ap_connections ?app1)\<lparr>cm_commands := bitu_queue_new\<lparr>q_list := [Some ?c]\<rparr>\<rparr>"
  let ?w2 = "?w1\<lparr>wd_app := ?app1\<lparr>ap_connections := ?m2\<rparr>, wd_asked := [Some 0]\<rparr>"
  have recv: "recv_message (\<lambda>_. True) glibc_alloc [piece ''send'', Select_none] None 0 0 = Some (Some ''send'')"
    "c_string ''send'' = ''send''" "\<not> says_goodbye (Some ''send'')"
    using glibc.recv_message_pieces [of "[''send'']"] by (simp_all add: says_goodbye_def c_string_def NUL_def)
  have "local_message_received plain_list_api glibc_alloc example_env (ap_connections ?app1) (server\<lparr>sv_clients := clients\<rparr>) ?id
      (c_string ''send'') = Some ?m2"
    using msg assms(3-5,9) by (simp add: local_message_received_def bitu_server_get_data_def recv(2) s(1)
        bitu_queue_new_def COMMAND_QUEUE_SIZE_def)
  then have 2: "wstep plain_list_api glibc_alloc a ?w1 ?w2"
    using wstep.Message [where w = ?w1 and cid = ?id and sock = 5 and a = a and t = ?t1
        and server = "server\<lparr>sv_clients := clients\<rparr>", OF _ _ _ recv(1,3)] srv1 assms(7)
    by (simp add: winit_def)
  let ?app3 = "put_queue bitu_queue_new (wd_app ?w2)"
  have c: "command_name ?c = Some ''send''" "command_transport ?c = Some a" "command_from ?c = Some ?id"
    by (simp_all add: parsed_command_def s(2))
  have pop: "bitu_queue_pop plain_list_api (cm_commands (ap_connections (wd_app ?w2))) = (bitu_queue_new, Some ?c)"
    by (simp add: bitu_queue_pop_def plain_list_api_def bitu_queue_new_def)
  have "ap_commands ?app3 = ap_commands app" "local_server ?app3 a = Some (?t1, server\<lparr>sv_clients := clients\<rparr>)"
    using t by (simp_all add: put_queue_def put_clients_def local_server_def)
  then have exec: "exec_command E ?app3 ?c = Some (?app3, Some [NUL], TA_OK)"
    using exec_send [OF assms(1) _ _ _ c, of ?app3 ?t1 "server\<lparr>sv_clients := clients\<rparr>" ?client E] assms(4,10) clients
    by simp
  have srv2: "local_server (wd_app ?w2) a = Some (?t1, server\<lparr>sv_clients := clients\<rparr>)"
    using t by (simp add: local_server_def put_clients_def)
  let ?w3 = "?w2\<lparr>wd_app := ?app3, wd_sent := [(Some 0, Some 0, Some [NUL])]\<rparr>"
  have "asker ?w2 ?c = Some 0" "receiver ?w2 (server\<lparr>sv_clients := clients\<rparr>) ?c = Some 0"
    by (simp_all add: asker_def receiver_def c(3) clients(3) bitu_client_get_socket_def)
  moreover have "wd_sent ?w2 = []"
    by (simp add: winit_def)
  ultimately have 3: "wstep plain_list_api glibc_alloc a ?w2 ?w3"
    using wstep.Answer [OF pop exec refl srv2, where U = glibc_alloc] by (simp only: append_Nil)
  show ?thesis
    by (intro exI conjI) (rule 1, rule 2, rule 3, simp, simp)
qed

theorem answers_reach_their_client_witness:
  "\<exists>a app w. wreach plain_list_api glibc_alloc a app w \<and> wd_sent w = [(Some 0, Some 0, Some [NUL])] \<and> wd_asked w = [Some 0] \<and>
     queued w = []"
proof -
  let ?t = "example_transport Local ''file''"
  obtain app where app: "app_inv app"
    using app_new_run by blast
  obtain m where m: "cm_inv m" "lookup m ''uri'' = Some ?t" "cm_commands m = bitu_queue_new"
    by (rule example_manager [of Local "''file''"]) (simp, blast)
  have st: "local_stopped ?t ''/tmp/s''" "tr_logger ?t = Logger" "socket_ok example_env" "q_list (cm_commands m) = []"
    "be_thread example_env"
    by (simp_all add: local_stopped_def example_transport_def example_iri_def socket_ok_def example_env_def m(3) bitu_queue_new_def)
  from run_starts [OF m(1,2) st, of app] obtain m1 a t1
    where m1: "wstart a (app\<lparr>ap_connections := m1\<rparr>)" "tr_logger t1 = Logger" "tr_commands t1 = Manager_queue" "cm_commands m1 = cm_commands m"
      "local_server (app\<lparr>ap_connections := m1\<rparr>) a = Some (t1, fresh_server a ''/tmp/s'' (env_socket (be_sock example_env)))"
      "bitu_conn_manager_run example_env m ''uri'' = Some (m1, STATUS_SPAWNED)"
    by blast
  let ?app = "app\<lparr>ap_connections := m1\<rparr>"
  let ?E = "(example_app_env (\<lambda>_. None))\<lparr>ae_backend := example_env\<lparr>be_wire := [Sent 1]\<rparr>\<rparr>"
  have inv: "app_inv ?app"
    using app_inv_connections [OF app] m1(6) run_spawned [OF m(1,2), of example_env _ "Conn STATUS_OK", OF local_connect_ok [OF st(3,1,2)]] st(5)
    by (auto simp: rc_ok_def)
  obtain w1 w2 w3 where w: "wstep plain_list_api glibc_alloc a (winit ?app) w1" "wstep plain_list_api glibc_alloc a w1 w2"
    "wstep plain_list_api glibc_alloc a w2 w3" "wd_sent w3 = [(Some 0, Some 0, Some [NUL])]" "wd_asked w3 = [Some 0]"
    using example_session [OF inv m1(5,3,2), of ?E] m1(4) m(3) by auto
  have r: "wreach plain_list_api glibc_alloc a ?app w3"
    by (intro wreach.step [OF _ w(3)] wreach.step [OF _ w(2)] wreach.step [OF _ w(1)] wreach.start m1(1))
  then show ?thesis
    using answers_reach_their_client [OF plain_list_ok r] w(4,5) by auto
qed

end
