(* ===== verification/Irc_Props.thy ===== *)
theory Irc_Props
  imports App_Props
begin

text \<open>
  Messages on an IRC channel that address the bot: how they reach the queue, and which part of the
  application can answer them.
\<close>

section \<open>The first word of a message\<close>

lemma tokens_first_word:
  assumes "w \<noteq> []" "\<forall>c \<in> set w. c \<noteq> backslash \<and> \<not> special c"
  shows "hd (tokens (w @ blank # rest)) = w"
proof -
  have b: "backslash \<notin> set w" "last w \<noteq> backslash"
    using assms last_in_set [of w] by auto
  have e: "escape w = w"
    using assms(2) by (intro escape_plain) simp
  show ?thesis
    using parse_escape_begin [OF assms(1) b(1), of NUL "blank # rest"] b(2) unfolding e
    by (simp add: tokens_def Let_def blank_def quote_def backslash_def NUL_def)
qed

lemma builtins_no_colon:
  assumes "map_of builtins w = Some f"
  shows "CHR 0x3A \<notin> set w"
proof -
  have "(w, f) \<in> set builtins"
    using assms by (rule map_of_SomeD)
  then show ?thesis
    by (auto simp: builtins_def)
qed

section \<open>A message to the bot\<close>

definition irc_queued :: "conn_manager \<Rightarrow> nat \<Rightarrow> string \<Rightarrow> string \<Rightarrow> conn_manager" where
  "irc_queued m a target cmd = m\<lparr>cm_commands := (cm_commands m)\<lparr>q_list :=
     Some (parsed_command a target (strip cmd)) # q_list (cm_commands m)\<rparr>\<rparr>"

text \<open>
  C40. A message on an IRC channel: one that does not mention the bot's name is ignored; any other becomes
  one command in the common queue, whose sender is the target of the message, unless its
  parameters do not fit into the buffer of 512 bytes of the trace, which they overrun. Of a message
  that addresses the bot in the usual way, \<open>NAME: TEXT\<close>, the name of the command is \<open>NAME:\<close>, so that
  no built-in command is reached that way. A transport whose URI names no user passes a null
  pointer to the pattern.
\<close>
theorem irc_notice_queues:
  assumes "ta_list_ok T" "cm_heap m a = Some t" "tr_commands t = Manager_queue" "tr_logger t = Logger"
    and "iri_user (tr_uri t) = Some nick" "regex (irc_pattern nick) = Some mentions"
    and "plain_start (strip cmd)" "length (q_list (cm_commands m)) < q_maxsize (cm_commands m)"
  shows "irc_event_notice regex T glibc_alloc env m a (Some origin) (target # cmd # others) =
      (if \<not> mentions cmd then Some m
       else if 512 \<le> length (irc_trace (target # cmd # others)) then None
       else Some (irc_queued m a target cmd)) \<and>
    (strip cmd = nick @ '':'' @ blank # rest \<and> (\<forall>c \<in> set nick. c \<noteq> backslash \<and> \<not> special c) \<longrightarrow>
       command_name (parsed_command a target (strip cmd)) = Some (nick @ '':'') \<and> map_of builtins (nick @ '':'') = None) \<and>
    irc_event_notice regex T glibc_alloc env (m\<lparr>cm_heap := (cm_heap m)(a \<mapsto> t\<lparr>tr_uri := (tr_uri t)\<lparr>iri_user := None\<rparr>\<rparr>)\<rparr>) a
      (Some origin) (target # cmd # others) = None"
proof (intro conjI impI)
  show "irc_event_notice regex T glibc_alloc env m a (Some origin) (target # cmd # others) =
      (if \<not> mentions cmd then Some m
       else if 512 \<le> length (irc_trace (target # cmd # others)) then None
       else Some (irc_queued m a target cmd))"
    using message_received_run [OF assms(1-4,7), of env target] assms(2,5,6,8)
    by (simp add: irc_event_notice_def irc_queued_def require_def)
next
  assume "strip cmd = nick @ '':'' @ blank # rest \<and> (\<forall>c \<in> set nick. c \<noteq> backslash \<and> \<not> special c)"
  then show "command_name (parsed_command a target (strip cmd)) = Some (nick @ '':'')"
    using tokens_first_word [of "nick @ '':''" rest]
    by (simp add: parsed_command_def special_def blank_def quote_def backslash_def)
next
  show "map_of builtins (nick @ '':'') = None"
    using builtins_no_colon [of "nick @ '':''"] by (cases "map_of builtins (nick @ '':'')") auto
qed (simp add: irc_event_notice_def)

theorem irc_notice_queues_witness:
  "\<exists>m a. irc_event_notice (\<lambda>_. Some (\<lambda>_. True)) plain_list_api glibc_alloc example_env m a (Some ''joe!j@h'') [''#chan'', ''bot: list plugins''] =
     Some (irc_queued m a ''#chan'' ''bot: list plugins'') \<and>
   command_name (parsed_command a ''#chan'' ''bot: list plugins'') = Some ''bot:''"
proof -
  let ?t = "(example_transport Irc ''irc'')\<lparr>tr_uri := (example_iri ''irc'')\<lparr>iri_user := Some ''bot''\<rparr>\<rparr>"
  obtain m where m0: "bitu_conn_manager_new = Some m"
    using cm_inv_new by blast
  then have m: "cm_commands m = bitu_queue_new"
    by (auto simp: bitu_conn_manager_new_def split: bind_splits)
  let ?m = "m\<lparr>cm_heap := [0 \<mapsto> ?t]\<rparr>"
  have t: "cm_heap ?m 0 = Some ?t" "tr_commands ?t = Manager_queue" "tr_logger ?t = Logger" "iri_user (tr_uri ?t) = Some ''bot''"
    by (simp_all add: example_transport_def)
  have s: "strip ''bot: list plugins'' = ''bot: list plugins''"
    by code_simp
  have p: "plain_start (strip ''bot: list plugins'')"
    unfolding s by (simp add: plain_start_def quote_def backslash_def blank_def)
  have q: "length (q_list (cm_commands ?m)) < q_maxsize (cm_commands ?m)"
    by (simp add: m bitu_queue_new_def COMMAND_QUEUE_SIZE_def)
  have w: "strip ''bot: list plugins'' = ''bot'' @ '':'' @ blank # ''list plugins''"
    "\<forall>c \<in> set ''bot''. c \<noteq> backslash \<and> \<not> special c"
    by (simp_all add: s special_def blank_def quote_def backslash_def)
  have l: "length (irc_trace [''#chan'', ''bot: list plugins'']) < 512"
    by (simp add: irc_trace_def)
  note facts = irc_notice_queues [OF plain_list_ok t, of "\<lambda>_. Some (\<lambda>_. True)" "\<lambda>_. True", OF refl p q,
      of example_env "''joe!j@h''" "''#chan''" "[]" "''list plugins''"]
  have "command_name (parsed_command 0 ''#chan'' (strip ''bot: list plugins'')) = Some (''bot'' @ '':'')"
    using facts w by blast
  then have "command_name (parsed_command 0 ''#chan'' ''bot: list plugins'') = Some ''bot:''"
    unfolding s by simp
  then show ?thesis
    using facts l by (intro exI [of _ ?m] exI [of _ 0]) simp
qed

section \<open>A session\<close>

text \<open>A message that reaches the callback for messages, which are four of the events.\<close>

definition irc_notice :: "string \<Rightarrow> bool" where
  "irc_notice event \<longleftrightarrow> event \<in> {''notice'', ''channel'', ''channel_notice'', ''privmsg''}"

lemma irc_callbacks_of:
  "map_of irc_callbacks event = (if event = ''connect'' then Some Irc_event_connect
     else if irc_notice event then Some Irc_event_notice else None)"
  by (simp add: irc_callbacks_def irc_notice_def)

text \<open>
  The commands and the joined channels of a list of events, when \<open>mentions\<close> says whether a text has the
  name of the bot in it.
\<close>

fun irc_commands :: "nat \<Rightarrow> (string \<Rightarrow> bool) \<Rightarrow> (string \<times> irc_message) list \<Rightarrow> bitu_command list" where
  "irc_commands a mentions [] = []"
| "irc_commands a mentions ((event, msg) # events) = (case im_params msg of
       target # cmd # _ \<Rightarrow> if irc_notice event \<and> mentions cmd then [parsed_command a target (strip cmd)] else []
     | _ \<Rightarrow> []) @ irc_commands a mentions events"

fun irc_joins :: "string \<Rightarrow> (string \<times> irc_message) list \<Rightarrow> string list" where
  "irc_joins channel [] = []"
| "irc_joins channel ((event, msg) # events) = (if event = ''connect'' then [channel] else []) @ irc_joins channel events"

text \<open>
  Messages have a target and a text; those to the bot have an origin, fit into the buffer of the trace
  and can be read by the parser.
\<close>

definition irc_readable :: "(string \<Rightarrow> bool) \<Rightarrow> string \<times> irc_message \<Rightarrow> bool" where
  "irc_readable mentions e \<longleftrightarrow> (irc_notice (fst e) \<longrightarrow> (\<exists>target cmd others. im_params (snd e) = target # cmd # others \<and>
     (mentions cmd \<longrightarrow> im_origin (snd e) \<noteq> None \<and> length (irc_trace (im_params (snd e))) < 512 \<and> plain_start (strip cmd))))"

lemma irc_commands_length: "length (irc_commands a mentions events) \<le> length events"
proof (induction events)
  case (Cons e events)
  then show ?case
    by (cases e) (auto split: list.splits)
qed simp

lemma irc_notice_run:
  assumes "ta_list_ok T" "cm_heap m a = Some t" "tr_commands t = Manager_queue" "tr_logger t = Logger"
    and "iri_user (tr_uri t) = Some nick" "regex (irc_pattern nick) = Some mentions"
    and "irc_readable mentions (event, msg)" "irc_notice event"
    and "length (q_list (cm_commands m)) < q_maxsize (cm_commands m)"
  shows "irc_event_notice regex T glibc_alloc env m a (im_origin msg) (im_params msg) =
    Some (m\<lparr>cm_commands := (cm_commands m)\<lparr>q_list :=
      rev (map Some (irc_commands a mentions [(event, msg)])) @ q_list (cm_commands m)\<rparr>\<rparr>)"
proof -
  obtain target cmd others where p: "im_params msg = target # cmd # others"
    and c: "mentions cmd \<Longrightarrow> im_origin msg \<noteq> None \<and> length (irc_trace (im_params msg)) < 512 \<and> plain_start (strip cmd)"
    using assms(7,8) by (auto simp: irc_readable_def)
  show ?thesis
    using message_received_run [OF assms(1-4), of cmd env target] assms(2,5,6,8,9) c
    by (cases "mentions cmd") (auto simp: irc_event_notice_def p require_def)
qed

lemma irc_events_run:
  assumes "ta_list_ok T" "cm_heap m a = Some t" "tr_commands t = Manager_queue" "tr_logger t = Logger"
    and "iri_user (tr_uri t) = Some nick" "regex (irc_pattern nick) = Some mentions" "iri_fragment (tr_uri t) = Some channel"
    and "\<forall>e \<in> set events. irc_readable mentions e"
    and "length (q_list (cm_commands m)) + length events \<le> q_maxsize (cm_commands m)"
  shows "irc_events regex T glibc_alloc env a events m =
    Some (m\<lparr>cm_commands := (cm_commands m)\<lparr>q_list := rev (map Some (irc_commands a mentions events)) @ q_list (cm_commands m)\<rparr>\<rparr>,
      irc_joins channel events)"
  using assms(2,8,9)
proof (induction events arbitrary: m)
  case (Cons x events)
  obtain event msg where x: "x = (event, msg)"
    by (cases x)
  let ?cs = "irc_commands a mentions [(event, msg)]"
  let ?m1 = "m\<lparr>cm_commands := (cm_commands m)\<lparr>q_list := rev (map Some ?cs) @ q_list (cm_commands m)\<rparr>\<rparr>"
  have all: "irc_commands a mentions (x # events) = ?cs @ irc_commands a mentions events"
    by (simp add: x)
  have rest: "irc_events regex T glibc_alloc env a events ?m1 = Some (?m1\<lparr>cm_commands := (cm_commands ?m1)\<lparr>q_list :=
      rev (map Some (irc_commands a mentions events)) @ q_list (cm_commands ?m1)\<rparr>\<rparr>, irc_joins channel events)"
    using Cons.prems irc_commands_length [of a mentions "[(event, msg)]"] by (intro Cons.IH) auto
  show ?case
  proof (cases "irc_notice event")
    case True
    then have "irc_event_notice regex T glibc_alloc env m a (im_origin msg) (im_params msg) = Some ?m1"
      using irc_notice_run [where regex = regex and msg = msg, OF assms(1) Cons.prems(1) assms(3-5) assms(6)] Cons.prems(2,3)
      by (simp add: x)
    moreover have "event \<noteq> ''connect''"
      using True by (auto simp: irc_notice_def)
    ultimately show ?thesis
      using rest True unfolding x by (simp add: irc_callbacks_of irc_run_callback_def)
  next
    case False
    then have "?cs = []"
      by (simp split: list.splits)
    moreover from this have "?m1 = m"
      by simp
    ultimately show ?thesis
      using rest False Cons.prems(1) assms(7) unfolding x
      by (auto simp: irc_callbacks_of irc_run_callback_def irc_event_connect_def split: list.splits)
  qed
qed simp

lemma irc_run_spawned:
  assumes "cm_inv m" "lookup m uri = Some t" "tr_callbacks t = all_of Irc" "tr_data t = None" "tr_logger t = Logger"
    and "be_irc_session env" "be_irc_connect env" "be_thread env"
  defines "s \<equiv> \<lparr>irc_host = iri_host (tr_uri t), irc_port = (if iri_port (tr_uri t) \<noteq> 0 then iri_port (tr_uri t) else IRC_PORT),
     irc_nick = (case iri_user (tr_uri t) of None \<Rightarrow> ''bitU'' | Some nick \<Rightarrow> nick)\<rparr>"
  shows "\<exists>m1 a. bitu_conn_manager_run env m uri = Some (m1, STATUS_SPAWNED) \<and> cm_inv m1 \<and>
    cm_heap m1 a = Some (t\<lparr>tr_data := Some (Data_irc s)\<rparr>) \<and> ht_map (cm_transports m1) uri = Some a \<and> tr_commands t = Manager_queue \<and>
    cm_threads m1 = cm_threads m @ [a] \<and> cm_commands m1 = cm_commands m"
proof -
  obtain a where a: "ht_map (cm_transports m) uri = Some a" "cm_heap m a = Some t" "tr_commands t = Manager_queue"
    using assms(1,2) by (rule lookup_SomeE)
  have conn: "bitu_transport_connect env b t = Some (t\<lparr>tr_data := Some (Data_irc s)\<rparr>, Conn STATUS_OK)" for b
    using assms(3-7) by (simp add: bitu_transport_connect_def irc_connect_def irc_get_session_def tr_log_def Let_def s_def)
  let ?m1 = "m\<lparr>cm_heap := (cm_heap m)(a \<mapsto> t\<lparr>tr_data := Some (Data_irc s)\<rparr>), cm_threads := cm_threads m @ [a]\<rparr>"
  have "bitu_conn_manager_run env m uri = Some (?m1, STATUS_SPAWNED)"
    using assms(1,8) a(1,2) conn by (simp add: bitu_conn_manager_run_def get_transport_eq rc_ok_def)
  moreover have "cm_inv ?m1"
    using cm_inv_update(1) [OF assms(1) a(1), of "t\<lparr>tr_data := Some (Data_irc s)\<rparr>"] a(3) by simp
  ultimately show ?thesis
    using a by (intro exI [of _ ?m1] exI [of _ a]) simp
qed

text \<open>
  C19. An IRC transport from its URI to commands. When the first attempt to connect fails, the manager shuts
  the transport down, and the transport hands its null session to \<open>irc_disconnect\<close>. When it succeeds, and
  its thread can be created, the session has the host and the port of the URI, 6667 when there is none, and the user as its nick; then, whatever
  events the library reports, in whatever order, the channel of the URI is joined whenever the session is connected,
  and the messages of all four kinds that mention the nick become commands in the common queue, in order,
  each with its target for a sender, and no other event queues anything.
\<close>
theorem irc_session_events:
  assumes "cm_inv m" "lookup m uri = Some t" "tr_callbacks t = all_of Irc" "tr_data t = None" "tr_logger t = Logger"
    and "iri_user (tr_uri t) = Some nick" "iri_fragment (tr_uri t) = Some channel" "be_thread env" "ta_list_ok T"
    and "regex (irc_pattern nick) = Some mentions" "\<forall>e \<in> set events. irc_readable mentions e"
    and "length (q_list (cm_commands m)) + length events \<le> q_maxsize (cm_commands m)"
  shows "if be_irc_session env \<and> be_irc_connect env then
      \<exists>m1 a s. bitu_conn_manager_run env m uri = Some (m1, STATUS_SPAWNED) \<and> cm_threads m1 = cm_threads m @ [a] \<and>
        cm_heap m1 a = Some (t\<lparr>tr_data := Some (Data_irc s)\<rparr>) \<and> irc_nick s = nick \<and> irc_host s = iri_host (tr_uri t) \<and>
        irc_port s = (if iri_port (tr_uri t) = 0 then 6667 else iri_port (tr_uri t)) \<and>
        irc_events regex T glibc_alloc env a events m1 =
          Some (m1\<lparr>cm_commands := (cm_commands m)\<lparr>q_list := rev (map Some (irc_commands a mentions events)) @ q_list (cm_commands m)\<rparr>\<rparr>,
            irc_joins channel events)
    else bitu_conn_manager_run env m uri = None"
proof (cases "be_irc_session env \<and> be_irc_connect env")
  case True
  let ?s = "\<lparr>irc_host = iri_host (tr_uri t), irc_port = (if iri_port (tr_uri t) \<noteq> 0 then iri_port (tr_uri t) else IRC_PORT),
     irc_nick = nick\<rparr>"
  obtain m1 a where m1: "bitu_conn_manager_run env m uri = Some (m1, STATUS_SPAWNED)"
    "cm_heap m1 a = Some (t\<lparr>tr_data := Some (Data_irc ?s)\<rparr>)" "tr_commands t = Manager_queue"
    "cm_threads m1 = cm_threads m @ [a]" "cm_commands m1 = cm_commands m"
    using irc_run_spawned [OF assms(1-5), of env] True assms(6,8) by auto
  have "irc_events regex T glibc_alloc env a events m1 =
      Some (m1\<lparr>cm_commands := (cm_commands m1)\<lparr>q_list := rev (map Some (irc_commands a mentions events)) @ q_list (cm_commands m1)\<rparr>\<rparr>,
        irc_joins channel events)"
    using irc_events_run [where regex = regex and mentions = mentions and nick = nick and events = events, OF assms(9) m1(2)]
      assms(5-7,10-12) m1(3,5) by simp
  then show ?thesis
    using m1 True by (simp only: if_True simp_thms) (intro exI [of _ m1] exI [of _ a] exI [of _ ?s], simp add: IRC_PORT_def)
next
  case False
  then have "bitu_conn_manager_run env m uri = None"
    by (intro irc_first_connection_fails [OF assms(1-4)]) simp
  then show ?thesis
    using False by simp
qed

theorem irc_session_events_witness:
  "\<exists>m m1 m2 a. bitu_conn_manager_run (example_env\<lparr>be_irc_connect := True\<rparr>) m ''uri'' = Some (m1, STATUS_SPAWNED) \<and>
     irc_events (\<lambda>_. Some (\<lambda>w. w \<noteq> ''hello'')) plain_list_api glibc_alloc (example_env\<lparr>be_irc_connect := True\<rparr>) a
       [(''connect'', \<lparr>im_origin = None, im_params = []\<rparr>), (''channel'', \<lparr>im_origin = Some ''joe'', im_params = [''#chan'', ''hello'']\<rparr>),
        (''channel'', \<lparr>im_origin = Some ''joe'', im_params = [''#chan'', ''bot: list plugins'']\<rparr>)] m1 = Some (m2, [''#chan'']) \<and>
     q_list (cm_commands m2) = [Some (parsed_command a ''#chan'' ''bot: list plugins'')]"
proof -
  let ?t = "(example_transport Irc ''irc'')\<lparr>tr_uri := (example_iri ''irc'')\<lparr>iri_user := Some ''bot'', iri_fragment := Some ''#chan''\<rparr>\<rparr>"
  let ?events = "[(''connect'', \<lparr>im_origin = None, im_params = []\<rparr>), (''channel'', \<lparr>im_origin = Some ''joe'', im_params = [''#chan'', ''hello'']\<rparr>),
        (''channel'', \<lparr>im_origin = Some ''joe'', im_params = [''#chan'', ''bot: list plugins'']\<rparr>)]"
  let ?regex = "\<lambda>_. Some (\<lambda>w. w \<noteq> ''hello'')" and ?env = "example_env\<lparr>be_irc_connect := True\<rparr>"
  obtain m0 where m0: "cm_inv m0" "lookup m0 ''uri'' = Some (example_transport Irc ''irc'')" "cm_commands m0 = bitu_queue_new"
    by (rule example_manager [of Irc "''irc''"]) (simp, blast)
  obtain b where b: "ht_map (cm_transports m0) ''uri'' = Some b"
    using m0(1,2) by (rule lookup_SomeE)
  let ?m = "m0\<lparr>cm_heap := (cm_heap m0)(b \<mapsto> ?t)\<rparr>"
  have m: "cm_inv ?m" "lookup ?m ''uri'' = Some ?t"
    using cm_inv_update [OF m0(1) b, of ?t] by (simp_all add: example_transport_def)
  have t: "tr_callbacks ?t = all_of Irc" "tr_data ?t = None" "tr_logger ?t = Logger" "iri_user (tr_uri ?t) = Some ''bot''"
    "iri_fragment (tr_uri ?t) = Some ''#chan''" "be_thread ?env"
    by (simp_all add: example_transport_def example_env_def)
  have st: "strip ''bot: list plugins'' = ''bot: list plugins''"
    by code_simp
  have rd: "\<forall>e \<in> set ?events. irc_readable (\<lambda>w. w \<noteq> ''hello'') e"
    by (simp add: irc_readable_def irc_notice_def st irc_trace_def plain_start_def quote_def backslash_def blank_def)
  have q: "length (q_list (cm_commands ?m)) + length ?events \<le> q_maxsize (cm_commands ?m)"
    by (simp add: m0(3) bitu_queue_new_def COMMAND_QUEUE_SIZE_def)
  have up: "be_irc_session ?env \<and> be_irc_connect ?env"
    by (simp add: example_env_def)
  have cs: "irc_commands a (\<lambda>w. w \<noteq> ''hello'') ?events = [parsed_command a ''#chan'' ''bot: list plugins'']" for a
    by (simp add: irc_notice_def st)
  have js: "irc_joins ''#chan'' ?events = [''#chan'']"
    by simp
  from irc_session_events [where regex = ?regex, OF m t plain_list_ok refl rd q]
  obtain m1 a where "bitu_conn_manager_run ?env ?m ''uri'' = Some (m1, STATUS_SPAWNED)"
    "irc_events ?regex plain_list_api glibc_alloc ?env a ?events m1 =
      Some (m1\<lparr>cm_commands := bitu_queue_new\<lparr>q_list := [Some (parsed_command a ''#chan'' ''bot: list plugins'')]\<rparr>\<rparr>, [''#chan''])"
    unfolding if_P [OF up] cs js by (auto simp: m0(3) bitu_queue_new_def simp del: irc_events.simps)
  then show ?thesis
    by (intro exI conjI) (assumption, assumption, simp)
qed

end
