(* ===== verification/Xmpp_Props.thy ===== *)
theory Xmpp_Props
  imports Transport_Props
begin

text \<open>
  The properties of the XMPP transport: from the account in the URI to the client, what the events of
  the client lead to, and the client that is used after it has been released.
\<close>

section \<open>Connecting\<close>

definition xmpp_client_of :: "backend_env \<Rightarrow> bitu_transport \<Rightarrow> string \<Rightarrow> string \<Rightarrow> string \<Rightarrow> string \<Rightarrow> xmpp_client" where
  "xmpp_client_of env t user password host resource = \<lparr>xc_jid = user @ CHR 0x40 # host @ resource, xc_password = password,
     xc_server = None, xc_port = (if iri_port (tr_uri t) \<noteq> 0 then iri_port (tr_uri t) else be_default_port env), xc_live = True\<rparr>"

lemma split_user_ok: "CHR 0x3A \<notin> set u \<Longrightarrow> split_user (Some (u @ CHR 0x3A # p)) = Some (u, p)"
  by (simp add: split_user_def takeWhile_append dropWhile_append)

lemma split_user_bad: "(\<nexists>u p. user = Some (u @ CHR 0x3A # p)) \<Longrightarrow> split_user user = None"
proof (cases user)
  case (Some w)
  assume "\<nexists>u p. user = Some (u @ CHR 0x3A # p)"
  then have "CHR 0x3A \<notin> set w"
    using Some split_list [of "CHR 0x3A" w] by blast
  then show ?thesis
    by (simp add: split_user_def Some require_def)
qed (simp add: split_user_def)

lemma xmpp_run_spawned:
  assumes "cm_inv m" "lookup m uri = Some t" "tr_callbacks t = all_of Xmpp" "tr_logger t = Logger"
    and "iri_user (tr_uri t) = Some (u @ CHR 0x3A # p)" "CHR 0x3A \<notin> set u"
    and "iri_host (tr_uri t) = Some host" "iri_path (tr_uri t) = Some resource"
    and "be_srv env = []" "be_xmpp_connect env = TA_OK" "be_thread env"
  shows "\<exists>m1. bitu_conn_manager_run env m uri = Some (m1, STATUS_SPAWNED) \<and> cm_inv m1 \<and>
    lookup m1 = (lookup m)(uri \<mapsto> t\<lparr>tr_data := Some (Data_xmpp (xmpp_client_of env t u p host resource))\<rparr>) \<and>
    cm_commands m1 = cm_commands m"
proof -
  let ?t1 = "t\<lparr>tr_data := Some (Data_xmpp (xmpp_client_of env t u p host resource))\<rparr>"
  have "t\<lparr>tr_data := d, tr_logger := Logger\<rparr> = t\<lparr>tr_data := d\<rparr>" for d
    using assms(4) by (cases t) simp
  then have conn: "bitu_transport_connect env a t = Some (?t1, Conn STATUS_OK)" for a
    using assms(3-5,7-10) split_user_ok [OF assms(6)]
    by (simp add: bitu_transport_connect_def xmpp_connect_def tr_log_def query_service_def Let_def
        xmpp_client_of_def make_jid_def)
  obtain m1 where m1: "bitu_conn_manager_run env m uri = Some (m1, STATUS_SPAWNED)" "cm_inv m1"
    "lookup m1 = (lookup m)(uri \<mapsto> ?t1)"
    using run_spawned [OF assms(1,2) conn _ assms(11)] by (auto simp: rc_ok_def)
  obtain a where "ht_map (cm_transports m) uri = Some a" "cm_heap m a = Some t"
    using assms(1,2) by (rule lookup_SomeE)
  then have "cm_commands m1 = cm_commands m"
    using m1(1) conn assms(11) by (auto simp: bitu_conn_manager_run_def get_transport_eq [OF assms(1)] rc_ok_def)
  then show ?thesis
    using m1 by blast
qed

section \<open>The life of the client\<close>

text \<open>Disconnecting gives the client up but keeps the pointer to it.\<close>

lemma xmpp_shutdown:
  assumes "cm_inv m" "lookup m uri = Some t" "tr_callbacks t = all_of Xmpp" "tr_logger t = Logger"
    and "tr_data t = Some (Data_xmpp client)" "xc_live client"
  shows "\<exists>m'. bitu_conn_manager_shutdown m uri = Some (m', STATUS_OK) \<and> cm_inv m' \<and>
    lookup m' = (lookup m)(uri \<mapsto> t\<lparr>tr_data := Some (Data_xmpp (client\<lparr>xc_live := False\<rparr>)), tr_logger := Logger_freed\<rparr>)"
  using shutdown_run [OF assms(1,2,4), of "t\<lparr>tr_data := Some (Data_xmpp (client\<lparr>xc_live := False\<rparr>)), tr_logger := Logger_freed\<rparr>" "Conn STATUS_OK"]
    assms(3-6)
  by (auto simp: bitu_transport_disconnect_def tr_log_def xmpp_disconnect_def rc_ok_def)

lemma xmpp_released:
  assumes "cm_inv m" "lookup m uri = Some t" "tr_callbacks t = all_of Xmpp"
    and "tr_data t = Some (Data_xmpp client)" "\<not> xc_live client"
  shows "bitu_conn_manager_shutdown m uri = None" "bitu_conn_manager_remove env m uri = None"
proof -
  show "bitu_conn_manager_shutdown m uri = None"
    using assms(3-5) by (intro shutdown_undefined [OF assms(1,2)])
       (simp add: bitu_transport_disconnect_def xmpp_disconnect_def require_def)
  obtain a where "ht_map (cm_transports m) uri = Some a" "cm_heap m a = Some t"
    using assms(1,2) by (rule lookup_SomeE)
  then show "bitu_conn_manager_remove env m uri = None"
    using assms(3-5) by (simp add: bitu_conn_manager_remove_def ht.get_law [OF cm_inv_wf [OF assms(1)]]
        bitu_transport_is_running_def xmpp_is_running_def require_def)
qed

section \<open>Properties\<close>

text \<open>
  C37. The XMPP transport: the URI must hold a user and a password with a colon between them,
  otherwise the code computes with a null pointer before it comes to its own test; with them
  the client gets the complete JID \<open>user@host/resource\<close>. Shutting the transport down releases
  the client but keeps the pointer: shutting it down again, or removing it, uses a freed
  client.
\<close>
theorem xmpp_transport_life:
  assumes "cm_inv m" "lookup m uri = Some t" "tr_callbacks t = all_of Xmpp" "tr_logger t = Logger"
    and "iri_host (tr_uri t) = Some host" "iri_path (tr_uri t) = Some resource"
    and "be_srv env = []" "be_xmpp_connect env = TA_OK" "be_thread env"
  shows "(\<nexists>u p. iri_user (tr_uri t) = Some (u @ CHR 0x3A # p)) \<and> bitu_conn_manager_run env m uri = None \<or>
    (\<exists>u p m1 m2 client. iri_user (tr_uri t) = Some (u @ CHR 0x3A # p) \<and>
      bitu_conn_manager_run env m uri = Some (m1, STATUS_SPAWNED) \<and>
      lookup m1 = (lookup m)(uri \<mapsto> t\<lparr>tr_data := Some (Data_xmpp client)\<rparr>) \<and>
      xc_jid client = u @ CHR 0x40 # host @ resource \<and> xc_password client = p \<and>
      bitu_conn_manager_shutdown m1 uri = Some (m2, STATUS_OK) \<and>
      bitu_conn_manager_shutdown m2 uri = None \<and> bitu_conn_manager_remove env m2 uri = None)"
proof (cases "\<exists>u p. iri_user (tr_uri t) = Some (u @ CHR 0x3A # p)")
  case False
  then have "bitu_conn_manager_run env m uri = None"
    using split_user_bad by (intro run_undefined [OF assms(1,2)])
       (auto simp: bitu_transport_connect_def assms(3,4) xmpp_connect_def tr_log_def)
  then show ?thesis
    using False by auto
next
  case True
  then obtain user where "iri_user (tr_uri t) = Some user" "CHR 0x3A \<in> set user"
    by auto
  moreover from this obtain u p where "user = u @ CHR 0x3A # p" "CHR 0x3A \<notin> set u"
    using split_list_first [of "CHR 0x3A" user] by blast
  ultimately have up: "iri_user (tr_uri t) = Some (u @ CHR 0x3A # p)" "CHR 0x3A \<notin> set u"
    by simp_all
  let ?client = "xmpp_client_of env t u p host resource"
  let ?t1 = "t\<lparr>tr_data := Some (Data_xmpp ?client)\<rparr>"
  obtain m1 where m1: "bitu_conn_manager_run env m uri = Some (m1, STATUS_SPAWNED)" "cm_inv m1"
    "lookup m1 = (lookup m)(uri \<mapsto> ?t1)"
    using xmpp_run_spawned [OF assms(1-4) up assms(5-9)] by blast
  have l1: "lookup m1 uri = Some ?t1"
    by (simp add: m1(3))
  obtain m2 where m2: "bitu_conn_manager_shutdown m1 uri = Some (m2, STATUS_OK)" "cm_inv m2"
    "lookup m2 = (lookup m1)(uri \<mapsto> ?t1\<lparr>tr_data := Some (Data_xmpp (?client\<lparr>xc_live := False\<rparr>)), tr_logger := Logger_freed\<rparr>)"
    using xmpp_shutdown [OF m1(2) l1, of ?client] assms(3,4) by (auto simp: xmpp_client_of_def)
  have l2: "lookup m2 uri = Some (?t1\<lparr>tr_data := Some (Data_xmpp (?client\<lparr>xc_live := False\<rparr>)), tr_logger := Logger_freed\<rparr>)"
    by (simp add: m2(3))
  have "bitu_conn_manager_shutdown m2 uri = None" "bitu_conn_manager_remove env m2 uri = None"
    using xmpp_released [OF m2(2) l2, of "?client\<lparr>xc_live := False\<rparr>"] assms(3) by simp_all
  moreover have "xc_jid ?client = u @ CHR 0x40 # host @ resource" "xc_password ?client = p"
    by (simp_all add: xmpp_client_of_def)
  ultimately show ?thesis
    using m1(1,3) m2(1) up(1) by blast
qed

theorem xmpp_transport_life_witness:
  "\<exists>m m1 m2. bitu_conn_manager_run example_env m ''uri'' = Some (m1, STATUS_SPAWNED) \<and>
     bitu_conn_manager_shutdown m1 ''uri'' = Some (m2, STATUS_OK) \<and> bitu_conn_manager_shutdown m2 ''uri'' = None"
proof -
  let ?t = "example_transport Xmpp ''xmpp''"
  obtain m where m: "cm_inv m" "lookup m ''uri'' = Some ?t"
    using example_manager [of Xmpp "''xmpp''"] by auto
  have "tr_callbacks ?t = all_of Xmpp" "tr_logger ?t = Logger" "iri_host (tr_uri ?t) = Some ''host''"
    "iri_path (tr_uri ?t) = Some ''/tmp/s''" "be_srv example_env = []" "be_xmpp_connect example_env = TA_OK"
    "be_thread example_env"
    by (simp_all add: example_transport_def example_iri_def example_env_def)
  moreover have "iri_user (tr_uri ?t) = Some (''bot'' @ CHR 0x3A # ''secret'')"
    by (simp add: example_transport_def example_iri_def)
  ultimately show ?thesis
    using xmpp_transport_life [OF m, of "''host''" "''/tmp/s''" example_env] by blast
qed

text \<open>
  The function of the thread looks for \<open>TA_ERROR\<close>, but the main loop of the XMPP transport reports a
  failure with another code: nobody notices it, while that of an IRC transport is logged.
\<close>

lemma xmpp_failure_unnoticed:
  assumes "cm_heap m a = Some t" "tr_logger t = Logger"
  shows "tr_callbacks t = all_of Xmpp \<Longrightarrow> tr_data t = Some (Data_xmpp client) \<Longrightarrow> xc_live client \<Longrightarrow>
      run_transport_thread T U env TA_ERROR events m a = Some (m, False)"
    and "tr_callbacks t = all_of Irc \<Longrightarrow> tr_data t = Some (Data_irc s) \<Longrightarrow>
      run_transport_thread T U env TA_ERROR events m a = Some (m, True)"
  using assms by (simp_all add: run_transport_thread_def bitu_transport_run_def xmpp_run_def irc_run_def tr_log_def)

section \<open>The events of the client\<close>

definition xmpp_commands :: "nat \<Rightarrow> (string \<times> xmpp_packet) list \<Rightarrow> bitu_command list" where
  "xmpp_commands a events = concat (map (\<lambda>(event, pak).
     if event = ''message-received'' then (case pak_body pak of None \<Rightarrow> []
       | Some body \<Rightarrow> [parsed_command a (pak_from pak) (strip body)]) else []) events)"

definition xmpp_effects :: "(string \<Rightarrow> string) \<Rightarrow> string \<Rightarrow> (string \<times> xmpp_packet) list \<Rightarrow> xmpp_effect list" where
  "xmpp_effects partial jid events = concat (map (\<lambda>(event, pak).
     if event = ''authenticated'' then [Presence_sent ''Online'']
     else if event = ''authentication-failed'' then [Client_disconnected]
     else if event = ''presence-noticed'' \<and> partial (pak_from pak) \<noteq> partial jid
       then [Printed (''Presence: '' @ pak_from pak @ [newline])] else []) events)"

text \<open>A message that the parser can read, or another event.\<close>

definition readable :: "string \<times> xmpp_packet \<Rightarrow> bool" where
  "readable e \<longleftrightarrow> (case e of (event, pak) \<Rightarrow> event = ''message-received'' \<longrightarrow>
     (case pak_body pak of None \<Rightarrow> True | Some body \<Rightarrow> plain_start (strip body)))"

lemma xmpp_commands_simps [simp]:
  "xmpp_commands a [] = []"
  "xmpp_commands a ((event, pak) # events) = (if event = ''message-received'' then (case pak_body pak of None \<Rightarrow> []
     | Some body \<Rightarrow> [parsed_command a (pak_from pak) (strip body)]) else []) @ xmpp_commands a events"
  by (simp_all add: xmpp_commands_def)

lemma xmpp_effects_simps [simp]:
  "xmpp_effects partial jid [] = []"
  "xmpp_effects partial jid ((event, pak) # events) = (if event = ''authenticated'' then [Presence_sent ''Online'']
     else if event = ''authentication-failed'' then [Client_disconnected]
     else if event = ''presence-noticed'' \<and> partial (pak_from pak) \<noteq> partial jid
       then [Printed (''Presence: '' @ pak_from pak @ [newline])] else []) @ xmpp_effects partial jid events"
  by (simp_all add: xmpp_effects_def)

text \<open>One event: its hook, the command it queues and its effect.\<close>

lemma xmpp_event_run:
  assumes "ta_list_ok T" "cm_heap m a = Some t" "tr_commands t = Manager_queue" "tr_logger t = Logger"
    and "tr_data t = Some (Data_xmpp client)" "xc_live client"
    and "readable (event, pak)"
    and "length (q_list (cm_commands m)) + length (xmpp_commands a [(event, pak)]) \<le> q_maxsize (cm_commands m)"
  shows "xmpp_events partial T glibc_alloc env a ((event, pak) # rest) m = do {
    (m, outs) \<leftarrow> xmpp_events partial T glibc_alloc env a rest (m\<lparr>cm_commands := (cm_commands m)\<lparr>q_list :=
      rev (map Some (xmpp_commands a [(event, pak)])) @ q_list (cm_commands m)\<rparr>\<rparr>);
    Some (m, xmpp_effects partial (xc_jid client) [(event, pak)] @ outs) }"
proof -
  have q: "m\<lparr>cm_commands := (cm_commands m)\<lparr>q_list := q_list (cm_commands m)\<rparr>\<rparr> = m"
    by simp
  show ?thesis
  proof (cases "map_of (xmpp_hooks a) event")
    case None
    then show ?thesis
      using assms(2,5) by (auto simp: xmpp_hooks_def split: if_splits option.splits)
  next
    case (Some hook)
    show ?thesis
    proof (cases "event = ''message-received''")
      case True
      then have "xmpp_run_hook partial T glibc_alloc env m client (Message_received_cb a) pak =
          Some (m\<lparr>cm_commands := (cm_commands m)\<lparr>q_list :=
            rev (map Some (xmpp_commands a [(event, pak)])) @ q_list (cm_commands m)\<rparr>\<rparr>, [])"
        using assms(7,8) message_received_run [OF assms(1-4)]
        by (cases "pak_body pak") (simp_all add: xmpp_run_hook_def xmpp_message_received_def readable_def)
      then show ?thesis
        using True assms(2,5) by (simp add: xmpp_hooks_def)
    next
      case False
      then show ?thesis
        using Some assms(2,5,6)
        by (auto simp: xmpp_hooks_def xmpp_run_hook_def auth_cb_def auth_failed_cb_def xmpp_presence_noticed_def split: if_splits)
    qed
  qed
qed

lemma xmpp_events_run:
  assumes "ta_list_ok T" "cm_heap m a = Some t" "tr_commands t = Manager_queue" "tr_logger t = Logger"
    and "tr_data t = Some (Data_xmpp client)" "xc_live client"
    and "\<forall>e \<in> set events. readable e"
    and "length (q_list (cm_commands m)) + length (xmpp_commands a events) \<le> q_maxsize (cm_commands m)"
  shows "xmpp_events partial T glibc_alloc env a events m =
    Some (m\<lparr>cm_commands := (cm_commands m)\<lparr>q_list := rev (map Some (xmpp_commands a events)) @ q_list (cm_commands m)\<rparr>\<rparr>,
      xmpp_effects partial (xc_jid client) events)"
  using assms(2,7,8)
proof (induction events arbitrary: m)
  case (Cons x events)
  obtain event pak where x: "x = (event, pak)"
    by (cases x)
  let ?m1 = "m\<lparr>cm_commands := (cm_commands m)\<lparr>q_list :=
      rev (map Some (xmpp_commands a [(event, pak)])) @ q_list (cm_commands m)\<rparr>\<rparr>"
  have "xmpp_events partial T glibc_alloc env a (x # events) m = do {
      (m, outs) \<leftarrow> xmpp_events partial T glibc_alloc env a events ?m1;
      Some (m, xmpp_effects partial (xc_jid client) [(event, pak)] @ outs) }"
    unfolding x using Cons.prems(2,3)
    by (intro xmpp_event_run [OF assms(1) Cons.prems(1) assms(3-6)]) (auto simp: x)
  moreover have "xmpp_events partial T glibc_alloc env a events ?m1 = Some (?m1\<lparr>cm_commands := (cm_commands ?m1)\<lparr>q_list :=
      rev (map Some (xmpp_commands a events)) @ q_list (cm_commands ?m1)\<rparr>\<rparr>, xmpp_effects partial (xc_jid client) events)"
    using Cons.prems by (intro Cons.IH) (auto simp: x)
  ultimately show ?case
    by (simp add: x)
qed simp

text \<open>
  C18. From an account to commands: connecting an XMPP transport whose URI has a user, a
  password, a host and a resource, on a system that can create its thread, gives it a client with the JID and starts its thread; then, whatever events the library reports for the client, in whatever order, every message with a body becomes one
  command in the common queue, in order, with its sender and the transport; a successful
  authentication makes the client announce itself once, a failed one disconnects it, the presence
  of others is printed and the client's own is not, and nothing else happens.
\<close>
theorem xmpp_session:
  assumes "cm_inv m" "lookup m uri = Some t" "tr_callbacks t = all_of Xmpp" "tr_logger t = Logger"
    and "iri_user (tr_uri t) = Some (user @ CHR 0x3A # password)" "CHR 0x3A \<notin> set user"
    and "iri_host (tr_uri t) = Some host" "iri_path (tr_uri t) = Some resource"
    and "be_srv env = []" "be_xmpp_connect env = TA_OK" "be_thread env" "ta_list_ok T"
    and "\<forall>e \<in> set events. readable e"
    and "length (q_list (cm_commands m)) + length events \<le> q_maxsize (cm_commands m)"
  shows "\<exists>m1 a client. bitu_conn_manager_run env m uri = Some (m1, STATUS_SPAWNED) \<and>
    cm_heap m1 a = Some (t\<lparr>tr_data := Some (Data_xmpp client)\<rparr>) \<and>
    xc_jid client = user @ CHR 0x40 # host @ resource \<and> xc_password client = password \<and>
    xmpp_events partial T glibc_alloc env a events m1 =
      Some (m1\<lparr>cm_commands := (cm_commands m)\<lparr>q_list := rev (map Some (xmpp_commands a events)) @ q_list (cm_commands m)\<rparr>\<rparr>,
        xmpp_effects partial (user @ CHR 0x40 # host @ resource) events)"
proof -
  let ?client = "xmpp_client_of env t user password host resource"
  let ?t1 = "t\<lparr>tr_data := Some (Data_xmpp ?client)\<rparr>"
  obtain m1 where m1: "bitu_conn_manager_run env m uri = Some (m1, STATUS_SPAWNED)" "cm_inv m1"
    "lookup m1 = (lookup m)(uri \<mapsto> ?t1)" "cm_commands m1 = cm_commands m"
    using xmpp_run_spawned [OF assms(1-11)] by blast
  have "lookup m1 uri = Some ?t1"
    by (simp add: m1(3))
  with m1(2) obtain a where a: "cm_heap m1 a = Some ?t1" "tr_commands ?t1 = Manager_queue"
    by (rule lookup_SomeE)
  have "length (xmpp_commands a events) \<le> length events"
    by (induction events) (auto split: option.splits)
  then have "length (q_list (cm_commands m1)) + length (xmpp_commands a events) \<le> q_maxsize (cm_commands m1)"
    using assms(14) by (simp add: m1(4))
  then have "xmpp_events partial T glibc_alloc env a events m1 =
      Some (m1\<lparr>cm_commands := (cm_commands m1)\<lparr>q_list := rev (map Some (xmpp_commands a events)) @ q_list (cm_commands m1)\<rparr>\<rparr>,
        xmpp_effects partial (xc_jid ?client) events)"
    using assms(4,13) by (intro xmpp_events_run [OF assms(12) a]) (auto simp: xmpp_client_of_def)
  then show ?thesis
    using m1 a by (intro exI [of _ m1] exI [of _ a] exI [of _ ?client]) (simp add: xmpp_client_of_def)
qed

theorem xmpp_session_witness:
  "\<exists>m m1 m2 a. bitu_conn_manager_run example_env m ''uri'' = Some (m1, STATUS_SPAWNED) \<and>
    xmpp_events (takeWhile (\<lambda>c. c \<noteq> CHR 0x2F)) plain_list_api glibc_alloc example_env a
      [(''authenticated'', \<lparr>pak_from = [], pak_body = None\<rparr>), (''message-received'', \<lparr>pak_from = ''me@host/x'', pak_body = Some ''list plugins''\<rparr>)]
      m1 = Some (m2, [Presence_sent ''Online'']) \<and>
    q_list (cm_commands m2) = [Some (parsed_command a ''me@host/x'' ''list plugins'')]"
proof -
  let ?t = "example_transport Xmpp ''xmpp''"
  let ?events = "[(''authenticated'', \<lparr>pak_from = [], pak_body = None\<rparr>),
    (''message-received'', \<lparr>pak_from = ''me@host/x'', pak_body = Some ''list plugins''\<rparr>)]"
  obtain m where m: "cm_inv m" "lookup m ''uri'' = Some ?t" "cm_commands m = bitu_queue_new"
    using example_manager [of Xmpp "''xmpp''"] by auto
  have t: "tr_callbacks ?t = all_of Xmpp" "tr_logger ?t = Logger" "iri_user (tr_uri ?t) = Some (''bot'' @ CHR 0x3A # ''secret'')"
    "CHR 0x3A \<notin> set ''bot''" "iri_host (tr_uri ?t) = Some ''host''"
    "iri_path (tr_uri ?t) = Some ''/tmp/s''" "be_srv example_env = []" "be_xmpp_connect example_env = TA_OK"
    "be_thread example_env"
    by (simp_all add: example_transport_def example_iri_def example_env_def)
  have st: "strip ''list plugins'' = ''list plugins''"
    by code_simp
  have p: "\<forall>e \<in> set ?events. readable e"
    by (simp add: readable_def st plain_start_def quote_def backslash_def blank_def)
  have r: "length (q_list (cm_commands m)) + length ?events \<le> q_maxsize (cm_commands m)"
    by (simp add: m(3) bitu_queue_new_def COMMAND_QUEUE_SIZE_def)
  from xmpp_session [where partial = "takeWhile (\<lambda>c. c \<noteq> CHR 0x2F)", OF m(1,2) t plain_list_ok p r]
  obtain m1 a where "bitu_conn_manager_run example_env m ''uri'' = Some (m1, STATUS_SPAWNED)"
    "xmpp_events (takeWhile (\<lambda>c. c \<noteq> CHR 0x2F)) plain_list_api glibc_alloc example_env a ?events m1 =
      Some (m1\<lparr>cm_commands := bitu_queue_new\<lparr>q_list := [Some (parsed_command a ''me@host/x'' ''list plugins'')]\<rparr>\<rparr>,
        [Presence_sent ''Online''])"
    by (auto simp: st m(3) bitu_queue_new_def simp del: xmpp_events.simps)
  then show ?thesis
    by (intro exI conjI) (assumption, assumption, simp)
qed

end
