(* ===== verification/Transport_Commands.thy ===== *)
theory Transport_Commands
  imports Xmpp_Props Irc_Props
begin

text \<open>
  The \<open>transport\<close> commands of the application on transports of all three backends, against a specification in
  which a transport is just a URI, a backend and one of three states: sequences of commands answer what the
  specification answers, and have no defined result exactly where the specification has none.
\<close>

section \<open>The specification\<close>

text \<open>
  \<open>Dead\<close> is a local or an XMPP transport that was connected and has been disconnected: nothing can be
  done with it any more, except that a local one can be removed. An IRC transport can be connected again, but
  it can be disconnected only while it has a session.
\<close>

datatype tstatus = Ready | Running | Dead

text \<open>
  What becomes of a transport that is connected, with \<open>ok\<close> when the system and the library do their part, and whether
  its thread is started.
\<close>

fun connect_spec :: "backend \<Rightarrow> tstatus \<Rightarrow> bool \<Rightarrow> (tstatus \<times> bool) option" where
  "connect_spec Local Ready ok = Some (if ok then (Running, True) else (Dead, False))"
| "connect_spec Local Running ok = Some (Dead, False)"
| "connect_spec Xmpp Ready ok = Some (if ok then (Running, True) else (Dead, False))"
| "connect_spec Xmpp Running ok = Some (if ok then (Running, True) else (Dead, False))"
| "connect_spec Irc Ready ok = (if ok then Some (Running, True) else None)"
| "connect_spec Irc Running ok = Some (if ok then (Running, True) else (Ready, False))"
| "connect_spec _ Dead ok = None"

text \<open>A transport that is disconnected, and whether there was something to disconnect.\<close>

fun disconnect_spec :: "backend \<Rightarrow> tstatus \<Rightarrow> (tstatus \<times> bool) option" where
  "disconnect_spec Irc Ready = None"
| "disconnect_spec _ Ready = Some (Ready, False)"
| "disconnect_spec Irc Running = Some (Ready, True)"
| "disconnect_spec _ Running = Some (Dead, True)"
| "disconnect_spec _ Dead = None"

text \<open>
  Whether a transport counts as running, with \<open>up\<close> when the library says that its connection is open. A running transport
  is not removed.
\<close>

fun running_spec :: "backend \<Rightarrow> tstatus \<Rightarrow> bool \<Rightarrow> bool option" where
  "running_spec _ Ready up = Some False"
| "running_spec Local Running up = Some True"
| "running_spec _ Running up = Some up"
| "running_spec Local Dead up = Some False"
| "running_spec _ Dead up = None"

text \<open>
  Connecting and removing depend on the answers of the outside for each backend: whether a connection can be had, and
  whether it is open.
\<close>

datatype tr_op =
    Tr_add string backend
  | Tr_remove string "backend \<Rightarrow> bool"
  | Tr_connect string "backend \<Rightarrow> bool"
  | Tr_disconnect string

type_synonym tr_states = "string \<rightharpoonup> backend \<times> tstatus"

definition tr_unknown :: "string option" where
  "tr_unknown = Some ''Transport not found, stop wasting my time''"

definition tr_failed :: "string option" where
  "tr_failed = Some ''I really don't know wtf just happened''"

fun tr_step :: "tr_op \<Rightarrow> tr_states \<Rightarrow> (tr_states \<times> string option) option" where
  "tr_step (Tr_add uri b) m = Some (if m uri = None then m(uri \<mapsto> (b, Ready)) else m, None)"
| "tr_step (Tr_remove uri up) m = (case m uri of
       None \<Rightarrow> Some (m, Some ''Transport not found'')
     | Some (b, st) \<Rightarrow> do {
         running \<leftarrow> running_spec b st (up b);
         Some (if running then (m, Some ''You have to disconnect the transport before removing'')
               else (m(uri := None), None)) })"
| "tr_step (Tr_connect uri ok) m = (case m uri of
       None \<Rightarrow> Some (m, tr_unknown)
     | Some (b, st) \<Rightarrow> do {
         (st, spawned) \<leftarrow> connect_spec b st (ok b);
         Some (m(uri \<mapsto> (b, st)), if spawned then None else tr_failed) })"
| "tr_step (Tr_disconnect uri) m = (case m uri of
       None \<Rightarrow> Some (m, tr_unknown)
     | Some (b, st) \<Rightarrow> do {
         (st, done) \<leftarrow> disconnect_spec b st;
         Some (m(uri \<mapsto> (b, st)), if done then None
           else Some ''Transport already shutdown, do you want to kill it twice??'') })"

section \<open>The state of a transport\<close>

text \<open>
  What the URI of a transport must have: a path that fits into a socket's address, or a user with a password, and a host.
\<close>

definition good_uri :: "backend \<Rightarrow> iri \<Rightarrow> bool" where
  "good_uri b iri = (case b of
       Local \<Rightarrow> (case iri_path iri of None \<Rightarrow> False | Some path \<Rightarrow> length path < 108)
     | Xmpp \<Rightarrow> (case iri_user iri of None \<Rightarrow> False | Some user \<Rightarrow> CHR 0x3A \<in> set user) \<and> iri_host iri \<noteq> None
     | Irc \<Rightarrow> True)"

text \<open>The state of a transport; \<open>None\<close> for anything that no sequence of these commands makes.\<close>

definition state_of :: "backend \<Rightarrow> bitu_transport \<Rightarrow> tstatus option" where
  "state_of b t = (case (tr_logger t, tr_data t) of
       (Logger, None) \<Rightarrow> Some Ready
     | (Logger_freed, None) \<Rightarrow> if b = Local then Some Dead else None
     | (Logger, Some (Data_server server)) \<Rightarrow>
         if b = Local \<and> ht_wf (sv_clients server) \<and> sv_sock server \<noteq> None \<and> sv_can_run server then Some Running else None
     | (Logger, Some (Data_xmpp client)) \<Rightarrow> if b = Xmpp \<and> xc_live client then Some Running else None
     | (Logger_freed, Some (Data_xmpp client)) \<Rightarrow> if b = Xmpp \<and> \<not> xc_live client then Some Dead else None
     | (Logger, Some (Data_irc s)) \<Rightarrow> if b = Irc then Some Running else None
     | _ \<Rightarrow> None)"

definition in_state :: "backend \<Rightarrow> tstatus \<Rightarrow> bitu_transport \<Rightarrow> bool" where
  "in_state b st t \<longleftrightarrow> tr_callbacks t = all_of b \<and> good_uri b (tr_uri t) \<and> state_of b t = Some st"

definition tr_state :: "bitu_transport \<Rightarrow> (backend \<times> tstatus) option" where
  "tr_state t = do {
     b \<leftarrow> cb_connect (tr_callbacks t);
     require (tr_callbacks t = all_of b \<and> good_uri b (tr_uri t));
     st \<leftarrow> state_of b t;
     Some (b, st) }"

lemma tr_state_iff: "tr_state t = Some (b, st) \<longleftrightarrow> in_state b st t"
  by (auto simp: tr_state_def in_state_def require_def bind_eq_Some_conv split: if_splits)

lemma in_state_simps:
  "in_state Local Ready t \<longleftrightarrow> tr_callbacks t = all_of Local \<and> good_uri Local (tr_uri t) \<and> tr_logger t = Logger \<and> tr_data t = None"
  "in_state Local Dead t \<longleftrightarrow> tr_callbacks t = all_of Local \<and> good_uri Local (tr_uri t) \<and> tr_logger t = Logger_freed \<and>
     tr_data t = None"
  "in_state Local Running t \<longleftrightarrow> tr_callbacks t = all_of Local \<and> good_uri Local (tr_uri t) \<and> tr_logger t = Logger \<and>
     (\<exists>server. tr_data t = Some (Data_server server) \<and> ht_wf (sv_clients server) \<and> sv_sock server \<noteq> None \<and> sv_can_run server)"
  "in_state Xmpp Ready t \<longleftrightarrow> tr_callbacks t = all_of Xmpp \<and> good_uri Xmpp (tr_uri t) \<and> tr_logger t = Logger \<and> tr_data t = None"
  "in_state Xmpp Running t \<longleftrightarrow> tr_callbacks t = all_of Xmpp \<and> good_uri Xmpp (tr_uri t) \<and> tr_logger t = Logger \<and>
     (\<exists>client. tr_data t = Some (Data_xmpp client) \<and> xc_live client)"
  "in_state Xmpp Dead t \<longleftrightarrow> tr_callbacks t = all_of Xmpp \<and> good_uri Xmpp (tr_uri t) \<and> tr_logger t = Logger_freed \<and>
     (\<exists>client. tr_data t = Some (Data_xmpp client) \<and> \<not> xc_live client)"
  "in_state Irc Ready t \<longleftrightarrow> tr_callbacks t = all_of Irc \<and> tr_logger t = Logger \<and> tr_data t = None"
  "in_state Irc Running t \<longleftrightarrow> tr_callbacks t = all_of Irc \<and> tr_logger t = Logger \<and> (\<exists>s. tr_data t = Some (Data_irc s))"
  "\<not> in_state Irc Dead t"
  by (auto simp: in_state_def state_of_def good_uri_def split: logger.splits option.splits tr_data.splits if_splits)

section \<open>Connecting, disconnecting and removing one transport\<close>

text \<open>What the outside answers to an attempt to connect, and to the question whether a connection is open.\<close>

definition connects :: "backend_env \<Rightarrow> backend \<Rightarrow> bool \<Rightarrow> bool" where
  "connects env b ok \<longleftrightarrow> be_thread env \<and> (case b of
       Local \<Rightarrow> socket_ok env = ok
     | Xmpp \<Rightarrow> length (be_srv env) \<le> 1 \<and> (be_xmpp_connect env = TA_OK) = ok
     | Irc \<Rightarrow> be_irc_connect env = ok \<and> (ok \<longrightarrow> be_irc_session env))"

definition reports :: "backend_env \<Rightarrow> backend \<Rightarrow> bool \<Rightarrow> bool" where
  "reports env b up \<longleftrightarrow> (case b of
       Local \<Rightarrow> True
     | Xmpp \<Rightarrow> (be_xmpp_running env = TA_OK) = up
     | Irc \<Rightarrow> be_irc_connected env = up)"

text \<open>A transition of the transport under a URI, with the answer of the manager.\<close>

definition moves ::
    "(conn_manager \<times> conn_status) option \<Rightarrow> conn_manager \<Rightarrow> string \<Rightarrow> backend \<Rightarrow> tstatus \<Rightarrow> conn_status \<Rightarrow> bool" where
  "moves r m uri b st answer \<longleftrightarrow> (\<exists>m' t. r = Some (m', answer) \<and> cm_inv m' \<and> lookup m' = (lookup m)(uri \<mapsto> t) \<and>
     in_state b st t)"

lemma movesI:
  "r = Some (m', answer) \<Longrightarrow> cm_inv m' \<Longrightarrow> lookup m' = (lookup m)(uri \<mapsto> t) \<Longrightarrow> in_state b st t \<Longrightarrow> moves r m uri b st answer"
  by (auto simp: moves_def)

lemma run_moves:
  assumes "cm_inv m" "lookup m uri = Some t" "\<And>a. bitu_transport_connect env a t = Some (t1, rc)" "be_thread env"
    and "rc_ok rc \<Longrightarrow> in_state b st t1"
    and "\<not> rc_ok rc \<Longrightarrow> tr_logger t1 = Logger \<and> bitu_transport_disconnect t1 = Some (t2, rc') \<and> in_state b st t2"
  shows "moves (bitu_conn_manager_run env m uri) m uri b st (if rc_ok rc then STATUS_SPAWNED else STATUS_CONNECTION_FAILED)"
proof (cases "rc_ok rc")
  case True
  then show ?thesis
    using run_spawned [OF assms(1-3) True assms(4)] assms(5) by (auto intro: movesI)
next
  case False
  then show ?thesis
    using run_failed [OF assms(1-3) False, of "\<lambda>_. t2" rc'] assms(6) by (auto intro: movesI)
qed

lemma shutdown_moves:
  assumes "cm_inv m" "lookup m uri = Some t" "tr_logger t = Logger" "bitu_transport_disconnect t = Some (t', rc)" "in_state b st t'"
  shows "moves (bitu_conn_manager_shutdown m uri) m uri b st (if rc_ok rc then STATUS_OK else STATUS_ALREADY_SHUTDOWN)"
  using shutdown_run [OF assms(1-4)] assms(5) by (auto intro: movesI)

text \<open>What the specification says of a connection.\<close>

definition connects_as ::
    "(conn_manager \<times> conn_status) option \<Rightarrow> conn_manager \<Rightarrow> string \<Rightarrow> backend \<Rightarrow> (tstatus \<times> bool) option \<Rightarrow> bool" where
  "connects_as r m uri b spec \<longleftrightarrow> (case spec of None \<Rightarrow> r = None
     | Some (st, spawned) \<Rightarrow> moves r m uri b st (if spawned then STATUS_SPAWNED else STATUS_CONNECTION_FAILED))"

lemma local_connects:
  assumes "cm_inv m" "lookup m uri = Some t" "in_state Local st t" "connects env Local ok"
  shows "connects_as (bitu_conn_manager_run env m uri) m uri Local (connect_spec Local st ok)"
proof (cases st)
  case Ready
  then obtain path where path: "local_stopped t path" "tr_logger t = Logger" "good_uri Local (tr_uri t)"
    using assms(3) by (auto simp: in_state_simps good_uri_def local_stopped_def split: option.splits)
  have ok: "socket_ok env = ok" "be_thread env"
    using assms(4) by (simp_all add: connects_def)
  obtain m' a where m: "bitu_conn_manager_run env m uri =
      Some (m', if ok then STATUS_SPAWNED else STATUS_CONNECTION_FAILED)" "cm_inv m'"
    "lookup m' = (lookup m)(uri \<mapsto>
      if ok then with_server t (fresh_server a path (env_socket (be_sock env))) else server_freed t)"
    using local_run_shape [OF assms(1,2) path(1,2) ok(2)] unfolding ok(1) by blast
  show ?thesis
    using movesI [OF m] path(1,3) Ready by (cases ok) (simp_all add: connects_as_def in_state_simps local_stopped_def)
next
  case Running
  then obtain server where s: "tr_data t = Some (Data_server server)" "ht_wf (sv_clients server)"
    "sv_sock server \<noteq> None" "tr_callbacks t = all_of Local" "tr_logger t = Logger" "good_uri Local (tr_uri t)"
    using assms(3) by (auto simp: in_state_simps)
  then show ?thesis
    using local_run_again [OF assms(1,2) s(4,5,1,2,3), of env] Running
    by (auto simp: connects_as_def in_state_simps intro: movesI)
next
  case Dead
  then show ?thesis
    using logger_gone(1) [OF assms(1,2)] assms(3) by (simp add: in_state_simps connects_as_def)
qed

lemma xmpp_connect_run:
  assumes "tr_callbacks t = all_of Xmpp" "good_uri Xmpp (tr_uri t)" "tr_logger t = Logger" "length (be_srv env) \<le> 1"
  shows "\<exists>client. xc_live client \<and> (\<forall>a. bitu_transport_connect env a t =
    Some (t\<lparr>tr_data := Some (Data_xmpp client)\<rparr>, Conn (if be_xmpp_connect env = TA_OK then STATUS_OK else STATUS_CONNECTION_FAILED)))"
proof -
  obtain user host where u: "iri_user (tr_uri t) = Some user" "CHR 0x3A \<in> set user" "iri_host (tr_uri t) = Some host"
    using assms(2) by (auto simp: good_uri_def split: option.splits)
  obtain server port where srv: "query_service env None (iri_port (tr_uri t)) = Some (server, port)"
    using assms(4) by (cases "be_srv env") (auto simp: query_service_def)
  have upd: "t\<lparr>tr_data := d, tr_logger := Logger\<rparr> = t\<lparr>tr_data := d\<rparr>" for d
    using assms(3) by (cases t) simp
  let ?client = "\<lparr>xc_jid = make_jid (takeWhile (\<lambda>c. c \<noteq> CHR 0x3A) user) host
      (case iri_path (tr_uri t) of None \<Rightarrow> ''/bitU'' | Some r \<Rightarrow> r),
    xc_password = tl (dropWhile (\<lambda>c. c \<noteq> CHR 0x3A) user), xc_server = server,
    xc_port = if port > 0 then port else be_default_port env, xc_live = True\<rparr>"
  show ?thesis
    using srv assms(1,3) u
    by (intro exI [of _ ?client])
      (auto simp: upd bitu_transport_connect_def xmpp_connect_def tr_log_def split_user_def require_def Let_def)
qed

lemma xmpp_disconnect_run:
  assumes "tr_callbacks t = all_of Xmpp" "tr_logger t = Logger" "tr_data t = Some (Data_xmpp client)" "xc_live client"
  shows "bitu_transport_disconnect t =
    Some (t\<lparr>tr_data := Some (Data_xmpp (client\<lparr>xc_live := False\<rparr>)), tr_logger := Logger_freed\<rparr>, Conn STATUS_OK)"
  using assms by (simp add: bitu_transport_disconnect_def tr_log_def xmpp_disconnect_def)

lemma xmpp_connects:
  assumes "cm_inv m" "lookup m uri = Some t" "in_state Xmpp st t" "connects env Xmpp ok"
  shows "connects_as (bitu_conn_manager_run env m uri) m uri Xmpp (connect_spec Xmpp st ok)"
proof (cases "st = Dead")
  case True
  then show ?thesis
    using logger_gone(1) [OF assms(1,2)] assms(3) by (simp add: in_state_simps connects_as_def)
next
  case False
  then have t: "tr_callbacks t = all_of Xmpp" "good_uri Xmpp (tr_uri t)" "tr_logger t = Logger"
    using assms(3) by (cases st; auto simp: in_state_simps)+
  have ok: "(be_xmpp_connect env = TA_OK) = ok" "be_thread env" "length (be_srv env) \<le> 1"
    using assms(4) by (simp_all add: connects_def)
  obtain client where c: "xc_live client" "\<And>a. bitu_transport_connect env a t =
      Some (t\<lparr>tr_data := Some (Data_xmpp client)\<rparr>, Conn (if ok then STATUS_OK else STATUS_CONNECTION_FAILED))"
    using xmpp_connect_run [OF t ok(3)] unfolding ok(1) by blast
  let ?t1 = "t\<lparr>tr_data := Some (Data_xmpp client)\<rparr>"
  let ?t2 = "?t1\<lparr>tr_data := Some (Data_xmpp (client\<lparr>xc_live := False\<rparr>)), tr_logger := Logger_freed\<rparr>"
  have "bitu_transport_disconnect ?t1 = Some (?t2, Conn STATUS_OK)"
    using xmpp_disconnect_run [of ?t1 client] t c(1) by simp
  moreover have "in_state Xmpp Running ?t1" "in_state Xmpp Dead ?t2"
    using t c(1) by (simp_all add: in_state_simps)
  ultimately have "moves (bitu_conn_manager_run env m uri) m uri Xmpp (if ok then Running else Dead)
      (if ok then STATUS_SPAWNED else STATUS_CONNECTION_FAILED)"
    using run_moves [OF assms(1,2) c(2) ok(2), of Xmpp "if ok then Running else Dead" ?t2 "Conn STATUS_OK"] t(3)
    by (cases ok) (simp_all add: rc_ok_def)
  then show ?thesis
    using False by (cases st; cases ok) (simp_all add: connects_as_def)
qed

lemma irc_connects:
  assumes "cm_inv m" "lookup m uri = Some t" "in_state Irc st t" "connects env Irc ok"
  shows "connects_as (bitu_conn_manager_run env m uri) m uri Irc (connect_spec Irc st ok)"
proof -
  have t: "tr_callbacks t = all_of Irc" "tr_logger t = Logger"
    using assms(3) by (cases st; simp add: in_state_simps)+
  have ok: "be_irc_connect env = ok" "be_thread env" "ok \<Longrightarrow> be_irc_session env"
    using assms(4) by (simp_all add: connects_def)
  show ?thesis
  proof (cases "st = Ready \<and> \<not> ok")
    case True
    then show ?thesis
      using irc_first_connection_fails [OF assms(1,2) t(1), of env] ok(1) assms(3)
      by (simp add: connects_as_def in_state_simps)
  next
    case False
    then obtain s where s: "\<And>a. bitu_transport_connect env a t =
        Some (if ok then t\<lparr>tr_data := Some (Data_irc s)\<rparr> else t, Conn (if ok then STATUS_OK else STATUS_CONNECTION_FAILED))"
      using assms(3) t ok
      by (cases st) (auto simp: in_state_simps bitu_transport_connect_def irc_connect_def irc_get_session_def tr_log_def Let_def)
    have "\<not> ok \<Longrightarrow> bitu_transport_disconnect t = Some (t\<lparr>tr_data := None\<rparr>, Conn STATUS_OK)"
      using assms(3) t False by (cases st) (auto simp: in_state_simps bitu_transport_disconnect_def tr_log_def irc_disconnect_def)
    then have "moves (bitu_conn_manager_run env m uri) m uri Irc (if ok then Running else Ready)
        (if ok then STATUS_SPAWNED else STATUS_CONNECTION_FAILED)"
      using run_moves [OF assms(1,2) s ok(2), of Irc "if ok then Running else Ready" "t\<lparr>tr_data := None\<rparr>" "Conn STATUS_OK"] t
      by (cases ok) (simp_all add: rc_ok_def in_state_simps)
    then show ?thesis
      using False assms(3) by (cases st; cases ok) (simp_all add: connects_as_def in_state_simps)
  qed
qed

lemma connect_moves:
  assumes "cm_inv m" "lookup m uri = Some t" "in_state b st t" "connects env b ok"
  shows "connects_as (bitu_conn_manager_run env m uri) m uri b (connect_spec b st ok)"
  using assms local_connects xmpp_connects irc_connects by (cases b) blast+

lemma disconnect_moves:
  assumes "cm_inv m" "lookup m uri = Some t" "in_state b st t"
  shows "case disconnect_spec b st of None \<Rightarrow> bitu_conn_manager_shutdown m uri = None
    | Some (st', done) \<Rightarrow> moves (bitu_conn_manager_shutdown m uri) m uri b st'
        (if done then STATUS_OK else STATUS_ALREADY_SHUTDOWN)"
proof -
  note undef = shutdown_undefined [OF assms(1,2)] and run = shutdown_moves [OF assms(1,2)]
  show ?thesis
  proof (cases st)
    case Dead
    then show ?thesis
      using undef assms(3) by (cases b) (simp_all add: in_state_simps)
  next
    case Ready
    then have l: "tr_logger t = Logger" and d: "tr_data t = None" and cb: "tr_callbacks t = all_of b"
      using assms(3) by (cases b; simp add: in_state_simps)+
    show ?thesis
    proof (cases "b = Irc")
      case True
      then show ?thesis
        using undef Ready d cb by (simp add: bitu_transport_disconnect_def irc_disconnect_def)
    next
      case False
      then have "bitu_transport_disconnect t = Some (t, Conn STATUS_ALREADY_SHUTDOWN)"
        using l d cb by (cases b) (simp_all add: bitu_transport_disconnect_def tr_log_def local_disconnect_def xmpp_disconnect_def)
      from run [OF l this assms(3)] show ?thesis
        using False Ready by (cases b) (simp_all add: rc_ok_def)
    qed
  next
    case Running
    then have l: "tr_logger t = Logger" and cb: "tr_callbacks t = all_of b"
      using assms(3) by (cases b; auto simp: in_state_simps)+
    have "\<exists>t' st'. bitu_transport_disconnect t = Some (t', Conn STATUS_OK) \<and> disconnect_spec b st = Some (st', True) \<and>
      in_state b st' t'"
    proof (cases b)
      case Local
      then obtain server where "tr_data t = Some (Data_server server)" "ht_wf (sv_clients server)" "sv_sock server \<noteq> None"
        using assms(3) Running by (auto simp: in_state_simps)
      then show ?thesis
        using local_disconnect_ok [OF _ _ l] cb assms(3) Running Local by (auto simp: in_state_simps)
    next
      case Xmpp
      then obtain client where "tr_data t = Some (Data_xmpp client)" "xc_live client"
        using assms(3) Running by (auto simp: in_state_simps)
      then show ?thesis
        using xmpp_disconnect_run [OF _ l] cb assms(3) Running Xmpp by (auto simp: in_state_simps)
    next
      case Irc
      then show ?thesis
        using assms(3) l Running by (auto simp: in_state_simps bitu_transport_disconnect_def irc_disconnect_def tr_log_def)
    qed
    then show ?thesis
      using run [OF l] by (auto simp: rc_ok_def)
  qed
qed

lemma running_state:
  assumes "in_state b st t" "reports env b up"
  shows "bitu_transport_is_running env t = map_option (\<lambda>r. Ta (if r then TA_OK else TA_ERROR)) (running_spec b st up)"
proof (cases b)
  case Local
  then show ?thesis
    using assms(1) by (cases st) (auto simp: in_state_simps local_running)
next
  case Xmpp
  then have "be_xmpp_running env = (if up then TA_OK else TA_ERROR)"
    using assms(2) by (cases "be_xmpp_running env") (auto simp: reports_def)
  then show ?thesis
    using assms(1) Xmpp by (cases st) (auto simp: in_state_simps bitu_transport_is_running_def xmpp_is_running_def require_def)
next
  case Irc
  then show ?thesis
    using assms by (cases st) (auto simp: in_state_simps bitu_transport_is_running_def irc_is_running_def reports_def)
qed

lemma remove_undefined:
  assumes "cm_inv m" "lookup m uri = Some t" "bitu_transport_is_running env t = None"
  shows "bitu_conn_manager_remove env m uri = None"
proof -
  obtain a where "ht_map (cm_transports m) uri = Some a" "cm_heap m a = Some t"
    using assms(1,2) by (rule lookup_SomeE)
  then show ?thesis
    using assms(3) by (simp add: bitu_conn_manager_remove_def ht.get_law [OF cm_inv_wf [OF assms(1)]])
qed

section \<open>The transports of an application\<close>

definition statuses :: "bitu_app \<Rightarrow> tr_states" where
  "statuses app uri = Option.bind (lookup (ap_connections app) uri) tr_state"

definition only_connections :: "bitu_app \<Rightarrow> bitu_app \<Rightarrow> bool" where
  "only_connections app app' \<longleftrightarrow> (\<exists>m. app' = app\<lparr>ap_connections := m\<rparr>)"

text \<open>An application each of whose transports is in a state of the specification.\<close>

definition known_app :: "bitu_app \<Rightarrow> bool" where
  "known_app app \<longleftrightarrow> app_inv app \<and> (\<forall>uri t. lookup (ap_connections app) uri = Some t \<longrightarrow> tr_state t \<noteq> None)"

text \<open>The command line of an operation, and what the outside has to give for it.\<close>

definition addresses :: "app_env \<Rightarrow> string \<Rightarrow> backend \<Rightarrow> bool" where
  "addresses E uri b \<longleftrightarrow> (\<exists>iri scheme. ae_parse E uri = Some iri \<and> iri_scheme iri = Some scheme \<and>
     (scheme, b) \<in> {(''file'', Local), (''xmpp'', Xmpp), (''irc'', Irc)} \<and> good_uri b iri)"

fun tr_command :: "tr_op \<Rightarrow> app_env \<times> bitu_command \<Rightarrow> bool" where
  "tr_command (Tr_add uri b) (E, c) = (addresses E uri b \<and> is_command ''transport'' [''add'', uri] c)"
| "tr_command (Tr_remove uri up) (E, c) = ((\<forall>b. reports (ae_backend E) b (up b)) \<and> is_command ''transport'' [''remove'', uri] c)"
| "tr_command (Tr_connect uri ok) (E, c) = ((\<forall>b. connects (ae_backend E) b (ok b)) \<and> is_command ''transport'' [''connect'', uri] c)"
| "tr_command (Tr_disconnect uri) (E, c) = is_command ''transport'' [''disconnect'', uri] c"

lemma only_connections_refl: "only_connections app app"
  unfolding only_connections_def by (rule exI [of _ "ap_connections app"]) simp

lemma only_connections_trans:
  "only_connections a b \<Longrightarrow> only_connections b c \<Longrightarrow> only_connections a c"
  by (auto simp: only_connections_def)

lemma known_app_inv: "known_app app \<Longrightarrow> cm_inv (ap_connections app)"
  by (simp add: known_app_def app_invD)

lemma statuses_None: "known_app app \<Longrightarrow> statuses app uri = None \<longleftrightarrow> lookup (ap_connections app) uri = None"
  by (cases "lookup (ap_connections app) uri") (auto simp: statuses_def known_app_def)

lemma statuses_SomeE:
  assumes "statuses app uri = Some (b, st)"
  obtains t where "lookup (ap_connections app) uri = Some t" "in_state b st t"
  using assms by (auto simp: statuses_def bind_eq_Some_conv tr_state_iff)

lemma dom_statuses: "known_app app \<Longrightarrow> dom (statuses app) = dom (ht_map (cm_transports (ap_connections app)))"
  using statuses_None lookup_None [OF known_app_inv] by (auto simp: dom_def simp del: not_None_eq)

text \<open>The result of an operation of the manager is an application of this kind again.\<close>

lemma known_app_update:
  assumes "known_app app" "cm_inv m" "lookup m = (lookup (ap_connections app))(uri := v)"
    and "\<And>t. v = Some t \<Longrightarrow> tr_state t \<noteq> None"
  shows "known_app (app\<lparr>ap_connections := m\<rparr>)"
    and "statuses (app\<lparr>ap_connections := m\<rparr>) = (statuses app)(uri := Option.bind v tr_state)"
  using assms by (auto simp: known_app_def app_inv_connections statuses_def fun_eq_iff)

text \<open>One command and what the specification says of it.\<close>

definition tr_refines :: "bitu_app \<Rightarrow> (bitu_app \<times> string option) option \<Rightarrow> (tr_states \<times> string option) option \<Rightarrow> bool" where
  "tr_refines app r spec \<longleftrightarrow> (case spec of
       None \<Rightarrow> r = None
     | Some (a, out) \<Rightarrow> \<exists>app'. r = Some (app', out) \<and> known_app app' \<and> statuses app' = a \<and> only_connections app app')"

lemma tr_refines_put:
  assumes "known_app app" "cm_inv m" "lookup m = (lookup (ap_connections app))(uri \<mapsto> t)" "in_state b st t"
  shows "tr_refines app (Some (app\<lparr>ap_connections := m\<rparr>, out)) (Some ((statuses app)(uri \<mapsto> (b, st)), out))"
  using known_app_update [OF assms(1-3)] assms(4) by (auto simp: tr_refines_def only_connections_def simp flip: tr_state_iff)

lemma tr_refines_delete:
  assumes "known_app app" "cm_inv m" "lookup m = (lookup (ap_connections app))(uri := None)"
  shows "tr_refines app (Some (app\<lparr>ap_connections := m\<rparr>, out)) (Some ((statuses app)(uri := None), out))"
  using known_app_update [OF assms] by (auto simp: tr_refines_def only_connections_def)

lemma tr_refines_same: "known_app app \<Longrightarrow> tr_refines app (Some (app, out)) (Some (statuses app, out))"
  by (simp add: tr_refines_def only_connections_refl)

lemma tr_refines_moves:
  assumes "known_app app" "moves r (ap_connections app) uri b st answer"
  shows "tr_refines app (do { (app, status) \<leftarrow> with_connections app r; Some (app, f status) })
    (Some ((statuses app)(uri \<mapsto> (b, st)), f answer))"
  using assms(2) tr_refines_put [OF assms(1)] by (auto simp: moves_def with_connections_def)

section \<open>One command\<close>

lemma exec_transport:
  assumes "known_app app" "is_command ''transport'' [sub, uri] c"
  shows "exec_in (E, c) app = cmd_transport E app [sub, uri] 2"
  using exec_builtin [OF _ assms(2) builtin_names(8), of app E] assms(1)
  by (cases "cmd_transport E app [sub, uri] 2") (auto simp: exec_in_def exec_step_def run_builtin_def known_app_def)

definition connect_answer :: "conn_status \<Rightarrow> string option" where
  "connect_answer status = (case status of
       STATUS_SPAWNED \<Rightarrow> None
     | STATUS_TRANSPORT_NOT_FOUND \<Rightarrow> tr_unknown
     | STATUS_ALREADY_RUNNING \<Rightarrow> Some ''Transport already running, can't you see it???''
     | _ \<Rightarrow> tr_failed)"

definition disconnect_answer :: "conn_status \<Rightarrow> string option" where
  "disconnect_answer status = (case status of
       STATUS_OK \<Rightarrow> None
     | STATUS_TRANSPORT_NOT_FOUND \<Rightarrow> tr_unknown
     | STATUS_ALREADY_SHUTDOWN \<Rightarrow> Some ''Transport already shutdown, do you want to kill it twice??''
     | _ \<Rightarrow> tr_failed)"

lemma transport_subcommands:
  "cmd_transport E app [''add'', uri] 2 = do {
     (app, _) \<leftarrow> with_connections app (bitu_conn_manager_add (ae_parse E) (ap_connections app) uri);
     Some (app, None) }"
  "cmd_transport E app [''remove'', uri] 2 = do {
     (app, status) \<leftarrow> with_connections app (bitu_conn_manager_remove (ae_backend E) (ap_connections app) uri);
     Some (app, case status of
         STATUS_STILL_RUNNING \<Rightarrow> Some ''You have to disconnect the transport before removing''
       | STATUS_TRANSPORT_NOT_FOUND \<Rightarrow> Some ''Transport not found''
       | _ \<Rightarrow> None) }"
  "cmd_transport E app [''connect'', uri] 2 = do {
     (app, status) \<leftarrow> with_connections app (bitu_conn_manager_run (ae_backend E) (ap_connections app) uri);
     Some (app, connect_answer status) }"
  "cmd_transport E app [''disconnect'', uri] 2 = do {
     (app, status) \<leftarrow> with_connections app (bitu_conn_manager_shutdown (ap_connections app) uri);
     Some (app, disconnect_answer status) }"
  unfolding connect_answer_def disconnect_answer_def tr_unknown_def tr_failed_def
  by (simp_all add: cmd_transport_def checked_def validate_min_num_params_def validate_num_params_def)

lemma tr_add_step:
  assumes "known_app app" "card (dom (statuses app)) < ht_capacity" "tr_command (Tr_add uri b) (E, c)"
  shows "tr_refines app (exec_in (E, c) app) (tr_step (Tr_add uri b) (statuses app))"
proof -
  have room: "cm_room (ap_connections app)"
    using assms(1,2) by (simp add: cm_room_def dom_statuses)
  obtain iri where good: "good_uri b iri" and new: "bitu_transport_new (ae_parse E) uri = Some (Inr
      \<lparr>tr_uri = iri, tr_data = None, tr_logger = Logger, tr_callbacks = all_of b, tr_commands = No_value\<rparr>)"
    using assms(3) by (auto simp: addresses_def transport_new_eq)
  let ?t = "\<lparr>tr_uri = iri, tr_data = None, tr_logger = Logger, tr_callbacks = all_of b, tr_commands = Manager_queue\<rparr>"
  have exec: "exec_in (E, c) app = cmd_transport E app [''add'', uri] 2"
    using assms by (intro exec_transport) simp_all
  obtain m p where m: "bitu_conn_manager_add (ae_parse E) (ap_connections app) uri = Some (m, p)" "cm_inv m"
    and r: "case lookup (ap_connections app) uri of
       Some t \<Rightarrow> m = ap_connections app
     | None \<Rightarrow> lookup m = (lookup (ap_connections app))(uri \<mapsto> ?t)"
    using add_run [OF known_app_inv [OF assms(1)] room new] by (auto split: option.splits)
  have run: "exec_in (E, c) app = Some (app\<lparr>ap_connections := m\<rparr>, None)"
    by (simp add: exec transport_subcommands with_connections_def m(1))
  have st: "in_state b Ready ?t"
    using good by (cases b) (simp_all add: in_state_simps)
  show ?thesis
    using r tr_refines_put [OF assms(1) m(2) _ st] tr_refines_same [OF assms(1)] statuses_None [OF assms(1), of uri]
    by (auto simp: run split: option.splits)
qed

lemma tr_remove_step:
  assumes "known_app app" "tr_command (Tr_remove uri up) (E, c)"
  shows "tr_refines app (exec_in (E, c) app) (tr_step (Tr_remove uri up) (statuses app))"
proof -
  note inv = known_app_inv [OF assms(1)]
  have exec: "exec_in (E, c) app = cmd_transport E app [''remove'', uri] 2"
    using assms by (intro exec_transport) simp_all
  note run = exec transport_subcommands(2) with_connections_def
  show ?thesis
  proof (cases "statuses app uri")
    case None
    then have "bitu_conn_manager_remove (ae_backend E) (ap_connections app) uri =
        Some (ap_connections app, STATUS_TRANSPORT_NOT_FOUND)"
      using statuses_None [OF assms(1)] inv
      by (simp add: bitu_conn_manager_remove_def ht.get_law [OF cm_inv_wf] lookup_None)
    then show ?thesis
      using tr_refines_same [OF assms(1)] None by (simp add: run)
  next
    case (Some s)
    obtain b st where s: "s = (b, st)"
      by (cases s)
    obtain t where t: "lookup (ap_connections app) uri = Some t" "in_state b st t"
      using Some s statuses_SomeE by blast
    have r: "bitu_transport_is_running (ae_backend E) t =
        map_option (\<lambda>r. Ta (if r then TA_OK else TA_ERROR)) (running_spec b st (up b))"
      using running_state [OF t(2)] assms(2) by simp
    show ?thesis
    proof (cases "running_spec b st (up b)")
      case None
      then show ?thesis
        using remove_undefined [OF inv t(1), of "ae_backend E"] r Some s by (simp add: run tr_refines_def)
    next
      case (Some running)
      show ?thesis
      proof (cases running)
        case True
        then have "bitu_conn_manager_remove (ae_backend E) (ap_connections app) uri =
            Some (ap_connections app, STATUS_STILL_RUNNING)"
          using remove_refuses [OF inv t(1)] r Some by (simp add: rc_ok_def)
        then show ?thesis
          using tr_refines_same [OF assms(1)] \<open>statuses app uri = Some s\<close> s Some True by (simp add: run)
      next
        case False
        then obtain m where m: "bitu_conn_manager_remove (ae_backend E) (ap_connections app) uri = Some (m, STATUS_OK)"
          "cm_inv m" "lookup m = (lookup (ap_connections app))(uri := None)"
          using remove_run [OF inv t(1), of "ae_backend E"] r Some by (auto simp: rc_ok_def)
        then show ?thesis
          using tr_refines_delete [OF assms(1) m(2,3)] \<open>statuses app uri = Some s\<close> s Some False by (simp add: run)
      qed
    qed
  qed
qed

lemma tr_connect_step:
  assumes "known_app app" "tr_command (Tr_connect uri ok) (E, c)"
  shows "tr_refines app (exec_in (E, c) app) (tr_step (Tr_connect uri ok) (statuses app))"
proof -
  note inv = known_app_inv [OF assms(1)]
  have exec: "exec_in (E, c) app = cmd_transport E app [''connect'', uri] 2"
    using assms by (intro exec_transport) simp_all
  note run = exec transport_subcommands(3)
  show ?thesis
  proof (cases "statuses app uri")
    case None
    then have "bitu_conn_manager_run (ae_backend E) (ap_connections app) uri =
        Some (ap_connections app, STATUS_TRANSPORT_NOT_FOUND)"
      using statuses_None [OF assms(1)] inv by (simp add: bitu_conn_manager_run_def get_transport_eq lookup_None)
    then show ?thesis
      using tr_refines_same [OF assms(1)] None by (simp add: run with_connections_def connect_answer_def)
  next
    case (Some s)
    obtain b st where s: "s = (b, st)"
      by (cases s)
    obtain t where t: "lookup (ap_connections app) uri = Some t" "in_state b st t"
      using Some s statuses_SomeE by blast
    have c: "connects_as (bitu_conn_manager_run (ae_backend E) (ap_connections app) uri) (ap_connections app) uri b
        (connect_spec b st (ok b))"
      using connect_moves [OF inv t] assms(2) by simp
    show ?thesis
    proof (cases "connect_spec b st (ok b)")
      case None
      then show ?thesis
        using c Some s by (simp add: run tr_refines_def connects_as_def with_connections_def)
    next
      case spec: (Some r)
      then obtain st' spawned where r: "connect_spec b st (ok b) = Some (st', spawned)"
        by (cases r) simp
      then show ?thesis
        using c tr_refines_moves [OF assms(1), of _ uri b st' _ connect_answer] Some s
        by (cases spawned) (fastforce simp: run connects_as_def connect_answer_def)+
    qed
  qed
qed

lemma tr_disconnect_step:
  assumes "known_app app" "tr_command (Tr_disconnect uri) (E, c)"
  shows "tr_refines app (exec_in (E, c) app) (tr_step (Tr_disconnect uri) (statuses app))"
proof -
  note inv = known_app_inv [OF assms(1)]
  have exec: "exec_in (E, c) app = cmd_transport E app [''disconnect'', uri] 2"
    using assms by (intro exec_transport) simp_all
  note run = exec transport_subcommands(4)
  show ?thesis
  proof (cases "statuses app uri")
    case None
    then have "bitu_conn_manager_shutdown (ap_connections app) uri = Some (ap_connections app, STATUS_TRANSPORT_NOT_FOUND)"
      using statuses_None [OF assms(1)] shutdown_not_found [OF inv] by simp
    then show ?thesis
      using tr_refines_same [OF assms(1)] None by (simp add: run with_connections_def disconnect_answer_def)
  next
    case (Some s)
    obtain b st where s: "s = (b, st)"
      by (cases s)
    obtain t where t: "lookup (ap_connections app) uri = Some t" "in_state b st t"
      using Some s statuses_SomeE by blast
    note d = disconnect_moves [OF inv t]
    show ?thesis
    proof (cases "disconnect_spec b st")
      case None
      then show ?thesis
        using d Some s by (simp add: run tr_refines_def with_connections_def)
    next
      case spec: (Some r)
      then obtain st' stopped where r: "disconnect_spec b st = Some (st', stopped)"
        by (cases r) simp
      then show ?thesis
        using d tr_refines_moves [OF assms(1), of _ uri b st' _ disconnect_answer] Some s
        by (cases stopped) (fastforce simp: run disconnect_answer_def)+
    qed
  qed
qed

section \<open>Sequences of commands\<close>

lemma tr_command_step:
  assumes "known_app app" "card (dom (statuses app)) < ht_capacity" "tr_command op x"
  shows "tr_refines app (exec_in x app) (tr_step op (statuses app))"
proof -
  obtain E c where x: "x = (E, c)"
    by (cases x)
  show ?thesis
    using tr_add_step [OF assms(1,2), of _ _ E c] tr_remove_step [OF assms(1), of _ _ E c]
      tr_connect_step [OF assms(1), of _ _ E c] tr_disconnect_step [OF assms(1), of _ E c] assms(3)
    unfolding x by (cases op) blast+
qed

lemma some_update: "\<exists>x v. m = m(x := v)" "\<exists>x v. m(y := w) = m(x := v)"
  by (rule exI [of _ undefined], rule exI [of _ "m undefined"]) (simp, blast)

lemma tr_step_dom: "tr_step op m = Some (a, out) \<Longrightarrow> \<exists>uri v. a = m(uri := v)"
  by (cases op) (auto simp: bind_eq_Some_conv some_update split: option.splits if_splits)

interpretation tr_map: simulation tr_step exec_in tr_command statuses
  "\<lambda>app. known_app app \<and> only_connections app0 app" "\<lambda>m. card (dom m)" ht_capacity for app0
proof unfold_locales
  fix app op x a and out :: "string option"
  assume inv: "known_app app \<and> only_connections app0 app"
  assume st: "tr_step op (statuses app) = Some (a, out)"
  have "finite (dom (statuses app))"
    using inv dom_statuses [of app] ht.finite_law [OF cm_inv_wf [OF known_app_inv]] by simp
  then show "card (dom a) \<le> Suc (card (dom (statuses app)))"
    using tr_step_dom [OF st] card_dom_update by (auto simp del: dom_fun_upd)
  assume rel: "tr_command op x" and room: "card (dom (statuses app)) < ht_capacity"
  show "\<exists>app'. exec_in x app = Some (app', out) \<and> (known_app app' \<and> only_connections app0 app') \<and> statuses app' = a"
    using tr_command_step [OF _ room rel] inv st only_connections_trans by (fastforce simp: tr_refines_def)
next
  fix app op x
  assume "known_app app \<and> only_connections app0 app" "tr_command op x" "card (dom (statuses app)) < ht_capacity"
    "tr_step op (statuses app) = None"
  then show "exec_in x app = None"
    using tr_command_step [of app op x] by (simp add: tr_refines_def)
qed

section \<open>The list\<close>

definition status_line :: "(backend \<Rightarrow> bool) \<Rightarrow> bitu_app \<Rightarrow> string \<Rightarrow> string" where
  "status_line up app uri =
     (let running = (case statuses app uri of None \<Rightarrow> False | Some (b, st) \<Rightarrow> running_spec b st (up b) = Some True)
      in ''['' @ (if running then ''running'' else ''stopped'') @ ''] '' @
        (case lookup (ap_connections app) uri of None \<Rightarrow> [] | Some t \<Rightarrow> iri_text (tr_uri t)))"

lemma running_spec_None: "in_state b st t \<Longrightarrow> running_spec b st up = None \<longleftrightarrow> (b, st) = (Xmpp, Dead)"
  by (cases b; cases st) (simp_all add: in_state_simps)

lemma transport_line_run:
  assumes "known_app app" "ta_buf_ok (ae_buf E)" "\<forall>b. reports (ae_backend E) b (up b)" "uri \<in> dom (statuses app)"
  shows "transport_lines E (ap_connections app) (uri # uris) buf =
    (if statuses app uri = Some (Xmpp, Dead) then None
     else transport_lines E (ap_connections app) uris
       (buf @ status_line up app uri @ (if uris = [] then [] else [newline])))"
proof -
  have buf: "ae_buf E x y = x @ y" for x y
    using assms(2) by (simp add: ta_buf_ok_def)
  obtain b st where st: "statuses app uri = Some (b, st)"
    using assms(4) by auto
  obtain t where t: "lookup (ap_connections app) uri = Some t" "in_state b st t"
    using st by (rule statuses_SomeE)
  obtain a where a: "ht_map (cm_transports (ap_connections app)) uri = Some a" "cm_heap (ap_connections app) a = Some t"
    using known_app_inv [OF assms(1)] t(1) by (rule lookup_SomeE)
  note r = running_state [OF t(2) spec [OF assms(3)]]
  note step = get_transport_eq [OF known_app_inv [OF assms(1)]] a r
  show ?thesis
  proof (cases "running_spec b st (up b)")
    case None
    then have "(b, st) = (Xmpp, Dead)"
      using running_spec_None [OF t(2)] by blast
    then show ?thesis
      using None st by (simp add: step)
  next
    case (Some running)
    then have "(b, st) \<noteq> (Xmpp, Dead)"
      using running_spec_None [OF t(2), of "up b"] by auto
    then show ?thesis
      using Some st t(1) by (cases running) (auto simp: step buf status_line_def rc_ok_def Let_def)
  qed
qed

lemma transport_lines_run:
  assumes "known_app app" "ta_buf_ok (ae_buf E)" "\<forall>b. reports (ae_backend E) b (up b)" "set uris \<subseteq> dom (statuses app)"
  shows "transport_lines E (ap_connections app) uris buf =
    (if \<exists>uri \<in> set uris. statuses app uri = Some (Xmpp, Dead) then None
     else Some (buf @ join_lines (map (status_line up app) uris)))"
  using assms(4)
proof (induction uris arbitrary: buf)
  case (Cons uri uris)
  then have "transport_lines E (ap_connections app) (uri # uris) buf =
    (if statuses app uri = Some (Xmpp, Dead) \<or> (\<exists>uri \<in> set uris. statuses app uri = Some (Xmpp, Dead)) then None
     else Some (buf @ status_line up app uri @ (if uris = [] then [] else [newline]) @
       join_lines (map (status_line up app) uris)))"
    using transport_line_run [OF assms(1-3), of uri uris buf] Cons.IH by simp
  then show ?case
    by (cases uris) simp_all
qed simp

lemma transport_list_run:
  assumes "known_app app" "ta_buf_ok (ae_buf E)" "ta_list_ok (ae_list E)" "\<forall>b. reports (ae_backend E) b (up b)"
  shows "\<exists>uris. distinct uris \<and> set uris = dom (statuses app) \<and> cmd_transport E app [''list''] 1 =
    (if \<exists>uri. statuses app uri = Some (Xmpp, Dead) then None
     else Some (app, Some (join_lines (map (status_line up app) uris))))"
proof -
  let ?uris = "map fst (ht_entries (cm_transports (ap_connections app)))"
  note inv = known_app_inv [OF assms(1)]
  have u: "distinct ?uris" "set ?uris = dom (statuses app)"
    using uris_of_manager [OF inv] statuses_None [OF assms(1)] by (auto simp: dom_def simp del: not_None_eq)
  have "(\<exists>uri \<in> set ?uris. statuses app uri = Some (Xmpp, Dead)) \<longleftrightarrow> (\<exists>uri. statuses app uri = Some (Xmpp, Dead))"
    unfolding u(2) by blast
  then have "cmd_transport E app [''list''] 1 =
      (if \<exists>uri. statuses app uri = Some (Xmpp, Dead) then None
       else Some (app, Some (join_lines (map (status_line up app) ?uris))))"
    using transport_lines_run [OF assms(1,2,4), of ?uris "[]"] u(2)
    by (simp add: cmd_transport_def checked_def validate_min_num_params_def get_transports_run [OF assms(3) inv])
  then show ?thesis
    using u by blast
qed

section \<open>The property\<close>

text \<open>
  C11. The \<open>transport\<close> commands, in any sequence, on transports of all three backends whose URIs have the
  parts that their backends need, and with whatever the system and the
  libraries answer to an attempt to connect, as long as threads and IRC sessions can be created and a query for an XMPP service
  has at most one answer, implement a map from
  URIs to a backend and one of three states: they answer what the specification answers, leave the transports
  in the states it says and change nothing else of the application. The code has no defined result exactly
  where the specification has none: when a local or an XMPP transport that has been disconnected (or whose connection failed,
  or, for a local one, that was connected twice) is connected or disconnected again, so that its logger is read
  after it was freed; when such an XMPP transport is removed, since its freed client is asked whether it is connected;
  and when an IRC transport without a session is disconnected or fails to connect. Afterwards \<open>transport list\<close> shows every
  transport once, and \<open>running\<close> exactly for those that run, but it is undefined as long as an XMPP
  transport that has been disconnected is in the table.
\<close>
theorem transport_commands:
  assumes "known_app app" "card (dom (statuses app)) + length ops \<le> 1610612741" "list_all2 tr_command ops xs"
    and "ta_buf_ok (ae_buf E)" "ta_list_ok (ae_list E)" "\<forall>b. reports (ae_backend E) b (up b)"
  shows "case run_all tr_step ops (statuses app) of
      None \<Rightarrow> run_all exec_in xs app = None
    | Some (states, answers) \<Rightarrow> \<exists>app' uris. run_all exec_in xs app = Some (app', answers) \<and>
        known_app app' \<and> statuses app' = states \<and> only_connections app app' \<and>
        distinct uris \<and> set uris = dom states \<and> cmd_transport E app' [''list''] 1 =
          (if \<exists>uri. states uri = Some (Xmpp, Dead) then None
           else Some (app', Some (join_lines (map (status_line up app') uris))))"
proof (cases "run_all tr_step ops (statuses app)")
  case None
  then show ?thesis
    using tr_map.sim_undefined [OF assms(3), of app app] assms(1,2) only_connections_refl
    by (simp add: ht_capacity_def)
next
  case (Some r)
  obtain states answers where r: "r = (states, answers)"
    by (cases r)
  obtain app' where app': "run_all exec_in xs app = Some (app', answers)" "known_app app'" "only_connections app app'"
    "statuses app' = states"
    using tr_map.sim_defined [OF assms(3), of app app] Some r assms(1,2) only_connections_refl
    by (auto simp: ht_capacity_def)
  then show ?thesis
    using transport_list_run [OF app'(2) assms(4-6)] Some r by simp
qed

text \<open>The commands of the example, with the answers of the outside: a local and an IRC transport.\<close>

definition tr_example_env :: "bool \<Rightarrow> app_env" where
  "tr_example_env irc = (example_app_env (\<lambda>_. None))
     \<lparr>ae_parse := \<lambda>_. Some (example_iri (if irc then ''irc'' else ''file'')),
      ae_backend := example_env\<lparr>be_irc_connect := True, be_irc_connected := True\<rparr>\<rparr>"

lemma tr_example:
  "addresses (tr_example_env False) uri Local" "addresses (tr_example_env True) uri Irc"
  "\<forall>b. connects (ae_backend (tr_example_env irc)) b True" "\<forall>b. reports (ae_backend (tr_example_env irc)) b True"
  "ta_buf_ok (ae_buf (tr_example_env irc))" "ta_list_ok (ae_list (tr_example_env irc))"
  by (simp_all add: tr_example_env_def example_app_env_def addresses_def good_uri_def example_iri_def socket_ok_def
      example_env_def ta_buf_ok_def plain_list_ok connects_def reports_def split: backend.splits)

theorem transport_commands_witness:
  "\<exists>app app' uris. bitu_app_new = Some app \<and>
    run_all exec_in (map (\<lambda>(irc, ps). (tr_example_env irc, line_command ''transport'' ps))
      [(False, [''add'', ''u'']), (False, [''connect'', ''u'']), (True, [''add'', ''v'']), (True, [''connect'', ''v'']),
       (False, [''remove'', ''u'']), (False, [''disconnect'', ''u'']), (True, [''disconnect'', ''v''])]) app =
    Some (app', [None, None, None, None, Some ''You have to disconnect the transport before removing'', None, None]) \<and>
    statuses app' = [''u'' \<mapsto> (Local, Dead), ''v'' \<mapsto> (Irc, Ready)] \<and> distinct uris \<and> set uris = {''u'', ''v''} \<and>
    cmd_transport (tr_example_env True) app' [''list''] 1 =
      Some (app', Some (join_lines (map (status_line (\<lambda>_. True) app') uris)))"
proof -
  obtain app where app: "bitu_app_new = Some app" "app_inv app" "\<forall>uri. lookup (ap_connections app) uri = None"
    using app_new_run by blast
  then have l: "known_app app" and s: "statuses app = Map.empty"
    by (simp_all add: known_app_def statuses_def fun_eq_iff)
  let ?ops = "[Tr_add ''u'' Local, Tr_connect ''u'' (\<lambda>_. True), Tr_add ''v'' Irc, Tr_connect ''v'' (\<lambda>_. True),
    Tr_remove ''u'' (\<lambda>_. True), Tr_disconnect ''u'', Tr_disconnect ''v'']"
  let ?xs = "map (\<lambda>(irc, ps). (tr_example_env irc, line_command ''transport'' ps))
      [(False, [''add'', ''u'']), (False, [''connect'', ''u'']), (True, [''add'', ''v'']), (True, [''connect'', ''v'']),
       (False, [''remove'', ''u'']), (False, [''disconnect'', ''u'']), (True, [''disconnect'', ''v''])]"
  let ?states = "[''u'' \<mapsto> (Local, Dead), ''v'' \<mapsto> (Irc, Ready)]"
  let ?answers = "[None, None, None, None, Some ''You have to disconnect the transport before removing'', None, None]"
  have rel: "list_all2 tr_command ?ops ?xs"
    using tr_example by simp
  have run: "run_all tr_step ?ops (statuses app) = Some (?states, ?answers)"
    by (simp add: s fun_upd_twist)
  have bound: "card (dom (statuses app)) + length ?ops \<le> 1610612741"
    by (simp add: s)
  have list: "(\<exists>uri. ?states uri = Some (Xmpp, Dead)) = False" "dom ?states = {''u'', ''v''}"
    by auto
  have "\<exists>app' uris. run_all exec_in ?xs app = Some (app', ?answers) \<and> known_app app' \<and> statuses app' = ?states \<and>
      only_connections app app' \<and> distinct uris \<and> set uris = {''u'', ''v''} \<and>
      cmd_transport (tr_example_env True) app' [''list''] 1 =
        Some (app', Some (join_lines (map (status_line (\<lambda>_. True) app') uris)))"
    using transport_commands [where up = "\<lambda>_. True" and E = "tr_example_env True", OF l bound rel tr_example(5,6,4)]
    unfolding run option.case prod.case list if_False .
  then obtain app' uris where w: "run_all exec_in ?xs app = Some (app', ?answers)" "statuses app' = ?states"
    "distinct uris" "set uris = {''u'', ''v''}" "cmd_transport (tr_example_env True) app' [''list''] 1 =
      Some (app', Some (join_lines (map (status_line (\<lambda>_. True) app') uris)))"
    by (elim exE conjE) (rule that)
  show ?thesis
    by (intro exI [of _ app] exI [of _ app'] exI [of _ uris] conjI app(1) w)
qed

end
