(* ===== verification/Resources.thy ===== *)
theory Resources
  imports App_Props
begin

text \<open>
  What the application owns: every string that a \<open>set\<close> command stores and every library that a \<open>load\<close>
  command opens is released once, by a later command or by \<open>bitu_app_free\<close>, whatever commands of any
  kind are executed in between.
\<close>

section \<open>What a command hands over to the application\<close>

definition stored_by :: "bitu_command \<Rightarrow> (string \<times> string) list" where
  "stored_by c = (if command_name c = Some ''set'' \<and> command_nparams c = 2
     then [(command_params c ! 0, command_params c ! 1)] else [])"

definition opened_by :: "app_env \<Rightarrow> bitu_command \<Rightarrow> bitu_plugin list" where
  "opened_by E c = (if command_name c = Some ''load'' \<and> command_nparams c = 1
     then (case bitu_plugin_load (ae_dl E) (''lib'' @ command_params c ! 0 @ ''.so'') of None \<Rightarrow> [] | Some p \<Rightarrow> [p])
     else [])"

section \<open>The tables that own their entries\<close>

definition owns_all :: "('k, 'v) hashtable \<Rightarrow> bool" where
  "owns_all h \<longleftrightarrow> ht_wf h \<and> ht_free_key h \<and> ht_free_value h"

lemma owns_set:
  assumes "owns_all h" "card (dom (ht_map h)) < ht_capacity"
  shows "\<exists>h'. hashtable_set True True h k v = Some (h', 0) \<and> owns_all h' \<and>
    owned h' = (add_mset k (fst (owned h)), add_mset v (snd (owned h))) \<and>
    card (dom (ht_map h')) \<le> Suc (card (dom (ht_map h)))"
proof -
  have wf: "ht_wf h" and f: "ht_free_key h" "ht_free_value h"
    using assms(1) by (simp_all add: owns_all_def)
  have "ht_room h"
    using assms(2) ht_length_card [OF wf] by (simp add: ht_room_def ht_capacity_def)
  then obtain h' where h': "hashtable_set True True h k v = Some (h', 0)" "ht_wf h'"
    "ht_map h' = (ht_map h)(k \<mapsto> v)" "drops h k h'"
    using hashtable_set_map [OF wf] by blast
  moreover have "ht_free_key h'" "ht_free_value h'"
    using h'(4) f by (simp_all add: drops_def same_config_def)
  ultimately show ?thesis
    using owned_set [OF wf h'(2-4) f] card_dom_update [OF ht.finite_law [OF wf], of k "Some v"]
    by (simp add: owns_all_def del: dom_fun_upd)
qed

lemma owns_del:
  assumes "owns_all h"
  shows "\<exists>h' rc. hashtable_del h k = Some (h', rc) \<and> owns_all h' \<and> owned h' = owned h \<and>
    card (dom (ht_map h')) \<le> card (dom (ht_map h))"
proof -
  have wf: "ht_wf h" and f: "ht_free_key h" "ht_free_value h"
    using assms(1) by (simp_all add: owns_all_def)
  obtain h' rc where h': "hashtable_del h k = Some (h', rc)" "ht_wf h'"
    "ht_map h' = (ht_map h)(k := None)" "drops h k h'"
    using hashtable_del_map [OF wf, of k] by blast
  moreover have "ht_free_key h'" "ht_free_value h'"
    using h'(4) f by (simp_all add: drops_def same_config_def)
  moreover have "card (dom (ht_map h')) \<le> card (dom (ht_map h))"
    using ht.finite_law [OF wf] by (simp add: h'(3) card_Diff1_le)
  ultimately show ?thesis
    using owned_del [OF wf h'(2-4) f] by (auto simp: owns_all_def)
qed

lemma owns_destroy:
  assumes "owns_all h"
  shows "\<exists>ks vs. hashtable_destroy h = Some (ks, vs) \<and> (mset ks, mset vs) = owned h"
  using hashtable_destroy_run [of h] assms by (auto simp: owns_all_def owned_def)

section \<open>The number of transports\<close>

definition n_transports :: "conn_manager \<Rightarrow> nat" where
  "n_transports m = card (dom (ht_map (cm_transports m)))"

lemma n_transports_add:
  assumes "cm_inv m" "n_transports m < ht_capacity" "bitu_conn_manager_add parse m uri = Some (m', p)"
  shows "n_transports m' \<le> Suc (n_transports m)"
proof -
  note wf = cm_inv_wf [OF assms(1)]
  obtain h where h: "hashtable_set True True (cm_transports m) uri (cm_brk m) = Some (h, 0)"
    "ht_map h = (ht_map (cm_transports m))(uri \<mapsto> cm_brk m)"
    using ht.set_law [OF wf, of uri "cm_brk m"] assms(2) by (auto simp: n_transports_def)
  have "card (dom (ht_map h)) \<le> Suc (n_transports m)"
    using card_dom_update [OF ht.finite_law [OF wf]] by (simp add: h(2) n_transports_def del: dom_fun_upd)
  then show ?thesis
    using assms(3) h(1)
    by (auto simp: bitu_conn_manager_add_def Let_def n_transports_def split: bind_splits option.splits sum.splits)
qed

lemma n_transports_remove:
  assumes "cm_inv m" "bitu_conn_manager_remove env m uri = Some (m', st)"
  shows "n_transports m' \<le> n_transports m"
proof -
  note wf = cm_inv_wf [OF assms(1)]
  obtain h rc where h: "hashtable_del (cm_transports m) uri = Some (h, rc)"
    "ht_map h = (ht_map (cm_transports m))(uri := None)"
    using ht.del_law [OF wf, of uri] by auto
  have "card (dom (ht_map h)) \<le> n_transports m"
    using ht.finite_law [OF wf] by (simp add: h(2) n_transports_def card_Diff1_le)
  then show ?thesis
    using assms(2) h(1)
    by (auto simp: bitu_conn_manager_remove_def n_transports_def split: bind_splits option.splits if_splits)
qed

lemma n_transports_shutdown:
  "bitu_conn_manager_shutdown m uri = Some (m', st) \<Longrightarrow> cm_transports m' = cm_transports m"
  by (auto simp: bitu_conn_manager_shutdown_def Let_def split: bind_splits option.splits)

lemma n_transports_run:
  "bitu_conn_manager_run env m uri = Some (m', st) \<Longrightarrow> cm_transports m' = cm_transports m"
  by (auto simp: bitu_conn_manager_run_def Let_def split: bind_splits option.splits if_splits dest!: n_transports_shutdown)

lemma cmd_transport_tables:
  assumes "app_inv app" "n_transports (ap_connections app) < ht_capacity" "cmd_transport E app params n = Some (app', out)"
  shows "ap_environment app' = ap_environment app \<and> ap_plugin_ctx app' = ap_plugin_ctx app \<and>
    n_transports (ap_connections app') \<le> Suc (n_transports (ap_connections app))"
proof -
  note inv = app_invD(4) [OF assms(1)]
  note add = n_transports_add [OF inv assms(2)] and remove = n_transports_remove [OF inv]
  show ?thesis
    using assms(3) unfolding cmd_transport_def
    by (elim checkedE with_connectionsE bind_SomeE if_SomeE)
       (auto elim!: with_connectionsE dest!: n_transports_shutdown n_transports_run dest: add
         remove [THEN le_SucI] simp: n_transports_def)
qed

section \<open>One command\<close>

text \<open>The tables that own something, and the size that every command increases by at most one.\<close>

definition app_owns :: "bitu_app \<Rightarrow> bool" where
  "app_owns app \<longleftrightarrow> app_inv app \<and> owns_all (ap_environment app) \<and> owns_all (ap_plugin_ctx app)"

definition app_size :: "bitu_app \<Rightarrow> nat" where
  "app_size app = Max {card (dom (ht_map (ap_environment app))), card (dom (ht_map (ap_plugin_ctx app))),
     n_transports (ap_connections app)}"

definition hands_over :: "bitu_app \<Rightarrow> bitu_app \<Rightarrow> (string \<times> string) list \<Rightarrow> bitu_plugin list \<Rightarrow> bool" where
  "hands_over app app' strings plugins \<longleftrightarrow>
     owns_all (ap_environment app') \<and> owns_all (ap_plugin_ctx app') \<and>
     owned (ap_environment app') = (fst (owned (ap_environment app)) + mset (map fst strings),
       snd (owned (ap_environment app)) + mset (map snd strings)) \<and>
     snd (owned (ap_plugin_ctx app')) = snd (owned (ap_plugin_ctx app)) + mset plugins \<and>
     card (dom (ht_map (ap_environment app'))) \<le> Suc (card (dom (ht_map (ap_environment app)))) \<and>
     card (dom (ht_map (ap_plugin_ctx app'))) \<le> Suc (card (dom (ht_map (ap_plugin_ctx app)))) \<and>
     n_transports (ap_connections app') \<le> Suc (n_transports (ap_connections app))"

lemma hands_over_nothing:
  assumes "app_owns app" "ap_environment app' = ap_environment app" "ap_plugin_ctx app' = ap_plugin_ctx app"
    and "n_transports (ap_connections app') \<le> Suc (n_transports (ap_connections app))"
  shows "hands_over app app' [] []"
  using assms by (simp add: hands_over_def app_owns_def prod_eq_iff)

lemma app_size_room:
  assumes "app_size app < ht_capacity"
  shows "card (dom (ht_map (ap_environment app))) < ht_capacity" "card (dom (ht_map (ap_plugin_ctx app))) < ht_capacity"
    and "n_transports (ap_connections app) < ht_capacity" "app_room app"
  using assms by (simp_all add: app_size_def app_room_def cm_room_def n_transports_def)

lemma hands_over_set:
  assumes "app_owns app" "app_size app < ht_capacity" "cmd_set app params n = Some (app', out)"
  shows "hands_over app app' (if n = 2 then [(params ! 0, params ! 1)] else []) []"
proof (cases "n = 2")
  case True
  have o: "owns_all (ap_environment app)"
    using assms(1) by (simp add: app_owns_def)
  obtain h where h: "hashtable_set True True (ap_environment app) (params ! 0) (params ! 1) = Some (h, 0)" "owns_all h"
    "owned h = (add_mset (params ! 0) (fst (owned (ap_environment app))), add_mset (params ! 1) (snd (owned (ap_environment app))))"
    "card (dom (ht_map h)) \<le> Suc (card (dom (ht_map (ap_environment app))))"
    using owns_set [OF o app_size_room(1) [OF assms(2)]] by blast
  have "app' = app\<lparr>ap_environment := h\<rparr>"
    using assms(3) True h(1)
    by (auto simp: cmd_set_def checked_def validate_num_params_def nth_opt_eq_Some split: bind_splits)
  then show ?thesis
    using h True assms(1) by (simp add: hands_over_def app_owns_def)
next
  case False
  then have "app' = app"
    using assms(3) by (simp add: cmd_set_def checked_def validate_num_params_def)
  then show ?thesis
    using False hands_over_nothing [OF assms(1)] by simp
qed

lemma hands_over_unset:
  assumes "app_owns app" "cmd_unset app params n = Some (app', out)"
  shows "hands_over app app' [] []"
proof -
  have o: "owns_all (ap_environment app)"
    using assms(1) by (simp add: app_owns_def)
  obtain h rc where h: "hashtable_del (ap_environment app) (params ! 0) = Some (h, rc)" "owns_all h"
    "owned h = owned (ap_environment app)" "card (dom (ht_map h)) \<le> card (dom (ht_map (ap_environment app)))"
    using owns_del [OF o] by blast
  have "app' = app \<or> app' = app\<lparr>ap_environment := h\<rparr>"
    using assms(2) h(1) by (auto simp: cmd_unset_def nth_opt_eq_Some elim!: checkedE split: bind_splits)
  then show ?thesis
    using h assms(1) hands_over_nothing [OF assms(1), of app'] by (auto simp: hands_over_def app_owns_def)
qed

lemma hands_over_load:
  assumes "app_owns app" "app_size app < ht_capacity" "cmd_load E app params n = Some (app', out)"
  shows "hands_over app app' [] (if n = 1
     then (case bitu_plugin_load (ae_dl E) (''lib'' @ params ! 0 @ ''.so'') of None \<Rightarrow> [] | Some p \<Rightarrow> [p]) else [])"
proof (cases "n = 1")
  case True
  have o: "owns_all (ap_plugin_ctx app)"
    using assms(1) by (simp add: app_owns_def)
  show ?thesis
  proof (cases "bitu_plugin_load (ae_dl E) (''lib'' @ params ! 0 @ ''.so'')")
    case None
    then have "app' = app"
      using assms(3) True
      by (auto simp: cmd_load_def bitu_plugin_ctx_load_def libname_eq nth_opt_eq_Some elim!: checkedE split: bind_splits)
    then show ?thesis
      using None hands_over_nothing [OF assms(1)] by simp
  next
    case (Some p)
    obtain h where h: "hashtable_set True True (ap_plugin_ctx app) (bitu_plugin_name p) p = Some (h, 0)" "owns_all h"
      "owned h = (add_mset (bitu_plugin_name p) (fst (owned (ap_plugin_ctx app))), add_mset p (snd (owned (ap_plugin_ctx app))))"
      "card (dom (ht_map h)) \<le> Suc (card (dom (ht_map (ap_plugin_ctx app))))"
      using owns_set [OF o app_size_room(2) [OF assms(2)]] by blast
    have "app' = app\<lparr>ap_plugin_ctx := h\<rparr>"
      using assms(3) True h(1) Some
      by (auto simp: cmd_load_def bitu_plugin_ctx_load_def libname_eq nth_opt_eq_Some checked_def
          validate_num_params_def split: bind_splits)
    then show ?thesis
      using h True Some assms(1) by (simp add: hands_over_def app_owns_def prod_eq_iff)
  qed
next
  case False
  then have "app' = app"
    using assms(3) by (simp add: cmd_load_def checked_def validate_num_params_def)
  then show ?thesis
    using False hands_over_nothing [OF assms(1)] by simp
qed

lemma hands_over_unload:
  assumes "app_owns app" "cmd_unload app params n = Some (app', out)"
  shows "hands_over app app' [] []"
proof -
  have o: "owns_all (ap_plugin_ctx app)"
    using assms(1) by (simp add: app_owns_def)
  obtain h rc where h: "hashtable_del (ap_plugin_ctx app) (params ! 0) = Some (h, rc)" "owns_all h"
    "owned h = owned (ap_plugin_ctx app)" "card (dom (ht_map h)) \<le> card (dom (ht_map (ap_plugin_ctx app)))"
    using owns_del [OF o] by blast
  have "app' = app \<or> app' = app\<lparr>ap_plugin_ctx := h\<rparr>"
    using assms(2) h(1)
    by (auto simp: cmd_unload_def bitu_plugin_ctx_unload_def nth_opt_eq_Some elim!: checkedE
        split: bind_splits option.splits)
  then show ?thesis
    using h assms(1) hands_over_nothing [OF assms(1), of app'] by (auto simp: hands_over_def app_owns_def)
qed

text \<open>Every other command leaves both tables as they are.\<close>

lemma other_tables:
  assumes "app_owns app" "app_size app < ht_capacity" "run_builtin E f app params n = Some (app', out)"
    and "f \<notin> {Cmd_set, Cmd_unset, Cmd_load, Cmd_unload}"
  shows "hands_over app app' [] []"
proof (cases f)
  case Cmd_transport
  then show ?thesis
    using cmd_transport_tables [OF _ app_size_room(3) [OF assms(2)]] assms(1,3) hands_over_nothing [OF assms(1)]
    by (simp add: run_builtin_def app_owns_def)
next
  case Cmd_list
  then have "app' = app"
    using assms by (auto simp: run_builtin_def cmd_list_def elim!: checkedE
        split: bind_splits option.splits sum.splits if_splits)
  then show ?thesis
    using hands_over_nothing [OF assms(1)] by simp
next
  case Cmd_env
  then have "app' = app"
    using assms by (auto simp: run_builtin_def cmd_env_def elim!: checkedE split: bind_splits option.splits sum.splits)
  then show ?thesis
    using hands_over_nothing [OF assms(1)] by simp
qed (use assms in \<open>auto simp: run_builtin_def cmd_help_def cmd_send_def cmd_get_def cmd_set_log_file_def
       cmd_set_log_level_def cmd_set_log_use_colors_def Let_def elim!: checkedE split: bind_splits if_splits
       intro!: hands_over_nothing\<close>)

lemma builtin_of_name:
  "map_of builtins nm = Some Cmd_set \<longleftrightarrow> nm = ''set''" "map_of builtins nm = Some Cmd_load \<longleftrightarrow> nm = ''load''"
  by (auto simp: builtins_def)

lemma command_hands_over:
  assumes "app_owns app" "app_size app < ht_capacity" "bitu_app_exec_command E app c = Some (app', out, st)"
  shows "hands_over app app' (stored_by c) (opened_by E c)"
proof -
  have inv: "app_inv app"
    using assms(1) by (simp add: app_owns_def)
  obtain nm where nm: "command_name c = Some nm"
    using assms(3) by (auto simp: bitu_app_exec_command_def Let_def split: bind_splits)
  show ?thesis
  proof (cases "map_of builtins nm")
    case None
    then have "app' = app"
      using assms(3) nm inv
      by (auto simp: bitu_app_exec_command_def ht.get_law [OF app_invD(2)] app_invD(3) Let_def
          split: bind_splits option.splits)
    moreover have "nm \<noteq> ''set''" "nm \<noteq> ''load''"
      using None by (auto simp: builtins_def)
    ultimately show ?thesis
      using nm hands_over_nothing [OF assms(1)] by (simp add: stored_by_def opened_by_def)
  next
    case (Some f)
    have run: "run_builtin E f app (command_params c) (command_nparams c) = Some (app', out)"
      using assms(3) nm Some inv
      by (auto simp: bitu_app_exec_command_def ht.get_law [OF app_invD(2)] app_invD(3) split: bind_splits)
    have names: "nm = ''set'' \<longleftrightarrow> f = Cmd_set" "nm = ''load'' \<longleftrightarrow> f = Cmd_load"
      using Some builtin_of_name [of nm] by auto
    show ?thesis
      using run nm names hands_over_set [OF assms(1,2)] hands_over_unset [OF assms(1)] hands_over_load [OF assms(1,2)]
        hands_over_unload [OF assms(1)] other_tables [OF assms(1,2) run]
      by (cases f) (auto simp: run_builtin_def stored_by_def opened_by_def)
  qed
qed

section \<open>A whole life\<close>

lemma command_owns:
  assumes "app_owns app" "app_size app < ht_capacity" "exec_in x app = Some (app', out)"
  shows "app_owns app'" "app_size app' \<le> Suc (app_size app)"
    and "hands_over app app' (stored_by (snd x)) (opened_by (fst x) (snd x))"
proof -
  obtain st where run: "bitu_app_exec_command (fst x) app (snd x) = Some (app', out, st)"
    using assms(3) by (auto simp: exec_in_def exec_step_def split: bind_splits)
  show h: "hands_over app app' (stored_by (snd x)) (opened_by (fst x) (snd x))"
    by (rule command_hands_over [OF assms(1,2) run])
  have "app_inv app'"
    using exec_inv [OF _ app_size_room(4) [OF assms(2)] run] assms(1) by (simp add: app_owns_def)
  then show "app_owns app'"
    using h by (simp add: app_owns_def hands_over_def)
  show "app_size app' \<le> Suc (app_size app)"
    using h by (auto simp: app_size_def hands_over_def)
qed

lemma commands_own:
  assumes "app_owns app" "app_size app + length xs \<le> ht_capacity" "run_all exec_in xs app = Some (app', outs)"
  shows "app_owns app' \<and>
    owned (ap_environment app') =
      (fst (owned (ap_environment app)) + mset (map fst (concat (map (\<lambda>x. stored_by (snd x)) xs))),
       snd (owned (ap_environment app)) + mset (map snd (concat (map (\<lambda>x. stored_by (snd x)) xs)))) \<and>
    snd (owned (ap_plugin_ctx app')) =
      snd (owned (ap_plugin_ctx app)) + mset (concat (map (\<lambda>x. opened_by (fst x) (snd x)) xs))"
  using assms
proof (induction xs arbitrary: app outs)
  case (Cons x xs)
  obtain app1 out outs1 where step: "exec_in x app = Some (app1, out)" "run_all exec_in xs app1 = Some (app', outs1)"
    using Cons.prems(3) by (auto split: bind_splits)
  have room: "app_size app < ht_capacity"
    using Cons.prems(2) by simp
  note step1 = command_owns [OF Cons.prems(1) room step(1)]
  have "app_size app1 + length xs \<le> ht_capacity"
    using step1(2) Cons.prems(2) by simp
  from Cons.IH [OF step1(1) this step(2)] show ?case
    using step1(3) by (simp add: hands_over_def ac_simps)
qed (simp add: prod_eq_iff)

lemma app_new_owns:
  assumes "bitu_app_new = Some app"
  shows "app_owns app" "app_size app = 0" "owned (ap_environment app) = ({#}, {#})" "owned (ap_plugin_ctx app) = ({#}, {#})"
proof -
  have e: "owned (fresh_table hash_string True True :: (string, 'v) hashtable) = ({#}, {#})"
    "owns_all (fresh_table hash_string True True :: (string, 'v) hashtable)" for t :: 'v
    by (simp add: owned_def fresh_entries) (simp_all add: fresh_table_def owns_all_def fresh_wf [unfolded fresh_table_def])
  have t: "ap_environment app = fresh_table hash_string True True" "ap_plugin_ctx app = fresh_table hash_string True True"
    using assms by (auto simp: bitu_app_new_def bitu_plugin_ctx_new_def create_fresh string_equal_eq split: bind_splits)
  then show "owned (ap_environment app) = ({#}, {#})" "owned (ap_plugin_ctx app) = ({#}, {#})"
    by (simp_all only: e)
  obtain app1 where a: "bitu_app_new = Some app1" "app_inv app1" "\<forall>uri. lookup (ap_connections app1) uri = None"
    using app_new_run by blast
  have "app1 = app"
    using trans [OF a(1) [symmetric] assms] by (rule option.inject [THEN iffD1])
  then show "app_owns app"
    using a(2) t by (simp add: app_owns_def e)
  have "ht_map (cm_transports (ap_connections app)) = Map.empty"
    using a \<open>app1 = app\<close> lookup_None [OF app_invD(4)] by (auto simp: fun_eq_iff)
  then show "app_size app = 0"
    using t by (simp add: app_size_def fresh_map n_transports_def)
qed

text \<open>
  C13. Nothing that the application owns is lost or released twice: after any sequence of commands of any kind,
  from the start of the application and with whatever the outside answers, \<open>bitu_app_free\<close> has a
  defined result, and counted together with what the commands themselves have released, every name and
  every value that a \<open>set\<close> command stored has been freed once, and every library that a \<open>load\<close>
  command opened has been closed once.
\<close>
theorem application_releases_all:
  assumes "bitu_app_new = Some app" "length xs \<le> 1610612741" "run_all exec_in xs app = Some (app', outs)"
  shows "\<exists>r. bitu_app_free app' = Some r \<and>
    mset (rl_keys r) = mset (map fst (concat (map (\<lambda>x. stored_by (snd x)) xs))) \<and>
    mset (rl_values r) = mset (map snd (concat (map (\<lambda>x. stored_by (snd x)) xs))) \<and>
    mset (rl_plugins r) = mset (concat (map (\<lambda>x. opened_by (fst x) (snd x)) xs))"
proof -
  note new = app_new_owns [OF assms(1)]
  have all: "app_owns app'"
    "owned (ap_environment app') = (mset (map fst (concat (map (\<lambda>x. stored_by (snd x)) xs))),
       mset (map snd (concat (map (\<lambda>x. stored_by (snd x)) xs))))"
    "snd (owned (ap_plugin_ctx app')) = mset (concat (map (\<lambda>x. opened_by (fst x) (snd x)) xs))"
    using commands_own [OF new(1) _ assms(3)] assms(2) new(2-4) by (simp_all add: ht_capacity_def)
  obtain ks vs where e: "hashtable_destroy (ap_environment app') = Some (ks, vs)" "(mset ks, mset vs) = owned (ap_environment app')"
    using owns_destroy all(1) unfolding app_owns_def by blast
  obtain ns ps where p: "hashtable_destroy (ap_plugin_ctx app') = Some (ns, ps)" "(mset ns, mset ps) = owned (ap_plugin_ctx app')"
    using owns_destroy all(1) unfolding app_owns_def by blast
  obtain cs where c: "hashtable_destroy (ap_commands app') = Some cs"
    using hashtable_destroy_run [OF app_invD(2)] all(1) unfolding app_owns_def by blast
  have "mset ps = mset (concat (map (\<lambda>x. opened_by (fst x) (snd x)) xs))"
    using p(2) all(3) by (metis snd_conv)
  then show ?thesis
    using e c p(1) all(2) by (simp add: bitu_app_free_def bitu_plugin_ctx_free_def)
qed

text \<open>A library without functions of its own.\<close>

definition example_library :: dl_library where
  "example_library = \<lparr>dl_plugin_name = Some ''x'', dl_plugin_execute = Some (\<lambda>_. Some None), dl_plugin_match = None\<rparr>"

theorem application_releases_all_witness:
  "\<exists>app app' r. bitu_app_new = Some app \<and>
    run_all exec_in (map (\<lambda>c. (example_app_env (\<lambda>_. Some example_library), c))
      [line_command ''set'' [''a'', ''1''], line_command ''set'' [''a'', ''2'']]) app = Some (app', [None, None]) \<and>
    bitu_app_free app' = Some r \<and> mset (rl_keys r) = {#''a'', ''a''#} \<and> mset (rl_values r) = {#''1'', ''2''#} \<and>
    rl_plugins r = []"
proof -
  let ?E = "example_app_env (\<lambda>_. Some example_library)"
  let ?cs = "[line_command ''set'' [''a'', ''1''], line_command ''set'' [''a'', ''2'']]"
  let ?xs = "map (\<lambda>c. (?E, c)) ?cs"
  obtain app where app: "bitu_app_new = Some app" "app_inv app" "env_of app = Map.empty"
    using app_new_run by blast
  have "list_all2 env_command [Env_set ''a'' ''1'', Env_set ''a'' ''2''] ?cs"
    by simp
  from env_run [OF app(2) _ this, of ?E] obtain app' where "exec_all ?E app ?cs = Some (app', [None, None])"
    using app(3) by (auto simp: ht_capacity_def)
  then have run: "run_all exec_in ?xs app = Some (app', [None, None])"
    by (simp add: exec_all_run exec_in_def)
  have "length ?xs \<le> 1610612741"
    by simp
  from application_releases_all [OF app(1) this run] obtain r where "bitu_app_free app' = Some r"
    "mset (rl_keys r) = {#''a'', ''a''#}" "mset (rl_values r) = {#''1'', ''2''#}" "mset (rl_plugins r) = {#}"
    by (auto simp: stored_by_def opened_by_def line_command_def)
  then show ?thesis
    using app(1) run by (intro exI [of _ app] exI [of _ app'] exI [of _ r]) simp
qed

end
