(* ===== verification/Dialogue.thy ===== *)
theory Dialogue
  imports System
begin

text \<open>
  An interactive session: the loop of \<open>bituctl\<close> and the server, the queue, the consumer and the
  application behind it, line by line. The client waits for the answer before it reads the next
  line, so that there is one command at a time.
\<close>

section \<open>One line\<close>

text \<open>
  What happens between a line and its answer: how the socket cuts the line into pieces, what \<open>send\<close>
  returns to the server, and how the socket cuts the answer.
\<close>

record exchange =
  ex_line :: string
  ex_pieces :: "string list"
  ex_wire :: "send_result list"
  ex_answer :: "string list"

definition with_wire :: "app_env \<Rightarrow> send_result list \<Rightarrow> app_env" where
  "with_wire E rs = E\<lparr>ae_backend := (ae_backend E)\<lparr>be_wire := rs\<rparr>\<rparr>"

text \<open>
  The way of a line through the functions of the daemon: collected by the server, turned into a command by the
  transport \<open>a\<close>, taken from the queue, executed and answered; what the client's socket receives.
\<close>

definition serve_line ::
    "bitu_command option ta_list_api \<Rightarrow> app_env \<Rightarrow> nat \<Rightarrow> string \<Rightarrow> exchange \<Rightarrow> bitu_app \<Rightarrow> (bitu_app \<times> string) option" where
  "serve_line T E a cid x app = do {
     str \<leftarrow> recv_message (\<lambda>_. True) (ae_alloc E) (map piece (ex_pieces x) @ [Select_none]) None 0 0;
     require (\<not> says_goodbye str);
     s \<leftarrow> str;
     m \<leftarrow> message_received T (ae_alloc E) (ae_backend E) (ap_connections app) a cid (c_string s);
     let (q, c) = bitu_queue_pop T (cm_commands m);
     c \<leftarrow> c;
     (app, wire, _) \<leftarrow> exec_command (with_wire E (ex_wire x)) (app\<lparr>ap_connections := m\<lparr>cm_commands := q\<rparr>\<rparr>) c;
     wire \<leftarrow> wire;
     Some (app, wire) }"

fun serve_lines ::
    "bitu_command option ta_list_api \<Rightarrow> app_env \<Rightarrow> nat \<Rightarrow> string \<Rightarrow> exchange list \<Rightarrow> bitu_app \<Rightarrow>
     (bitu_app \<times> string list) option" where
  "serve_lines T E a cid [] app = Some (app, [])"
| "serve_lines T E a cid (x # xs) app = do {
     (app, wire) \<leftarrow> serve_line T E a cid x app;
     (app, wires) \<leftarrow> serve_lines T E a cid xs app;
     Some (app, wire # wires) }"

text \<open>The rounds of the client for these lines, ended by the end of its input.\<close>

definition client_rounds :: "exchange list \<Rightarrow> (string option \<times> bool \<times> select_result list) list" where
  "client_rounds xs = map (\<lambda>x. (Some (ex_line x), True, map piece (ex_answer x) @ [Select_none])) xs @ [(None, True, [])]"

section \<open>The client\<close>

text \<open>
  The text that the client prints for an answer: nothing for the single zero byte that stands for
  no answer.
\<close>

definition shown :: "string option \<Rightarrow> string" where
  "shown answer = (case answer of None \<Rightarrow> [] | Some v \<Rightarrow> v @ [newline])"

definition wire_of :: "string option \<Rightarrow> string" where
  "wire_of answer = (case answer of None \<Rightarrow> [NUL] | Some v \<Rightarrow> v)"

text \<open>An answer whose pieces the client can print.\<close>

definition printable :: "exchange \<Rightarrow> string option \<Rightarrow> bool" where
  "printable x answer \<longleftrightarrow> concat (ex_answer x) = wire_of answer \<and> (case answer of
       None \<Rightarrow> ex_answer x = [[NUL]]
     | Some v \<Rightarrow> ex_answer x \<noteq> [] \<and> (\<forall>d \<in> set (ex_answer x). 2 \<le> length d \<and> length d < 128 \<and> NUL \<notin> set d))"

lemma client_prints:
  assumes "printable x answer"
  shows "bitu_shell_recv (map piece (ex_answer x) @ [Select_none]) =
    Some (shown answer, case answer of None \<Rightarrow> 0 | Some v \<Rightarrow> length v)"
proof (cases answer)
  case None
  then show ?thesis
    using assms by (simp add: printable_def shown_def bitu_shell_recv_def shell_recv1_def piece_def)
next
  case (Some v)
  then have a: "concat (ex_answer x) = v" "ex_answer x \<noteq> []"
    "\<forall>d \<in> set (ex_answer x). 2 \<le> length d \<and> length d < 128 \<and> NUL \<notin> set d"
    using assms by (simp_all add: printable_def wire_of_def)
  show ?thesis
    using shell_recv_run [OF a(3,2)] a(1) Some by (simp add: shown_def piece_def [abs_def])
qed

lemma client_run:
  assumes "list_all2 printable xs answers" "\<forall>x \<in> set xs. ex_line x \<noteq> [] \<and> ex_line x \<noteq> ''exit''"
  shows "shell_loop (client_rounds xs) sent out history =
    Some (sent @ map ex_line xs @ [''exit''], out @ concat (map shown answers) @ [newline], history @ map ex_line xs)"
  using assms
proof (induction xs answers arbitrary: sent out history rule: list_all2_induct)
  case Nil
  show ?case
    by (simp add: client_rounds_def close_connection_def)
next
  case (Cons x xs answer answers)
  have "shell_loop (client_rounds (x # xs)) sent out history =
      shell_loop (client_rounds xs) (sent @ [ex_line x]) (out @ shown answer) (history @ [ex_line x])"
    using Cons.prems client_prints [OF Cons.hyps(1)] by (simp add: client_rounds_def)
  then show ?case
    using Cons.IH Cons.prems by simp
qed

section \<open>The daemon\<close>

text \<open>The line of an operation on the environment, as a user may type it.\<close>

fun op_words :: "env_op \<Rightarrow> string list" where
  "op_words (Env_set k v) = [''set'', k, v]"
| "op_words (Env_unset k) = [''unset'', k]"
| "op_words (Env_get k) = [''get'', k]"

definition typed :: "exchange \<Rightarrow> env_op \<Rightarrow> bool" where
  "typed x op \<longleftrightarrow> plain_start (strip (ex_line x)) \<and> tokens (strip (ex_line x)) = op_words op \<and>
     NUL \<notin> set (ex_line x) \<and> 2 \<le> length (ex_line x) \<and> ex_line x \<noteq> ''exit'' \<and> concat (ex_pieces x) = ex_line x \<and>
     (\<forall>d \<in> set (ex_pieces x). d \<noteq> [] \<and> length d < 128)"

lemma op_command: "tokens line = op_words op \<Longrightarrow> env_command op (parsed_command a cid line)"
  by (cases op) (simp_all add: is_command_def parsed_command_def)

text \<open>A running local transport with the client \<open>cid\<close> and an empty queue.\<close>

definition connected :: "nat \<Rightarrow> string \<Rightarrow> bitu_app \<Rightarrow> bool" where
  "connected a cid app \<longleftrightarrow> (\<exists>t server client. cm_heap (ap_connections app) a = Some t \<and> tr_callbacks t = all_of Local \<and>
     tr_logger t = Logger \<and> tr_data t = Some (Data_server server) \<and> ht_wf (sv_clients server) \<and>
     ht_map (sv_clients server) cid = Some client) \<and>
     q_list (cm_commands (ap_connections app)) = [] \<and> 0 < q_maxsize (cm_commands (ap_connections app))"

lemma connected_environment: "connected a cid app \<Longrightarrow> only_environment app app' \<Longrightarrow> connected a cid app'"
  by (auto simp: connected_def only_environment_def)

text \<open>The system takes the whole answer at once, perhaps after some calls that have to be repeated.\<close>

definition sends :: "exchange \<Rightarrow> string option \<Rightarrow> bool" where
  "sends x answer \<longleftrightarrow> (\<exists>k rs. ex_wire x = replicate k Send_again @ Sent (length (wire_of answer)) # rs)"

lemma exec_command_wire:
  assumes "bitu_app_exec_command (with_wire E (ex_wire x)) app c = Some (app', answer, st)" "command_transport c = Some a"
    and "command_from c = Some cid" "connected a cid app'" "sends x answer" "wire_of answer \<noteq> []"
  shows "exec_command (with_wire E (ex_wire x)) app c = Some (app', Some (wire_of answer), st)"
proof -
  obtain k rs where w: "ex_wire x = replicate k Send_again @ Sent (length (wire_of answer)) # rs"
    using assms(5) by (auto simp: sends_def)
  have "(case answer of None \<Rightarrow> [NUL] | Some m \<Rightarrow> m) = wire_of answer"
    by (simp add: wire_of_def)
  then show ?thesis
    using assms(1-4) send_whole [OF assms(6), of k rs]
    by (auto simp: connected_def exec_command_def bitu_transport_send_def local_send_def server_send_eq with_wire_def w)
qed

lemma serve_line_run:
  assumes "ta_list_ok T" "ae_alloc E = glibc_alloc" "app_inv app" "connected a cid app"
    and "card (dom (env_of app)) < ht_capacity" "typed x op"
    and "sends x (env_answer op (env_of app))" "printable x (env_answer op (env_of app))"
  shows "\<exists>app'. serve_line T E a cid x app = Some (app', wire_of (env_answer op (env_of app))) \<and> app_inv app' \<and>
    env_of app' = env_step op (env_of app) \<and> only_environment app app'"
proof -
  let ?line = "ex_line x" and ?c = "parsed_command a cid (strip (ex_line x))" and ?m = "ap_connections app"
  note typed = assms(6) [unfolded typed_def]
  obtain t where t: "cm_heap ?m a = Some t" "tr_logger t = Logger"
    and q: "q_list (cm_commands ?m) = []" "0 < q_maxsize (cm_commands ?m)"
    using assms(4) by (auto simp: connected_def)
  have tc: "tr_commands t = Manager_queue"
    by (rule cm_invD(7) [OF app_invD(4) [OF assms(3)] t(1)])
  have "ex_pieces x \<noteq> []"
    using typed by auto
  then have recv: "recv_message (\<lambda>_. True) glibc_alloc (map piece (ex_pieces x) @ [Select_none]) None 0 0 = Some (Some ?line)"
    using glibc.recv_message_pieces [of "ex_pieces x"] typed by simp
  have line: "c_string ?line = ?line"
    using typed by (intro c_string_id) simp
  let ?m1 = "?m\<lparr>cm_commands := (cm_commands ?m)\<lparr>q_list := [Some ?c]\<rparr>\<rparr>"
  have msg: "message_received T glibc_alloc (ae_backend E) ?m a cid ?line = Some ?m1"
    using message_received_run [OF assms(1) t(1) tc t(2), of ?line "ae_backend E" cid] typed q by simp
  have "ta_pop T ([] @ [Some ?c]) = ([], Some (Some ?c))"
    using assms(1) unfolding ta_list_ok_def by blast
  then have pop: "bitu_queue_pop T (cm_commands ?m1) = (cm_commands ?m, Some ?c)"
    using q(1) by (simp add: bitu_queue_pop_def)
  have "env_command op ?c"
    using typed by (intro op_command) simp
  from env_exec [OF assms(3,5) this, of "with_wire E (ex_wire x)"] obtain app' where app':
    "bitu_app_exec_command (with_wire E (ex_wire x)) app ?c = Some (app', env_answer op (env_of app), TA_OK)"
    "app_inv app'" "env_of app' = env_step op (env_of app)" "only_environment app app'"
    by blast
  have "wire_of (env_answer op (env_of app)) \<noteq> []"
    using assms(8) by (cases "ex_answer x") (auto simp: printable_def wire_of_def split: option.splits)
  then have "exec_command (with_wire E (ex_wire x)) app ?c = Some (app', Some (wire_of (env_answer op (env_of app))), TA_OK)"
    using app'(1) connected_environment [OF assms(4) app'(4)] assms(7)
    by (intro exec_command_wire) (simp_all add: parsed_command_def)
  then show ?thesis
    using app' recv msg pop typed line
    by (intro exI [of _ app']) (simp add: serve_line_def assms(2) says_goodbye_def)
qed

lemma serve_lines_run:
  assumes "ta_list_ok T" "ae_alloc E = glibc_alloc" "app_inv app" "connected a cid app"
    and "card (dom (env_of app)) + length ops \<le> ht_capacity" "list_all2 typed xs ops"
    and "list_all2 sends xs (env_answers ops (env_of app))" "list_all2 printable xs (env_answers ops (env_of app))"
  shows "\<exists>app'. serve_lines T E a cid xs app = Some (app', map wire_of (env_answers ops (env_of app))) \<and> app_inv app' \<and>
    env_of app' = fold env_step ops (env_of app) \<and> only_environment app app'"
  using assms(6,3,4,5,7,8)
proof (induction xs ops arbitrary: app rule: list_all2_induct)
  case Nil
  then show ?case
    using only_environment_refl by simp
next
  case (Cons x xs op ops)
  have "card (dom (env_of app)) < ht_capacity"
    using Cons.prems(3) by simp
  then obtain app1 where app1: "serve_line T E a cid x app = Some (app1, wire_of (env_answer op (env_of app)))" "app_inv app1"
    "env_of app1 = env_step op (env_of app)" "only_environment app app1"
    using serve_line_run [OF assms(1,2) Cons.prems(1,2) _ Cons.hyps(1)] Cons.prems(4,5) by auto
  have "finite (dom (env_of app))"
    using ht.finite_law [OF app_invD(1) [OF Cons.prems(1)]] by (simp add: env_of_def)
  then have "card (dom (env_of app1)) \<le> Suc (card (dom (env_of app)))"
    using card_dom_update unfolding app1(3) by (cases op) (auto simp del: dom_fun_upd)
  then have room: "card (dom (env_of app1)) + length ops \<le> ht_capacity"
    using Cons.prems(3) by simp
  obtain app' where "serve_lines T E a cid xs app1 = Some (app', map wire_of (env_answers ops (env_of app1)))" "app_inv app'"
    "env_of app' = fold env_step ops (env_of app1)" "only_environment app1 app'"
    using Cons.IH [OF app1(2) connected_environment [OF Cons.prems(2) app1(4)] room] Cons.prems(4,5) app1(3) by auto
  then show ?case
    using app1 only_environment_trans [OF app1(4)] by simp
qed

section \<open>The property\<close>

text \<open>
  C5. An interactive session with \<open>bituctl\<close>: a user who types lines that set, unset and get variables of the
  environment and then ends the input sees, after the banner, the value of every \<open>get\<close> that finds one on
  a line of its own and nothing else, as the map of the environment says, and leaves the
  environment as the operations on the map do; every line is sent to the daemon and then the good bye, which the
  server understands, and all lines are added to the history file. This holds however the socket cuts lines and
  answers, with pieces of less than 128 characters, and of two or more for an answer, on blocks of the GNU C library.
\<close>
theorem interactive_session:
  assumes "ta_list_ok T" "ae_alloc E = glibc_alloc" "app_inv app" "connected a cid app"
    and "card (dom (env_of app)) + length ops \<le> 1610612741" "list_all2 typed xs ops"
    and "list_all2 sends xs (env_answers ops (env_of app))" "list_all2 printable xs (env_answers ops (env_of app))"
    and "se_socket S" "se_connect S" "se_rounds S = client_rounds xs"
  shows "\<exists>app'. serve_lines T E a cid xs app = Some (app', map wire_of (env_answers ops (env_of app))) \<and>
    env_of app' = fold env_step ops (env_of app) \<and> only_environment app app' \<and>
    shell_main glibc_alloc S prname [] [] = Some (Shell_exit True (map ex_line xs @ [''exit''])
      (shell_banner (se_version S) @ concat (map shown (env_answers ops (env_of app))) @ [newline])
      (Some (get_history_file (se_home S), se_history S @ map ex_line xs))) \<and>
    says_goodbye (Some ''exit'')"
proof -
  have "\<forall>x \<in> set xs. ex_line x \<noteq> [] \<and> ex_line x \<noteq> ''exit''"
    using assms(6) by (induction xs ops rule: list_all2_induct) (auto simp: typed_def)
  note client = client_run [OF assms(8) this]
  have "says_goodbye (Some ''exit'')"
    by (simp add: says_goodbye_def c_string_def NUL_def)
  then show ?thesis
    using serve_lines_run [OF assms(1-4) _ assms(6-8)] assms(5,9-11) client
    by (auto simp: shell_main_def permuted_argv_def Let_def save_history_file_def ht_capacity_def)
qed

text \<open>An application with one client of a local transport.\<close>

lemma example_connected:
  obtains a app where "app_inv app" "connected a ''id'' app" "env_of app = Map.empty"
proof -
  obtain app0 where app0: "app_inv app0" "env_of app0 = Map.empty"
    using app_new_run by blast
  obtain tbl where tbl: "ht_wf tbl" "ht_map tbl = [''id'' \<mapsto> \<lparr>client_id = ''id'', client_socket = 5\<rparr>]"
    using one_client by metis
  let ?t = "(example_transport Local ''file'')\<lparr>tr_data := Some (Data_server (example_server tbl))\<rparr>"
  obtain m where m: "cm_inv m" "lookup m ''uri'' = Some (example_transport Local ''file'')" "cm_commands m = bitu_queue_new"
    by (rule example_manager [of Local "''file''"]) (simp, blast)
  obtain a where a: "ht_map (cm_transports m) ''uri'' = Some a"
    using m(1,2) by (rule lookup_SomeE)
  have tc: "tr_commands ?t = Manager_queue"
    by (simp add: example_transport_def)
  let ?app = "app0\<lparr>ap_connections := m\<lparr>cm_heap := (cm_heap m)(a \<mapsto> ?t)\<rparr>\<rparr>"
  show ?thesis
  proof (rule that [of ?app a])
    show "app_inv ?app"
      by (rule app_inv_connections [OF app0(1) cm_inv_update(1) [OF m(1) a tc]])
    show "connected a ''id'' ?app"
      using tbl by (simp add: connected_def example_transport_def example_server_def m(3) bitu_queue_new_def COMMAND_QUEUE_SIZE_def)
    show "env_of ?app = Map.empty"
      using app0(2) by (simp add: env_of_def)
  qed
qed

text \<open>Two lines and their way through the socket, in pieces.\<close>

definition example_exchanges :: "exchange list" where
  "example_exchanges =
     [\<lparr>ex_line = ''set name bitU'', ex_pieces = [''set name bitU''], ex_wire = [Sent 1], ex_answer = [[NUL]]\<rparr>,
      \<lparr>ex_line = '' get name'', ex_pieces = ['' get'', '' name''], ex_wire = [Send_again, Sent 4], ex_answer = [''bi'', ''tU'']\<rparr>]"

lemma example_exchanges:
  "list_all2 typed example_exchanges [Env_set ''name'' ''bitU'', Env_get ''name'']"
  "list_all2 sends example_exchanges [None, Some ''bitU'']"
  "list_all2 printable example_exchanges [None, Some ''bitU'']"
  "map ex_line example_exchanges = [''set name bitU'', '' get name'']"
proof -
  have st: "strip ''set name bitU'' = ''set name bitU''" "strip '' get name'' = ''get name''"
    "tokens ''set name bitU'' = [''set'', ''name'', ''bitU'']" "tokens ''get name'' = [''get'', ''name'']"
    by code_simp+
  show "list_all2 typed example_exchanges [Env_set ''name'' ''bitU'', Env_get ''name'']"
    by (simp add: example_exchanges_def typed_def st plain_start_def quote_def backslash_def blank_def NUL_def)
  have "\<exists>k rs. [Sent 1] = replicate k Send_again @ Sent (length (wire_of None)) # rs"
    by (rule exI [of _ 0]) (simp add: wire_of_def)
  moreover have "\<exists>k rs. [Send_again, Sent 4] = replicate k Send_again @ Sent (length (wire_of (Some ''bitU''))) # rs"
    by (rule exI [of _ 1]) (simp add: wire_of_def)
  ultimately show "list_all2 sends example_exchanges [None, Some ''bitU'']"
    by (simp only: example_exchanges_def sends_def list.rel_inject exchange.simps list.rel_intros simp_thms)
  show "list_all2 printable example_exchanges [None, Some ''bitU'']"
    by (simp add: example_exchanges_def printable_def wire_of_def NUL_def)
qed (simp add: example_exchanges_def)

theorem interactive_session_witness:
  "\<exists>E app app' a S. serve_lines plain_list_api E a ''id'' example_exchanges app = Some (app', [[NUL], ''bitU'']) \<and>
    env_of app' = [''name'' \<mapsto> ''bitU''] \<and>
    shell_main glibc_alloc S ''bituctl'' [] [] = Some (Shell_exit True [''set name bitU'', '' get name'', ''exit'']
      (shell_banner (se_version S) @ ''bitU'' @ [newline, newline])
      (Some (''~/.bituctlhistory'', [''set name bitU'', '' get name''])))"
proof -
  define E where "E = example_app_env (\<lambda>_. None)"
  define S where "S = \<lparr>se_socket = True, se_connect = True, se_send = True, se_answers = [],
     se_rounds = client_rounds example_exchanges, se_home = None, se_history = [], se_version = ''0.3'', se_bugreport = []\<rparr>"
  obtain a app where app: "app_inv app" "connected a ''id'' app" "env_of app = Map.empty"
    by (rule example_connected)
  let ?ops = "[Env_set ''name'' ''bitU'', Env_get ''name'']"
  have ans: "env_answers ?ops (env_of app) = [None, Some ''bitU'']"
    by (simp add: app(3))
  note x = example_exchanges(1) example_exchanges(2,3) [folded ans]
  have bound: "card (dom (env_of app)) + length ?ops \<le> 1610612741"
    by (simp add: app(3))
  have e: "ae_alloc E = glibc_alloc" "se_socket S" "se_connect S" "se_rounds S = client_rounds example_exchanges"
    "get_history_file (se_home S) = ''~/.bituctlhistory''" "se_history S = []"
    by (simp_all add: E_def S_def example_app_env_def get_history_file_def)
  have w: "map wire_of [None, Some ''bitU''] = [[NUL], ''bitU'']" "concat (map shown [None, Some ''bitU'']) = ''bitU'' @ [newline]"
    "fold env_step ?ops Map.empty = [''name'' \<mapsto> ''bitU'']"
    by (simp_all add: wire_of_def shown_def)
  have o: "[''set name bitU'', '' get name''] @ [''exit''] = [''set name bitU'', '' get name'', ''exit'']"
    "(''bitU'' @ [newline]) @ [newline] = ''bitU'' @ [newline, newline]"
    by simp_all
  from interactive_session [OF plain_list_ok e(1) app(1,2) bound x e(2-4), where prname = "''bituctl''"] show ?thesis
    unfolding ans
    unfolding w(1,2) app(3) w(3) e(5,6) example_exchanges(4) append_Nil o by blast
qed

end
