(* ===== verification/Shipped_Conf.thy ===== *)
theory Shipped_Conf
  imports Bitud_Props
begin

text \<open>
  \<open>bitud\<close> with the configuration file that comes with it, \<open>src/bitu.conf.dist\<close>: what its lines are as
  commands, and the state in which the program reaches its main loop.
\<close>

section \<open>The file\<close>

definition bitu_conf_dist :: "string list" where
  "bitu_conf_dist =
    [''# bitu server configuration file. All lines started with `#' are'',
     ''# ignored (as you can see =P)'',
     [],
     ''# Log stuff'',
     ''# ---------'',
     ''# Make sure you always declare the log stuff before anything else'',
     ''set-log-level DEBUG'',
     ''set-log-file /tmp/bitu.log'',
     ''set-log-use-colors true'',
     [],
     ''# Connection info'',
     ''# ---------------'',
     ''# This is the only part that you'll not be able to reconfigure while'',
     ''# the bot is running. You'll obviously need to restart it if you'',
     ''# change something in this section.'',
     ''transport add '' @ [quote] @ ''file:///tmp/bitu.sock'' @ [quote],
     ''# transport add '' @ [quote] @ ''xmpp://alfred:<password>@comum.org'' @ [quote],
     ''# transport add '' @ [quote] @ ''irc://alfredBitU@irc.freenode.net##bleh'' @ [quote],
     ''pid-file /tmp/bitu.pid'',
     [],
     ''# Plugin secton'',
     ''# -------------'',
     ''# holds names of libraries that should be loaded at the start of the'',
     ''# program.'',
     ''# load cpuinfo'',
     ''# load uptime'']"

definition shipped_uri :: string where
  "shipped_uri = ''file:///tmp/bitu.sock''"

lemma shipped_commands:
  "commands_of glibc_alloc bitu_conf_dist = Some
    [\<lparr>command_transport = None, command_from = None, command_cmd = ''set-log-level DEBUG'',
       command_name = Some ''set-log-level'', command_params = [''DEBUG''], command_nparams = 1\<rparr>,
     \<lparr>command_transport = None, command_from = None, command_cmd = ''set-log-file /tmp/bitu.log'',
       command_name = Some ''set-log-file'', command_params = [''/tmp/bitu.log''], command_nparams = 1\<rparr>,
     \<lparr>command_transport = None, command_from = None, command_cmd = ''set-log-use-colors true'',
       command_name = Some ''set-log-use-colors'', command_params = [''true''], command_nparams = 1\<rparr>,
     \<lparr>command_transport = None, command_from = None, command_cmd = ''transport add '' @ [quote] @ shipped_uri @ [quote],
       command_name = Some ''transport'', command_params = [''add'', shipped_uri], command_nparams = 2\<rparr>,
     \<lparr>command_transport = None, command_from = None, command_cmd = ''pid-file /tmp/bitu.pid'',
       command_name = Some ''pid-file'', command_params = [''/tmp/bitu.pid''], command_nparams = 1\<rparr>]"
  by code_simp

lemma shipped_fits: "\<forall>line \<in> set bitu_conf_dist. fits line"
  by code_simp

section \<open>The commands\<close>

lemma no_transports:
  assumes "app_inv app" "\<forall>uri. lookup (ap_connections app) uri = None" "ta_list_ok T"
  shows "bitu_conn_manager_get_transports T (ap_connections app) = Some []"
  using get_transports_run [OF assms(3) app_invD(4) [OF assms(1)]] uris_of_manager(2) [OF app_invD(4) [OF assms(1)]] assms(2)
  by (simp add: dom_def)

text \<open>The three commands that set up the log, before there is a transport.\<close>

lemma log_commands_run:
  assumes "app_inv app" "\<forall>uri. lookup (ap_connections app) uri = None" "ta_list_ok (ae_list E)" "ae_open E file \<noteq> -1"
    and "is_command ''set-log-level'' [''DEBUG''] c1" "is_command ''set-log-file'' [file] c2"
    and "is_command ''set-log-use-colors'' [''true''] c3"
  shows "exec_all E app [c1, c2, c3] = Some (app\<lparr>ap_level := Some LOG_DEBUG, ap_logfile := Some file, ap_logfd := ae_open E file,
    ap_colors := Some True\<rparr>, [None, None, None])"
proof -
  let ?a1 = "app\<lparr>ap_level := Some LOG_DEBUG\<rparr>" and ?a2 = "app\<lparr>ap_level := Some LOG_DEBUG, ap_logfile := Some file, ap_logfd := ae_open E file\<rparr>"
  have inv: "app_inv ?a1" "app_inv ?a2"
    using assms(1) by (simp_all add: app_inv_def)
  have b: "map_of builtins ''set-log-level'' = Some Cmd_set_log_level" "map_of builtins ''set-log-file'' = Some Cmd_set_log_file"
    "map_of builtins ''set-log-use-colors'' = Some Cmd_set_log_use_colors"
    by (simp_all add: builtins_def)
  have "bitu_app_exec_command E app c1 = Some (?a1, None, TA_OK)"
    using no_transports [OF assms(1-3)]
    by (simp add: exec_builtin [OF assms(1,5) b(1)] run_builtin_def cmd_set_log_level_def checked_def
        validate_min_num_params_def log_level_of_def)
  moreover have "bitu_app_exec_command E ?a1 c2 = Some (?a2, None, TA_OK)"
    using assms(4) by (simp add: exec_builtin [OF inv(1) assms(6) b(2)] run_builtin_def cmd_set_log_file_def checked_def
        validate_num_params_def)
  moreover have "bitu_app_exec_command E ?a2 c3 = Some (?a2\<lparr>ap_colors := Some True\<rparr>, None, TA_OK)"
    using no_transports [OF inv(2) _ assms(3)] assms(2)
    by (simp add: exec_builtin [OF inv(2) assms(7) b(3)] run_builtin_def cmd_set_log_use_colors_def checked_def
        validate_num_params_def)
  ultimately show ?thesis
    by simp
qed

text \<open>
  C20. \<open>bitud\<close> in the foreground with the configuration file that comes with it, on a system where the log file can be
  opened, the socket bound and the threads created: the program reaches its main loop with the log at level DEBUG, in colors and
  in \<open>/tmp/bitu.log\<close>, to whose end every message goes as a line, with one transport, the local one of the file, running in its thread, with one consumer of
  the queue, and with the file for the process id written.
\<close>
theorem shipped_configuration:
  assumes "main_options opts None None False = Options_go (Some pattern) None False" "me_sigaction E"
    and "fw_glob (me_files E) pattern = Some [f]"
    and "fw_content (me_files E) f = Some (concat (map (\<lambda>l. l @ [newline]) bitu_conf_dist))"
    and "ae_alloc (me_app E) = glibc_alloc" "ta_list_ok (ae_list (me_app E))" "ta_list_ok (me_list E)"
    and "ae_parse (me_app E) shipped_uri = Some iri" "file_iri iri path" "socket_ok (me_transports E shipped_uri)"
    and "0 \<le> ae_open (me_app E) ''/tmp/bitu.log''" "threads_start (me_app E) (me_transports E)"
  shows "\<exists>app t. bitud_main E opts = Some (Main_sleeps app (save_pid (me_stat E) (me_open E) (me_old E) (me_pid E))) \<and>
    ap_level app = Some LOG_DEBUG \<and> ap_colors app = Some True \<and> ap_logfile app = Some ''/tmp/bitu.log'' \<and>
    (\<forall>files msg. let fd = ae_open (me_app E) ''/tmp/bitu.log'' in
       log_handler app files msg = files(fd := files fd @ msg @ [newline])) \<and>
    dom (lookup (ap_connections app)) = {shipped_uri} \<and> lookup (ap_connections app) shipped_uri = Some t \<and>
    bitu_transport_is_running env t = Some (Ta TA_OK) \<and>
    length (cm_threads (ap_connections app)) = 1 \<and> cm_consumers (ap_connections app) = 1"
proof -
  obtain c1 c2 c3 c4 c5 where cs: "commands_of glibc_alloc bitu_conf_dist = Some [c1, c2, c3, c4, c5]"
    "is_command ''set-log-level'' [''DEBUG''] c1" "is_command ''set-log-file'' [''/tmp/bitu.log''] c2"
    "is_command ''set-log-use-colors'' [''true''] c3" "is_command ''transport'' [''add'', shipped_uri] c4"
    "is_command ''pid-file'' [''/tmp/bitu.pid''] c5"
    unfolding shipped_commands by (simp add: is_command_def)
  have "file_lines (me_files E) f bitu_conf_dist"
    using shipped_fits assms(4) by (simp add: file_lines_def)
  then have rd: "read_globbed glibc_alloc (me_list E) (me_files E) [f] [] = Some (Some [c1, c2, c3, c4, c5])"
    by (rule read_lines [OF _ cs(1) _ assms(7)]) simp
  have T: "ta_append (me_list E) xs x = xs @ [x]" for xs x
    using assms(7) by (simp add: ta_list_ok_def)
  have "sort_commands (me_list E) [c1, c2, c3, c4, c5] None None [] = Some (None, Some ''/tmp/bitu.pid'', [c1, c2, c3, c4])"
    using cs(2-6) by (simp add: is_command_def T)
  then have conf: "config_loop glibc_alloc (me_list E) (me_files E) (Some pattern) None [] [] =
      Some (Config (Some ''/tmp/bitu.pid'') [c1, c2, c3, c4])"
    using config_round [OF assms(3) rd] config_end by simp
  obtain app0 where app0: "bitu_app_new = Some app0" "app_inv app0" "app_room app0"
    "\<forall>uri. lookup (ap_connections app0) uri = None" "cm_consumers (ap_connections app0) = 0"
    "cm_threads (ap_connections app0) = []"
    using app_new_run by blast
  let ?app1 = "app0\<lparr>ap_level := Some LOG_DEBUG, ap_logfile := Some ''/tmp/bitu.log'',
    ap_logfd := ae_open (me_app E) ''/tmp/bitu.log'', ap_colors := Some True\<rparr>"
  have fd: "ae_open (me_app E) ''/tmp/bitu.log'' \<noteq> -1"
    using assms(11) by simp
  note log = log_commands_run [OF app0(2,4) assms(6) fd cs(2-4)]
  have inv1: "app_inv ?app1" "app_room ?app1" "\<forall>uri. lookup (ap_connections ?app1) uri = None"
    using app0(2-4) by (simp_all add: app_inv_def app_room_def)
  obtain app2 m where app2: "bitu_app_exec_command (me_app E) ?app1 c4 = Some (app2, None, TA_OK)" "app_inv app2"
    "dom (lookup (ap_connections app2)) = {shipped_uri}" "startable (ap_connections app2) shipped_uri"
    "cm_threads (ap_connections app2) = []" "cm_consumers (ap_connections app2) = 0"
    "app2 = ?app1\<lparr>ap_connections := m\<rparr>"
    using exec_add [OF inv1 cs(5) assms(8,9)] app0(5,6) by auto
  have "exec_all (me_app E) app0 ([c1, c2, c3] @ [c4]) = Some (app2, [None, None, None, None])"
    using log app2(1) by (auto split: bind_splits)
  then have load: "bitu_app_load_config (me_app E) app0 [c1, c2, c3, c4] = Some app2"
    by (simp add: load_config_eq)
  have up: "{u \<in> dom (lookup (ap_connections app2)). socket_ok (me_transports E u)} = {shipped_uri}"
    using app2(3) assms(10) by auto
  have st: "\<forall>u \<in> dom (lookup (ap_connections app2)). startable (ap_connections app2) u"
    using app2(3,4) by simp
  obtain app3 where app3: "bitu_app_run_transports (me_app E) (me_transports E) app2 = Some (app3, TA_OK)"
    "dom (lookup (ap_connections app3)) = {shipped_uri}"
    "\<And>t. lookup (ap_connections app3) shipped_uri = Some t \<Longrightarrow> bitu_transport_is_running env t = Some (Ta TA_OK)"
    "length (cm_threads (ap_connections app3)) = 1" "cm_consumers (ap_connections app3) = 1"
    using run_transports_run [OF app2(2) assms(6,12) st, of env] app2(3,5,6) unfolding up Let_def by auto
  obtain t where t: "lookup (ap_connections app3) shipped_uri = Some t"
    using app3(2) by blast
  have ap3: "ap_level app3 = Some LOG_DEBUG" "ap_colors app3 = Some True" "ap_logfile app3 = Some ''/tmp/bitu.log''"
    "ap_logfd app3 = ae_open (me_app E) ''/tmp/bitu.log''"
    using app3(1) app2(7) by (auto simp: bitu_app_run_transports_def split: bind_splits if_splits)
  moreover have "log_handler app3 files msg = files(ap_logfd app3 := files (ap_logfd app3) @ msg @ [newline])" for files msg
    using assms(11) by (simp add: log_handler_def ap3(4) Let_def)
  moreover have "bitud_main E opts = Some (Main_sleeps app3 (save_pid (me_stat E) (me_open E) (me_old E) (me_pid E)))"
    using assms(1,2,5) conf load by (simp add: bitud_main_def setup_sigaction_def Let_def app0(1) app3(1))
  ultimately show ?thesis
    using app3 t by (intro exI [of _ app3] exI [of _ t]) (simp add: ap3(4) Let_def)
qed

theorem shipped_configuration_witness:
  "\<exists>E app. bitud_main E [Main_config ''bitu.conf''] = Some (Main_sleeps app (Some ''12345'')) \<and>
    ap_level app = Some LOG_DEBUG \<and> dom (lookup (ap_connections app)) = {''file:///tmp/bitu.sock''} \<and>
    cm_consumers (ap_connections app) = 1"
proof -
  define A where "A = (example_app_env (\<lambda>_. None))\<lparr>ae_parse := \<lambda>_. Some (example_iri ''file''), ae_open := \<lambda>_. 5\<rparr>"
  define W where "W = \<lparr>fw_glob = \<lambda>p. Some [p], fw_content = \<lambda>_. Some (concat (map (\<lambda>l. l @ [newline]) bitu_conf_dist))\<rparr>"
  define E where "E = \<lparr>me_files = W, me_list = plain_list_api, me_app = A, me_transports = \<lambda>_. example_env,
      me_daemon = True, me_stat = Stat_ok, me_open = True, me_access = False, me_old = ''99945'', me_pid = 123,
      me_sigaction = True, me_prname = ''bitud'', me_version = ''0.3'', me_bugreport = []\<rparr>"
  have o: "main_options [Main_config ''bitu.conf''] None None False = Options_go (Some ''bitu.conf'') None False"
    by simp
  have h: "me_sigaction E" "fw_glob (me_files E) ''bitu.conf'' = Some [''bitu.conf'']"
    "fw_content (me_files E) ''bitu.conf'' = Some (concat (map (\<lambda>l. l @ [newline]) bitu_conf_dist))"
    "ae_alloc (me_app E) = glibc_alloc" "ta_list_ok (ae_list (me_app E))" "ta_list_ok (me_list E)"
    "ae_parse (me_app E) shipped_uri = Some (example_iri ''file'')" "file_iri (example_iri ''file'') ''/tmp/s''"
    "socket_ok (me_transports E shipped_uri)" "0 \<le> ae_open (me_app E) ''/tmp/bitu.log''"
    "threads_start (me_app E) (me_transports E)"
    by (simp_all add: threads_start_def E_def A_def W_def example_app_env_def plain_list_ok example_iri_def file_iri_def socket_ok_def example_env_def)
  have p: "save_pid (me_stat E) (me_open E) (me_old E) (me_pid E) = Some ''12345''"
    unfolding E_def by code_simp
  obtain app where "bitud_main E [Main_config ''bitu.conf''] = Some (Main_sleeps app (Some ''12345''))"
    "ap_level app = Some LOG_DEBUG" "dom (lookup (ap_connections app)) = {shipped_uri}" "cm_consumers (ap_connections app) = 1"
    using shipped_configuration [OF o h, of example_env] unfolding p by (elim exE conjE)
  then show ?thesis
    unfolding shipped_uri_def by (intro exI conjI)
qed

end
