(* ===== verification/Plugins.thy ===== *)
theory Plugins
  imports Conf App Transport_Correct
begin

text \<open>
  The plugins of the repository: \<open>plugins/cpuinfo\<close>, \<open>plugins/hello\<close> and \<open>plugins/uptime\<close>. Each is
  the function \<open>plugin_execute\<close>, here under the plugin's name, with what it calls. The files
  and pipes they read, regular expressions and floating point numbers are arguments.
\<close>

section \<open>\<open>cpuinfo\<close>\<close>

text \<open>
  The fields that have not been set since \<open>malloc\<close> are \<open>None\<close>. The clock is kept as the text that
  \<open>atof\<close> reads.
\<close>

record cpuinfo =
  ci_number :: int
  ci_vendor_id :: "string option"
  ci_model :: "string option"
  ci_clock :: "string option"
  ci_cache_size :: "int option"

text \<open>\<open>strtok\<close> with one delimiter: the token, and the rest for the next call.\<close>

definition strtok :: "char \<Rightarrow> string \<Rightarrow> string option \<times> string" where
  "strtok d s = (let s = dropWhile (\<lambda>c. c = d) s in
     if s = [] then (None, []) else (Some (takeWhile (\<lambda>c. c \<noteq> d) s), tl (dropWhile (\<lambda>c. c \<noteq> d) s)))"

definition digit :: "char \<Rightarrow> bool" where
  "digit c \<longleftrightarrow> (48::nat) \<le> of_char c \<and> of_char c \<le> (57::nat)"

definition digits_value :: "string \<Rightarrow> int" where
  "digits_value ds = foldl (\<lambda>n c. 10 * n + (of_char c - 48)) 0 ds"

text \<open>\<open>atoi\<close> is undefined when the value does not fit.\<close>

definition atoi :: "string \<Rightarrow> int option" where
  "atoi s = (
     let s = dropWhile isspace s;
         (neg, s) = (case s of [] \<Rightarrow> (False, []) | c # cs \<Rightarrow>
            if c = CHR 0x2D then (True, cs) else if c = CHR 0x2B then (False, cs) else (False, c # cs));
         n = digits_value (takeWhile digit s);
         n = (if neg then - n else n) in
     do {
       require (- (2 ^ 31) \<le> n \<and> n < 2 ^ 31);
       Some n })"

text \<open>
  The fields of a line are stored in the structure of the last processor. The pointer to it is
  declared inside of the loop: only if the variable \<open>keeps\<close> its value from one round to the next,
  which no standard promises, is there anything to store to.
\<close>

definition store_field :: "bool \<Rightarrow> (cpuinfo \<Rightarrow> cpuinfo) \<Rightarrow> cpuinfo list \<Rightarrow> cpuinfo list option" where
  "store_field keeps f cpus = do {
     require (keeps \<and> cpus \<noteq> []);
     Some (butlast cpus @ [f (last cpus)]) }"

definition cpuinfo_line :: "bool \<Rightarrow> string \<Rightarrow> cpuinfo list \<Rightarrow> cpuinfo list option" where
  "cpuinfo_line keeps line cpus = (
     let (key, rest) = strtok (CHR 0x3A) line;
         (val, _) = strtok newline rest in
     case key of None \<Rightarrow> Some cpus
     | Some key \<Rightarrow> do {
         skey \<leftarrow> bitu_util_strstrip key;
         if skey = ''processor'' then do {
           v \<leftarrow> val; v \<leftarrow> bitu_util_strstrip v; n \<leftarrow> atoi v;
           Some (cpus @ [\<lparr>ci_number = n, ci_vendor_id = None, ci_model = None, ci_clock = None, ci_cache_size = None\<rparr>]) }
         else if skey = ''vendor_id'' then do {
           v \<leftarrow> val; v \<leftarrow> bitu_util_strstrip v;
           store_field keeps (\<lambda>c. c\<lparr>ci_vendor_id := Some v\<rparr>) cpus }
         else if skey = ''model name'' then do {
           v \<leftarrow> val; v \<leftarrow> bitu_util_strstrip v;
           store_field keeps (\<lambda>c. c\<lparr>ci_model := Some v\<rparr>) cpus }
         else if skey = ''cpu MHz'' then do {
           v \<leftarrow> val; v \<leftarrow> bitu_util_strstrip v;
           store_field keeps (\<lambda>c. c\<lparr>ci_clock := Some v\<rparr>) cpus }
         else if skey = ''cache size'' then do {
           v \<leftarrow> val; v \<leftarrow> bitu_util_strstrip v; n \<leftarrow> atoi v;
           store_field keeps (\<lambda>c. c\<lparr>ci_cache_size := Some n\<rparr>) cpus }
         else Some cpus })"

function cpuinfo_loop :: "bool \<Rightarrow> string \<Rightarrow> cpuinfo list \<Rightarrow> cpuinfo list option" where
  "cpuinfo_loop keeps content cpus =
     (if content = [] then Some cpus
      else (let (buf, rest) = fgets (LINE_LEN_MAX - 1) content in do {
        cpus \<leftarrow> cpuinfo_line keeps (c_string buf) cpus;
        cpuinfo_loop keeps rest cpus }))"
  by pat_completeness auto
termination
proof (relation "measure (\<lambda>(keeps, content, cpus). length content)")
  fix keeps content cpus x and buf :: string and rest c
  assume "content \<noteq> []" "x = fgets (LINE_LEN_MAX - 1) content" "(buf, rest) = x"
  then have "length rest < length content"
    using fgets_shorter [of 253 content buf rest] by (simp add: LINE_LEN_MAX_def)
  then show "((keeps, rest, c), keeps, content, cpus) \<in> measure (\<lambda>(keeps, content, cpus). length content)"
    by simp
qed simp

declare cpuinfo_loop.simps [simp del]

text \<open>
  The text of one processor; \<open>show_clock\<close> is what \<open>%f\<close> prints for the number \<open>atof\<close> reads. The loop
  around \<open>snprintf\<close> makes the block larger once when the text does not fit into 100 bytes.
\<close>

definition cpuinfo_format :: "(string \<Rightarrow> string) \<Rightarrow> cpuinfo \<Rightarrow> string option" where
  "cpuinfo_format show_clock c = do {
     vendor \<leftarrow> ci_vendor_id c; model \<leftarrow> ci_model c; clock \<leftarrow> ci_clock c; cache \<leftarrow> ci_cache_size c;
     Some (''Cpuinfo '' @ show_int (ci_number c) @ [newline] @
           ''Vendor ID: '' @ vendor @ [newline] @
           ''Model: '' @ model @ [newline] @
           ''Clock: '' @ show_clock clock @ [newline] @
           ''Cache size: '' @ show_int cache @ [newline, newline]) }"

definition sized_snprintf :: "string \<Rightarrow> string" where
  "sized_snprintf s = (if length s < 100 then snprintf 100 s else snprintf (length s + 1) s)"

fun cpuinfo_concat :: "(string \<Rightarrow> string) \<Rightarrow> cpuinfo list \<Rightarrow> string option \<Rightarrow> string option option" where
  "cpuinfo_concat show_clock [] ret = Some ret"
| "cpuinfo_concat show_clock (c # cpus) ret = do {
     s \<leftarrow> cpuinfo_format show_clock c;
     let proc = sized_snprintf s;
     cpuinfo_concat show_clock cpus (Some (case ret of None \<Rightarrow> proc | Some r \<Rightarrow> r @ proc)) }"

text \<open>The argument is the content of \<open>/proc/cpuinfo\<close>; the result is NULL or the answer.\<close>

definition cpuinfo_execute :: "bool \<Rightarrow> (string \<Rightarrow> string) \<Rightarrow> string option \<Rightarrow> string option option" where
  "cpuinfo_execute keeps show_clock proc_file = (case proc_file of
       None \<Rightarrow> Some None
     | Some content \<Rightarrow> do {
         cpus \<leftarrow> cpuinfo_loop keeps content [];
         cpuinfo_concat show_clock cpus None })"

section \<open>\<open>hello\<close>\<close>

text \<open>
  \<open>re\<close> is \<open>regexec\<close> with the compiled pattern: \<open>None\<close> when the line does not match, and otherwise
  the beginning and the end of the first group. The array \<open>found\<close> has as many bytes as the line has
  characters; \<open>V n\<close> bytes may be written to an array of \<open>n\<close> bytes on the stack.
\<close>

definition hello_match :: "(string \<Rightarrow> (int \<times> nat) option) \<Rightarrow> string \<Rightarrow> bool" where
  "hello_match re cmd \<longleftrightarrow> re cmd \<noteq> None"

definition hello_execute ::
    "allocator \<Rightarrow> (string \<Rightarrow> (int \<times> nat) option) \<Rightarrow> bitu_command \<Rightarrow> string option option" where
  "hello_execute V re command = (
     let cmd = bitu_command_get_cmd command; cmd_len = length cmd in
     case re cmd of None \<Rightarrow> Some None
     | Some (so, eo) \<Rightarrow> do {
         require (so \<noteq> -1);
         require (cmd_len < V cmd_len);
         let found = take eo cmd;
         let name = drop (nat so) found;
         require (0 < cmd_len);
         Some (Some (snprintf cmd_len (''Hello '' @ name @ ''!''))) })"

section \<open>\<open>uptime\<close>\<close>

text \<open>The argument is what the program prints, \<open>None\<close> when it cannot be started.\<close>

definition uptime_execute :: "string option \<Rightarrow> string option option" where
  "uptime_execute pipe = (case pipe of
       None \<Rightarrow> Some None
     | Some printed \<Rightarrow> do {
         let message = take 1024 printed;
         require (length message < 1024);
         Some (Some (c_string message)) })"

section \<open>Their properties\<close>

lemma sized_snprintf_id: "sized_snprintf s = s"
  by (simp add: sized_snprintf_def snprintf_def)

lemma cpuinfo_concat_run:
  assumes "list_all2 (\<lambda>c s. cpuinfo_format show_clock c = Some s) cpus ss"
  shows "cpuinfo_concat show_clock cpus (Some r) = Some (Some (r @ concat ss))"
  using assms by (induction cpus ss arbitrary: r rule: list_all2_induct) (simp_all add: sized_snprintf_id)

text \<open>The lines of one processor.\<close>

definition field_line :: "string \<Rightarrow> string \<Rightarrow> string" where
  "field_line key val = key @ [CHR 0x09] @ '': '' @ val @ [newline]"

definition good_value :: "string \<Rightarrow> bool" where
  "good_value v \<longleftrightarrow> v \<noteq> [] \<and> length v < 200 \<and> newline \<notin> set v \<and> NUL \<notin> set v \<and> \<not> isspace (hd v) \<and> \<not> isspace (last v)"

lemma strtok_field:
  assumes "good_value v" "key \<noteq> []" "CHR 0x3A \<notin> set key"
  shows "strtok (CHR 0x3A) (field_line key v) = (Some (key @ [CHR 0x09]), blank # v @ [newline])"
    and "strtok newline (blank # v @ [newline]) = (Some (blank # v), [])"
proof -
  have "dropWhile (\<lambda>c. c = CHR 0x3A) (field_line key v) = field_line key v"
    using assms(2,3) by (cases key) (auto simp: field_line_def)
  moreover have "takeWhile (\<lambda>c. c \<noteq> CHR 0x3A) (field_line key v) = key @ [CHR 0x09]"
    using assms(3) by (simp add: field_line_def takeWhile_append)
  moreover have "dropWhile (\<lambda>c. c \<noteq> CHR 0x3A) (field_line key v) = '': '' @ v @ [newline]"
    using assms(3) by (simp add: field_line_def dropWhile_append)
  ultimately show "strtok (CHR 0x3A) (field_line key v) = (Some (key @ [CHR 0x09]), blank # v @ [newline])"
    using assms(2) by (simp add: strtok_def field_line_def blank_def)
  have "newline \<notin> set v" "blank \<noteq> newline"
    using assms(1) by (simp_all add: good_value_def blank_def newline_def)
  then show "strtok newline (blank # v @ [newline]) = (Some (blank # v), [])"
    by (simp add: strtok_def takeWhile_append dropWhile_append)
qed

lemma strip_surrounded:
  assumes "\<forall>c \<in> set a. isspace c" "\<forall>c \<in> set z. isspace c" "s \<noteq> []" "\<not> isspace (hd s)" "\<not> isspace (last s)"
  shows "strip (a @ s @ z) = s"
proof -
  have "dropWhile isspace (a @ s @ z) = s @ z"
    using assms(1,3,4) by (cases s) (auto simp: dropWhile_append)
  moreover have "dropWhile isspace (rev (s @ z)) = rev s"
    using assms(2,3,5) by (cases "rev s") (auto simp: dropWhile_append hd_rev [symmetric])
  ultimately show ?thesis
    by (simp add: strip_def)
qed

definition good_key :: "string \<Rightarrow> bool" where
  "good_key key \<longleftrightarrow> key \<noteq> [] \<and> length key < 20 \<and> \<not> isspace (hd key) \<and> \<not> isspace (last key) \<and>
     (\<forall>c \<in> {CHR 0x3A, newline, NUL}. c \<notin> set key)"

lemma loop_field:
  assumes "good_value v" "good_key key"
  shows "cpuinfo_loop keeps (field_line key v @ rest) cpus =
    do { cpus \<leftarrow> cpuinfo_line keeps (field_line key v) cpus; cpuinfo_loop keeps rest cpus }"
proof -
  have k: "LINE_LEN_MAX - Suc 0 = 254"
    by (simp add: LINE_LEN_MAX_def)
  let ?l = "key @ [CHR 0x09] @ '': '' @ v"
  have l: "field_line key v @ rest = ?l @ newline # rest" "field_line key v = ?l @ [newline]"
    by (simp_all add: field_line_def)
  have f: "fgets 254 (?l @ newline # rest) = (?l @ [newline], rest)"
    using assms by (intro fgets_line) (auto simp: good_value_def good_key_def newline_def)
  have c: "c_string (?l @ [newline]) = ?l @ [newline]"
    using assms by (intro c_string_id) (auto simp: good_value_def good_key_def newline_def NUL_def)
  show ?thesis
    by (subst l(1), subst cpuinfo_loop.simps) (simp only: k One_nat_def f c l(2) append_is_Nil_conv list.distinct
        if_False Let_def prod.case simp_thms)
qed

lemma field_values:
  assumes "good_value v" "good_key key"
  shows "strtok (CHR 0x3A) (field_line key v) = (Some (key @ [CHR 0x09]), blank # v @ [newline])"
    and "strtok newline (blank # v @ [newline]) = (Some (blank # v), [])"
    and "bitu_util_strstrip (key @ [CHR 0x09]) = Some key"
    and "bitu_util_strstrip (blank # v) = Some v"
proof -
  show "strtok (CHR 0x3A) (field_line key v) = (Some (key @ [CHR 0x09]), blank # v @ [newline])"
    and "strtok newline (blank # v @ [newline]) = (Some (blank # v), [])"
    using strtok_field [OF assms(1), of key] assms(2) by (simp_all add: good_key_def)
  have "strip ([] @ key @ [CHR 0x09]) = key"
    using assms(2) by (intro strip_surrounded) (auto simp: good_key_def isspace_def)
  then show "bitu_util_strstrip (key @ [CHR 0x09]) = Some key"
    using assms(2) by (simp add: strstrip_eq good_key_def)
  have "strip ([blank] @ v @ []) = v"
    using assms(1) by (intro strip_surrounded) (auto simp: good_value_def isspace_def blank_def)
  then show "bitu_util_strstrip (blank # v) = Some v"
    using assms(1) by (simp add: strstrip_eq good_value_def)
qed

lemma field_line_run:
  assumes "good_value v" "good_key key"
  shows "cpuinfo_line keeps (field_line key v) cpus =
    (if key = ''processor'' then do {
       n \<leftarrow> atoi v;
       Some (cpus @ [\<lparr>ci_number = n, ci_vendor_id = None, ci_model = None, ci_clock = None, ci_cache_size = None\<rparr>]) }
     else if key = ''vendor_id'' then store_field keeps (\<lambda>c. c\<lparr>ci_vendor_id := Some v\<rparr>) cpus
     else if key = ''model name'' then store_field keeps (\<lambda>c. c\<lparr>ci_model := Some v\<rparr>) cpus
     else if key = ''cpu MHz'' then store_field keeps (\<lambda>c. c\<lparr>ci_clock := Some v\<rparr>) cpus
     else if key = ''cache size'' then do { n \<leftarrow> atoi v; store_field keeps (\<lambda>c. c\<lparr>ci_cache_size := Some n\<rparr>) cpus }
     else Some cpus)"
  by (simp add: cpuinfo_line_def field_values [OF assms])

lemma keys_good:
  "good_key ''processor''" "good_key ''vendor_id''" "good_key ''model name''" "good_key ''cpu MHz''" "good_key ''cache size''"
  by (auto simp: good_key_def isspace_def newline_def NUL_def)

text \<open>What the file says of one processor: the texts of the five fields.\<close>

record cpu_texts =
  ct_number :: string
  ct_vendor :: string
  ct_model :: string
  ct_clock :: string
  ct_cache :: string

definition cpu_lines :: "cpu_texts \<Rightarrow> string" where
  "cpu_lines p = field_line ''processor'' (ct_number p) @ field_line ''vendor_id'' (ct_vendor p) @
     field_line ''model name'' (ct_model p) @ field_line ''cpu MHz'' (ct_clock p) @ field_line ''cache size'' (ct_cache p)"

definition cpu_ok :: "cpu_texts \<Rightarrow> bool" where
  "cpu_ok p \<longleftrightarrow> (\<forall>v \<in> {ct_number p, ct_vendor p, ct_model p, ct_clock p, ct_cache p}. good_value v) \<and>
     atoi (ct_number p) \<noteq> None \<and> atoi (ct_cache p) \<noteq> None"

definition cpu_of :: "cpu_texts \<Rightarrow> cpuinfo" where
  "cpu_of p = \<lparr>ci_number = the (atoi (ct_number p)), ci_vendor_id = Some (ct_vendor p), ci_model = Some (ct_model p),
     ci_clock = Some (ct_clock p), ci_cache_size = Some (the (atoi (ct_cache p)))\<rparr>"

lemma loop_cpu:
  assumes "cpu_ok p"
  shows "cpuinfo_loop keeps (cpu_lines p @ rest) cpus =
    (if keeps then cpuinfo_loop keeps rest (cpus @ [cpu_of p]) else None)"
proof -
  have g: "good_value (ct_number p)" "good_value (ct_vendor p)" "good_value (ct_model p)" "good_value (ct_clock p)"
    "good_value (ct_cache p)"
    using assms by (simp_all add: cpu_ok_def)
  obtain i j where ij: "atoi (ct_number p) = Some i" "atoi (ct_cache p) = Some j"
    using assms by (auto simp: cpu_ok_def)
  have 1: "cpuinfo_line keeps (field_line ''processor'' (ct_number p)) cpus =
      Some (cpus @ [\<lparr>ci_number = i, ci_vendor_id = None, ci_model = None, ci_clock = None, ci_cache_size = None\<rparr>])"
    by (simp add: field_line_run [OF g(1) keys_good(1)] ij)
  have 2: "cpuinfo_line keeps (field_line ''vendor_id'' (ct_vendor p)) cs =
      store_field keeps (\<lambda>x. x\<lparr>ci_vendor_id := Some (ct_vendor p)\<rparr>) cs" for cs
    by (simp add: field_line_run [OF g(2) keys_good(2)])
  have 3: "cpuinfo_line keeps (field_line ''model name'' (ct_model p)) cs =
      store_field keeps (\<lambda>x. x\<lparr>ci_model := Some (ct_model p)\<rparr>) cs" for cs
    by (simp add: field_line_run [OF g(3) keys_good(3)])
  have 4: "cpuinfo_line keeps (field_line ''cpu MHz'' (ct_clock p)) cs =
      store_field keeps (\<lambda>x. x\<lparr>ci_clock := Some (ct_clock p)\<rparr>) cs" for cs
    by (simp add: field_line_run [OF g(4) keys_good(4)])
  have 5: "cpuinfo_line keeps (field_line ''cache size'' (ct_cache p)) cs =
      store_field keeps (\<lambda>x. x\<lparr>ci_cache_size := Some j\<rparr>) cs" for cs
    by (simp add: field_line_run [OF g(5) keys_good(5)] ij)
  show ?thesis
    by (simp add: cpu_lines_def loop_field g keys_good 1 2 3 4 5 store_field_def require_bind cpu_of_def ij)
qed

lemma loop_cpus:
  assumes "\<forall>p \<in> set ps. cpu_ok p"
  shows "cpuinfo_loop True (concat (map cpu_lines ps) @ rest) cpus = cpuinfo_loop True rest (cpus @ map cpu_of ps)"
  using assms by (induction ps arbitrary: cpus) (simp_all add: loop_cpu)

lemma loop_blank: "cpuinfo_loop keeps (newline # rest) cpus = None"
proof -
  have k: "LINE_LEN_MAX - Suc 0 = 254"
    by (simp add: LINE_LEN_MAX_def)
  have f: "fgets 254 (newline # rest) = ([newline], rest)"
    by (simp add: numeral_eq_Suc)
  have "c_string [newline] = [newline]"
    by (intro c_string_id) (simp add: newline_def NUL_def)
  moreover have "bitu_util_strstrip [newline] = None"
    by (simp add: strstrip_eq strip_def isspace_def newline_def)
  then have "cpuinfo_line keeps [newline] cpus = None"
    by (simp add: cpuinfo_line_def strtok_def newline_def)
  ultimately show ?thesis
    by (subst cpuinfo_loop.simps) (simp add: k f)
qed

text \<open>
  A blank line anywhere in the file, as the kernel writes one after each processor, whatever is in the lines before it:
  \<open>fgets\<close> ends at the line break before the blank line, so that the blank line is read on its own.
\<close>

definition has_blank_line :: "string \<Rightarrow> bool" where
  "has_blank_line text \<longleftrightarrow> (\<exists>before rest. text = before @ newline # rest \<and> (before = [] \<or> last before = newline))"

lemma fgets_stops:
  "fgets n (before @ newline # rest) = (line, r) \<Longrightarrow> r = rest \<or> (\<exists>before'. r = before' @ newline # rest)"
proof (induction before arbitrary: n line)
  case Nil
  then show ?case
    by (cases n) auto
next
  case (Cons c before)
  show ?case
  proof (cases n)
    case 0
    then show ?thesis
      using Cons.prems by (intro disjI2 exI [of _ "c # before"]) simp
  next
    case (Suc k)
    then show ?thesis
      using Cons.prems Cons.IH [of k] by (auto split: if_splits prod.splits)
  qed
qed

lemma loop_blank_line: "cpuinfo_loop keeps (before @ newline # newline # rest) cpus = None"
proof (induction before arbitrary: cpus rule: length_induct)
  case (1 before)
  let ?content = "before @ newline # newline # rest"
  obtain buf r where f: "fgets 254 ?content = (buf, r)"
    by (cases "fgets 254 ?content")
  have shorter: "length r < length ?content"
    using fgets_shorter [of 253 ?content buf r] f by simp
  have "cpuinfo_loop keeps r cpus = None" for cpus
  proof (cases "r = newline # rest")
    case True
    then show ?thesis
      by (simp add: loop_blank)
  next
    case False
    then obtain before' where r: "r = before' @ newline # newline # rest"
      using fgets_stops [OF f] by blast
    then show ?thesis
      using 1 shorter by simp
  qed
  then show ?case
    by (subst cpuinfo_loop.simps) (simp add: LINE_LEN_MAX_def f bind_eq_None_conv)
qed

lemma cpuinfo_blank_line:
  assumes "has_blank_line text"
  shows "cpuinfo_execute keeps show_clock (Some text) = None"
proof -
  obtain before rest where t: "text = before @ newline # rest" "before = [] \<or> last before = newline"
    using assms unfolding has_blank_line_def by blast
  have "cpuinfo_loop keeps text [] = None"
  proof (cases "before = []")
    case True
    then show ?thesis
      by (simp add: t loop_blank)
  next
    case False
    then have "before = butlast before @ [newline]"
      using t(2) by (metis append_butlast_last_id)
    then have "text = butlast before @ newline # newline # rest"
      unfolding t(1) by (metis append.assoc append_Cons append_Nil)
    then show ?thesis
      by (simp add: loop_blank_line)
  qed
  then show ?thesis
    by (simp add: cpuinfo_execute_def)
qed

text \<open>The part of the answer for one processor.\<close>

definition cpu_text :: "(string \<Rightarrow> string) \<Rightarrow> cpu_texts \<Rightarrow> string" where
  "cpu_text show_clock p =
     ''Cpuinfo '' @ show_int (the (atoi (ct_number p))) @ [newline] @
     ''Vendor ID: '' @ ct_vendor p @ [newline] @
     ''Model: '' @ ct_model p @ [newline] @
     ''Clock: '' @ show_clock (ct_clock p) @ [newline] @
     ''Cache size: '' @ show_int (the (atoi (ct_cache p))) @ [newline, newline]"

lemma concat_cpus:
  "cpuinfo_concat show_clock (map cpu_of ps) None = Some (if ps = [] then None else Some (concat (map (cpu_text show_clock) ps)))"
proof -
  have f: "cpuinfo_format show_clock (cpu_of p) = Some (cpu_text show_clock p)" for p
    by (simp add: cpuinfo_format_def cpu_of_def cpu_text_def)
  have "list_all2 (\<lambda>c s. cpuinfo_format show_clock c = Some s) (map cpu_of qs) (map (cpu_text show_clock) qs)" for qs
    by (induction qs) (simp_all add: f)
  then show ?thesis
    by (cases ps) (simp_all add: f sized_snprintf_id cpuinfo_concat_run)
qed

lemma cpuinfo_run:
  assumes "\<forall>p \<in> set ps. cpu_ok p"
  shows "cpuinfo_execute True show_clock (Some (concat (map cpu_lines ps))) =
    Some (if ps = [] then None else Some (concat (map (cpu_text show_clock) ps)))"
proof -
  have "cpuinfo_loop True [] cpus = Some cpus" for cpus
    by (simp add: cpuinfo_loop.simps)
  then show ?thesis
    using loop_cpus [OF assms, of "[]" "[]"] concat_cpus [of show_clock ps] by (simp add: cpuinfo_execute_def)
qed

text \<open>
  The plugin \<open>cpuinfo\<close>: when the pointer to the current processor happens to survive from one
  round of its loop to the next, a file with the five fields of each processor and nothing else
  gives the texts of all processors in order, and a file without processors no answer. A blank line,
  as the kernel writes after each processor, makes it read before the beginning of the line; and
  when the pointer does not survive, the first field after a processor's number has no place to
  go.
\<close>
theorem cpuinfo_answers:
  assumes "\<forall>p \<in> set ps. cpu_ok p"
  shows "cpuinfo_execute True show_clock (Some (concat (map cpu_lines ps))) =
      Some (if ps = [] then None else Some (concat (map (cpu_text show_clock) ps))) \<and>
    cpuinfo_execute True show_clock (Some (concat (map cpu_lines ps) @ newline # rest)) = None \<and>
    (ps \<noteq> [] \<longrightarrow> cpuinfo_execute False show_clock (Some (concat (map cpu_lines ps) @ rest)) = None)"
proof (intro conjI impI)
  show "cpuinfo_execute True show_clock (Some (concat (map cpu_lines ps))) =
      Some (if ps = [] then None else Some (concat (map (cpu_text show_clock) ps)))"
    by (rule cpuinfo_run [OF assms])
  show "cpuinfo_execute True show_clock (Some (concat (map cpu_lines ps) @ newline # rest)) = None"
    using loop_cpus [OF assms, of "newline # rest" "[]"] by (simp add: cpuinfo_execute_def loop_blank)
  assume "ps \<noteq> []"
  then obtain p qs where "ps = p # qs"
    by (cases ps) auto
  then show "cpuinfo_execute False show_clock (Some (concat (map cpu_lines ps) @ rest)) = None"
    using loop_cpu [of p False "concat (map cpu_lines qs) @ rest" "[]"] assms by (simp add: cpuinfo_execute_def)
qed

theorem cpuinfo_answers_witness:
  "cpuinfo_execute True (\<lambda>s. s) (Some (cpu_lines \<lparr>ct_number = ''0'', ct_vendor = ''Intel'', ct_model = ''Atom'', ct_clock = ''1600.0'',
     ct_cache = ''512 KB''\<rparr>)) = Some (Some (''Cpuinfo 0'' @ [newline] @ ''Vendor ID: Intel'' @ [newline] @ ''Model: Atom'' @ [newline] @
       ''Clock: 1600.0'' @ [newline] @ ''Cache size: 512'' @ [newline, newline]))"
proof -
  let ?p = "\<lparr>ct_number = ''0'', ct_vendor = ''Intel'', ct_model = ''Atom'', ct_clock = ''1600.0'', ct_cache = ''512 KB''\<rparr>"
  have a: "atoi ''0'' = Some 0" "atoi ''512 KB'' = Some 512"
    by code_simp+
  have s: "show_int 0 = ''0''" "show_int 512 = ''512''"
    by code_simp+
  have "\<forall>p \<in> set [?p]. cpu_ok p"
    by (auto simp: cpu_ok_def good_value_def newline_def NUL_def isspace_def a)
  then show ?thesis
    using cpuinfo_answers [of "[?p]" "\<lambda>s. s"] by (simp add: cpu_text_def a s)
qed

lemma hello_run:
  assumes "command_cmd c = before @ ''Say hello to '' @ name @ after"
    and "re (command_cmd c) = Some (int (length before) + 13, length before + 13 + length name)"
  shows "hello_match re (command_cmd c)"
    and "length (command_cmd c) < V (length (command_cmd c)) \<Longrightarrow> hello_execute V re c = Some (Some (''Hello '' @ name @ ''!''))"
    and "\<not> length (command_cmd c) < V (length (command_cmd c)) \<Longrightarrow> hello_execute V re c = None"
proof -
  define pre where "pre = before @ ''Say hello to ''"
  have pre: "length before + 13 = length pre" "command_cmd c = pre @ name @ after"
    by (simp_all add: pre_def assms(1))
  have n: "nat (int (length before) + 13) = length before + 13"
    by simp
  have "drop (nat (int (length before) + 13)) (take (length before + 13 + length name) (command_cmd c)) = name"
    unfolding n pre by simp
  then show "hello_match re (command_cmd c)"
    and "length (command_cmd c) < V (length (command_cmd c)) \<Longrightarrow> hello_execute V re c = Some (Some (''Hello '' @ name @ ''!''))"
    and "\<not> length (command_cmd c) < V (length (command_cmd c)) \<Longrightarrow> hello_execute V re c = None"
    using assms(2) by (simp_all add: hello_match_def hello_execute_def Let_def snprintf_def assms(1))
qed

text \<open>
  The plugin \<open>hello\<close>, when the expression finds \<open>Say hello to NAME\<close> in the line: it greets the
  name, if the array on the stack has room for one byte more than was declared; by the C
  standard alone it overruns this array on every line that it recognises.
\<close>
theorem hello_answers:
  assumes "command_cmd c = before @ ''Say hello to '' @ name @ after"
    and "re (command_cmd c) = Some (int (length before) + 13, length before + 13 + length name)"
  shows "hello_match re (command_cmd c) \<and> hello_execute strict_alloc re c = None \<and>
    (length (command_cmd c) < V (length (command_cmd c)) \<longrightarrow> hello_execute V re c = Some (Some (''Hello '' @ name @ ''!'')))"
  using hello_run(1) [where re = re, OF assms] hello_run(2) [where re = re, OF assms, of V] assms(2) by (simp add: hello_execute_def strict_alloc_def Let_def)

theorem hello_answers_witness:
  "hello_execute glibc_alloc (\<lambda>_. Some (13, 17)) (\<lparr>command_transport = None, command_from = None, command_cmd = ''Say hello to bitU'',
     command_name = None, command_params = [], command_nparams = 0\<rparr>) = Some (Some ''Hello bitU!'')"
proof -
  let ?c = "\<lparr>command_transport = None, command_from = None, command_cmd = ''Say hello to bitU'',
     command_name = None, command_params = [], command_nparams = 0\<rparr>"
  have "command_cmd ?c = [] @ ''Say hello to '' @ ''bitU'' @ []"
    "(\<lambda>_. Some (13, 17)) (command_cmd ?c) = Some (int (length []) + 13, length [] + 13 + length ''bitU'')"
    by simp_all
  from hello_answers [OF this, of glibc_alloc] show ?thesis
    by (simp add: glibc_alloc_def)
qed

text \<open>\<open>uptime\<close> answers with what the program prints, up to a zero byte; 1024 bytes are too many.\<close>

lemma uptime_answers:
  "uptime_execute (Some printed) = (if length printed < 1024 then Some (Some (c_string printed)) else None)"
  by (simp add: uptime_execute_def require_def)

end
