(* ===== verification/Plugin_Props.thy ===== *)
theory Plugin_Props
  imports Plugins App_Props
begin

text \<open>
  The plugins of the repository inside of the application: the libraries that are built from them, and
  what the application answers once they have been loaded.
\<close>

section \<open>The libraries\<close>

text \<open>
  What \<open>dlsym\<close> finds in \<open>libcpuinfo.so\<close>, \<open>libhello.so\<close> and \<open>libuptime.so\<close>; only \<open>hello\<close> has a matching
  function.
\<close>

definition cpuinfo_library :: "bool \<Rightarrow> (string \<Rightarrow> string) \<Rightarrow> string option \<Rightarrow> dl_library" where
  "cpuinfo_library keeps show_clock proc_file = \<lparr>dl_plugin_name = Some ''cpuinfo'',
     dl_plugin_execute = Some (\<lambda>_. cpuinfo_execute keeps show_clock proc_file), dl_plugin_match = None\<rparr>"

definition hello_library :: "allocator \<Rightarrow> (string \<Rightarrow> (int \<times> nat) option) \<Rightarrow> dl_library" where
  "hello_library V re = \<lparr>dl_plugin_name = Some ''hello'',
     dl_plugin_execute = Some (hello_execute V re), dl_plugin_match = Some (hello_match re)\<rparr>"

definition uptime_library :: "string option \<Rightarrow> dl_library" where
  "uptime_library pipe = \<lparr>dl_plugin_name = Some ''uptime'',
     dl_plugin_execute = Some (\<lambda>_. uptime_execute pipe), dl_plugin_match = None\<rparr>"

definition loaded :: "string \<Rightarrow> dl_library \<Rightarrow> bitu_plugin" where
  "loaded lib l = \<lparr>pl_handle = lib, pl_name = the (dl_plugin_name l), pl_execute = the (dl_plugin_execute l),
     pl_match = dl_plugin_match l\<rparr>"

section \<open>Loading and serving\<close>

lemma load_library:
  assumes "app_inv app" "card (dom (plugins_of app)) < ht_capacity"
    and "ae_dl E (''lib'' @ x @ ''.so'') = Some l" "dl_plugin_name l = Some nm" "dl_plugin_execute l \<noteq> None"
    and "is_command ''load'' [x] c"
  shows "\<exists>app1. bitu_app_exec_command E app c = Some (app1, None, TA_OK) \<and> app_inv app1 \<and>
    plugins_of app1 = (plugins_of app)(nm \<mapsto> loaded (''lib'' @ x @ ''.so'') l)"
proof -
  have l: "bitu_plugin_load (ae_dl E) (libname x) = Some (loaded (''lib'' @ x @ ''.so'') l)"
    using assms(3-5) by (auto simp: bitu_plugin_load_def libname_eq loaded_def)
  obtain ctx where ctx: "bitu_plugin_ctx_load (ae_dl E) (ap_plugin_ctx app) (libname x) = Some (ctx, TA_OK)"
    "ht_wf ctx" "ht_map ctx = (plugins_of app)(nm \<mapsto> loaded (''lib'' @ x @ ''.so'') l)"
    using plugin_load_run [OF app_invD(5) [OF assms(1)], of "ae_dl E" "libname x"] assms(2,4) l
    by (auto simp: plugins_of_def loaded_def)
  have "app_inv (app\<lparr>ap_plugin_ctx := ctx\<rparr>)"
    using app_invD(6) [OF assms(1)] assms(4)
    by (intro app_inv_plugins [OF assms(1) ctx(2)]) (auto simp: ctx(3) plugins_of_def loaded_def split: if_splits)
  then show ?thesis
    using ctx
    by (simp add: exec_builtin [OF assms(1,6) builtin_names(5)] run_builtin_def cmd_load_def checked_def
        validate_num_params_def plugins_of_def)
qed

lemma find_claiming:
  assumes "app_inv app" "plugins_of app name = Some p" "matches cmd p"
    and "\<And>q. q \<in> ran (plugins_of app) \<Longrightarrow> matches cmd q \<Longrightarrow> q = p"
  shows "find (matches cmd) (map snd (ht_entries (ap_plugin_ctx app))) = Some p"
proof -
  have in_ran: "q \<in> ran (plugins_of app)" if "q \<in> set (map snd (ht_entries (ap_plugin_ctx app)))" for q
    using that ht.in_entries [OF app_invD(5) [OF assms(1)]] by (auto simp: ran_def plugins_of_def)
  have "p \<in> set (map snd (ht_entries (ap_plugin_ctx app)))"
    using assms(2) ht.in_entries [OF app_invD(5) [OF assms(1)], of name p] by (force simp: plugins_of_def)
  then have "find (matches cmd) (map snd (ht_entries (ap_plugin_ctx app))) \<noteq> None"
    using assms(3) by (auto simp: find_None_iff)
  then obtain q where q: "find (matches cmd) (map snd (ht_entries (ap_plugin_ctx app))) = Some q"
    by blast
  then have "q \<in> set (map snd (ht_entries (ap_plugin_ctx app)))" "matches cmd q"
    by (auto simp: find_Some_iff)
  then show ?thesis
    using q assms(4) in_ran by auto
qed

lemma serve_claimed:
  assumes "app_inv app" "ae_alloc E = glibc_alloc" "is_command w params c" "plain_start (strip (command_cmd c))"
    and "map_of builtins w = None" "plugins_of app name = Some p" "matches (command_cmd c) p"
    and "\<And>q. q \<in> ran (plugins_of app) \<Longrightarrow> matches (command_cmd c) q \<Longrightarrow> q = p"
  shows "bitu_app_exec_command E app c = map_option (\<lambda>out. (app, out, TA_OK)) (pl_execute p c)"
  using dispatch_run [OF assms(1-4)] assms(5) find_claiming [OF assms(1,6-8)] by simp

lemma serve_named:
  assumes "app_inv app" "ae_alloc E = glibc_alloc" "is_command w params c" "plain_start (strip (command_cmd c))"
    and "map_of builtins w = None" "plugins_of app (command_cmd c) = Some p"
    and "\<And>q. q \<in> ran (plugins_of app) \<Longrightarrow> \<not> matches (command_cmd c) q"
  shows "bitu_app_exec_command E app c = map_option (\<lambda>out. (app, out, TA_OK)) (pl_execute p c)"
proof -
  have "find (matches (command_cmd c)) (map snd (ht_entries (ap_plugin_ctx app))) = None"
    using assms(7) by (intro no_match_find app_invD(5) [OF assms(1)]) (auto simp: plugins_of_def)
  then show ?thesis
    using dispatch_run [OF assms(1-4)] assms(5,6) by simp
qed

section \<open>All plugins of the repository\<close>

definition repository_libraries ::
    "allocator \<Rightarrow> (string \<Rightarrow> (int \<times> nat) option) \<Rightarrow> string option \<Rightarrow> bool \<Rightarrow> (string \<Rightarrow> string) \<Rightarrow> string option \<Rightarrow>
     string \<rightharpoonup> dl_library" where
  "repository_libraries V re pipe keeps show_clock proc_file =
     [''libhello.so'' \<mapsto> hello_library V re, ''libuptime.so'' \<mapsto> uptime_library pipe,
      ''libcpuinfo.so'' \<mapsto> cpuinfo_library keeps show_clock proc_file]"

lemma load_repository:
  assumes "app_inv app" "plugins_of app = Map.empty" "ae_dl E = repository_libraries V re pipe keeps show_clock proc_file"
    and "is_command ''load'' [''hello''] l1" "is_command ''load'' [''uptime''] l2" "is_command ''load'' [''cpuinfo''] l3"
  shows "\<exists>a1 a2 a3. bitu_app_exec_command E app l1 = Some (a1, None, TA_OK) \<and>
    bitu_app_exec_command E a1 l2 = Some (a2, None, TA_OK) \<and> bitu_app_exec_command E a2 l3 = Some (a3, None, TA_OK) \<and>
    app_inv a3 \<and> plugins_of a3 = [''hello'' \<mapsto> loaded ''libhello.so'' (hello_library V re),
      ''uptime'' \<mapsto> loaded ''libuptime.so'' (uptime_library pipe),
      ''cpuinfo'' \<mapsto> loaded ''libcpuinfo.so'' (cpuinfo_library keeps show_clock proc_file)]"
proof -
  have dl: "ae_dl E (''lib'' @ ''hello'' @ ''.so'') = Some (hello_library V re)"
    "ae_dl E (''lib'' @ ''uptime'' @ ''.so'') = Some (uptime_library pipe)"
    "ae_dl E (''lib'' @ ''cpuinfo'' @ ''.so'') = Some (cpuinfo_library keeps show_clock proc_file)"
    by (simp_all add: assms(3) repository_libraries_def)
  obtain a1 where a1: "bitu_app_exec_command E app l1 = Some (a1, None, TA_OK)" "app_inv a1"
    "plugins_of a1 = [''hello'' \<mapsto> loaded ''libhello.so'' (hello_library V re)]"
    using load_library [OF assms(1) _ dl(1) _ _ assms(4), of "''hello''"] assms(2)
    by (auto simp: hello_library_def ht_capacity_def)
  obtain a2 where a2: "bitu_app_exec_command E a1 l2 = Some (a2, None, TA_OK)" "app_inv a2"
    "plugins_of a2 = (plugins_of a1)(''uptime'' \<mapsto> loaded ''libuptime.so'' (uptime_library pipe))"
    using load_library [OF a1(2) _ dl(2) _ _ assms(5), of "''uptime''"] a1(3)
    by (auto simp: uptime_library_def ht_capacity_def)
  obtain a3 where a3: "bitu_app_exec_command E a2 l3 = Some (a3, None, TA_OK)" "app_inv a3"
    "plugins_of a3 = (plugins_of a2)(''cpuinfo'' \<mapsto> loaded ''libcpuinfo.so'' (cpuinfo_library keeps show_clock proc_file))"
    using load_library [OF a2(2) _ dl(3) _ _ assms(6), of "''cpuinfo''"] a1(3) a2(3)
    by (auto simp: cpuinfo_library_def ht_capacity_def)
  show ?thesis
    by (intro exI conjI) (rule a1(1), rule a2(1), rule a3(1), rule a3(2), simp only: a3(3) a2(3) a1(3))
qed

text \<open>
  C16. The plugins of the repository in a new application. The three commands \<open>load\<close> have no answer and make the
  plugins known under their names. A line with \<open>Say hello to NAME\<close> in it that no built-in command takes goes to
  \<open>hello\<close>, whatever words it begins and ends with; the greeting needs a byte more than \<open>hello\<close>'s array has been
  declared with, and without it the line has no defined result. The line \<open>uptime\<close> is answered with what the program
  prints, unless these are 1024 bytes or more, and with nothing when it cannot be started. The line \<open>cpuinfo\<close> has no defined
  result for any file with a blank line, which the kernel writes after each processor, whatever else is in the file
  and however the compiler treats the pointer of the loop; when the file cannot be opened, there is no answer.
\<close>
theorem repository_plugins:
  assumes "app_inv app" "plugins_of app = Map.empty" "ae_alloc E = glibc_alloc"
    and "ae_dl E = repository_libraries V re pipe keeps show_clock proc_file"
    and "re ''uptime'' = None" "re ''cpuinfo'' = None" "\<forall>text. proc_file = Some text \<longrightarrow> has_blank_line text"
    and "is_command ''load'' [''hello''] l1" "is_command ''load'' [''uptime''] l2" "is_command ''load'' [''cpuinfo''] l3"
    and "is_command w params c1" "map_of builtins w = None" "plain_start (strip (command_cmd c1))"
    and "command_cmd c1 = before @ ''Say hello to '' @ name @ after"
    and "re (command_cmd c1) = Some (int (length before) + 13, length before + 13 + length name)"
    and "is_command ''uptime'' [] c2" "command_cmd c2 = ''uptime''"
    and "is_command ''cpuinfo'' [] c3" "command_cmd c3 = ''cpuinfo''"
  shows "\<exists>app'. exec_all E app [l1, l2, l3] = Some (app', [None, None, None]) \<and>
    dom (plugins_of app') = {''hello'', ''uptime'', ''cpuinfo''} \<and>
    bitu_app_exec_command E app' c1 =
      (if length (command_cmd c1) < V (length (command_cmd c1)) then Some (app', Some (''Hello '' @ name @ ''!''), TA_OK) else None) \<and>
    bitu_app_exec_command E app' c2 = (case pipe of None \<Rightarrow> Some (app', None, TA_OK)
      | Some printed \<Rightarrow> if length printed < 1024 then Some (app', Some (c_string printed), TA_OK) else None) \<and>
    bitu_app_exec_command E app' c3 = (if proc_file = None then Some (app', None, TA_OK) else None)"
proof -
  let ?h = "loaded ''libhello.so'' (hello_library V re)" and ?u = "loaded ''libuptime.so'' (uptime_library pipe)"
  let ?c = "loaded ''libcpuinfo.so'' (cpuinfo_library keeps show_clock proc_file)"
  obtain a1 a2 a3 where l: "bitu_app_exec_command E app l1 = Some (a1, None, TA_OK)"
    "bitu_app_exec_command E a1 l2 = Some (a2, None, TA_OK)" "bitu_app_exec_command E a2 l3 = Some (a3, None, TA_OK)"
    and a3: "app_inv a3" "plugins_of a3 = [''hello'' \<mapsto> ?h, ''uptime'' \<mapsto> ?u, ''cpuinfo'' \<mapsto> ?c]"
    using load_repository [OF assms(1,2,4,8-10)] by blast
  have ran: "ran (plugins_of a3) = {?h, ?u, ?c}"
    unfolding a3(2) by (simp add: ran_map_upd insert_commute)
  have m: "matches cmd ?h \<longleftrightarrow> hello_match re cmd" "\<not> matches cmd ?u" "\<not> matches cmd ?c" for cmd
    by (simp_all add: matches_def loaded_def hello_library_def uptime_library_def cpuinfo_library_def)
  have named: "map_of builtins ''uptime'' = None" "map_of builtins ''cpuinfo'' = None"
    by (simp_all add: builtins_def)
  have "strip ''uptime'' = ''uptime''" "strip ''cpuinfo'' = ''cpuinfo''"
    by code_simp+
  then have p: "plain_start (strip ''uptime'')" "plain_start (strip ''cpuinfo'')"
    by (simp_all add: plain_start_def quote_def backslash_def blank_def)
  have "bitu_app_exec_command E a3 c1 = map_option (\<lambda>out. (a3, out, TA_OK)) (pl_execute ?h c1)"
    using hello_run(1) [where re = re, OF assms(14,15)] m ran
    by (intro serve_claimed [OF a3(1) assms(3,11,13,12), of "''hello''"]) (auto simp: a3(2))
  then have c1: "bitu_app_exec_command E a3 c1 =
      (if length (command_cmd c1) < V (length (command_cmd c1)) then Some (a3, Some (''Hello '' @ name @ ''!''), TA_OK) else None)"
    using hello_run(2-3) [where re = re and V = V, OF assms(14,15)] by (simp add: loaded_def hello_library_def)
  have "bitu_app_exec_command E a3 c2 = map_option (\<lambda>out. (a3, out, TA_OK)) (pl_execute ?u c2)"
    using assms(5,17) m ran p named
    by (intro serve_named [OF a3(1) assms(3,16)]) (auto simp: a3(2) hello_match_def)
  then have c2: "bitu_app_exec_command E a3 c2 = (case pipe of None \<Rightarrow> Some (a3, None, TA_OK)
      | Some printed \<Rightarrow> if length printed < 1024 then Some (a3, Some (c_string printed), TA_OK) else None)"
    by (cases pipe) (simp_all add: loaded_def uptime_library_def uptime_answers uptime_execute_def)
  have "bitu_app_exec_command E a3 c3 = map_option (\<lambda>out. (a3, out, TA_OK)) (pl_execute ?c c3)"
    using assms(6,19) m ran p named
    by (intro serve_named [OF a3(1) assms(3,18)]) (auto simp: a3(2) hello_match_def)
  then have c3: "bitu_app_exec_command E a3 c3 = (if proc_file = None then Some (a3, None, TA_OK) else None)"
    using assms(7) cpuinfo_blank_line by (cases proc_file) (simp_all add: loaded_def cpuinfo_library_def cpuinfo_execute_def)
  show ?thesis
    using l c1 c2 c3 by (intro exI [of _ a3]) (simp add: a3(2) insert_commute)
qed

text \<open>The beginning of the file on a machine with an Intel processor, up to the blank line.\<close>

definition example_proc_file :: string where
  "example_proc_file = concat (map (\<lambda>(key, val). field_line key val)
     [(''processor'', ''0''), (''vendor_id'', ''GenuineIntel''), (''cpu family'', ''6''), (''model name'', ''Atom N270''),
      (''cpu MHz'', ''1600.000''), (''cache size'', ''512 KB''), (''bogomips'', ''3191.92'')]) @ [newline]"

theorem repository_plugins_witness:
  "\<forall>exact. \<exists>E app app'. bitu_app_new = Some app \<and> ae_dl E ''libcpuinfo.so'' = Some (cpuinfo_library True (\<lambda>s. s) (Some example_proc_file)) \<and>
    exec_all E app [line_command ''load'' [''hello''], line_command ''load'' [''uptime''], line_command ''load'' [''cpuinfo'']] =
      Some (app', [None, None, None]) \<and>
    bitu_app_exec_command E app' (line_command ''Say'' [''hello'', ''to'', ''bitU'']) =
      (if exact then None else Some (app', Some ''Hello bitU!'', TA_OK)) \<and>
    bitu_app_exec_command E app' (line_command ''uptime'' []) = Some (app', Some ''up 3 days'', TA_OK) \<and>
    bitu_app_exec_command E app' (line_command ''cpuinfo'' []) = None"
proof
  fix exact :: bool
  let ?V = "\<lambda>n :: nat. if exact then n else Suc n"
  let ?re = "\<lambda>s. if s = ''Say hello to bitU'' then Some (13, 17) else None"
  let ?dl = "repository_libraries ?V ?re (Some ''up 3 days'') True (\<lambda>s. s) (Some example_proc_file)"
  define E where "E = example_app_env ?dl"
  obtain app where app: "bitu_app_new = Some app" "app_inv app" "plugins_of app = Map.empty"
    using app_new_run by blast
  have E: "ae_alloc E = glibc_alloc" "ae_dl E = ?dl"
    by (simp_all add: E_def example_app_env_def)
  let ?c = "line_command ''Say'' [''hello'', ''to'', ''bitU'']"
  have re: "?re ''uptime'' = None" "?re ''cpuinfo'' = None"
    by simp_all
  have blank_line: "\<forall>text. Some example_proc_file = Some text \<longrightarrow> has_blank_line text"
    unfolding has_blank_line_def option.inject
    by (intro allI impI exI [of _ "butlast example_proc_file"] exI [of _ "[]"]) (auto simp: example_proc_file_def field_line_def)
  have cmd: "command_cmd ?c = ''Say hello to bitU''" "command_cmd (line_command ''uptime'' []) = ''uptime''"
    "command_cmd (line_command ''cpuinfo'' []) = ''cpuinfo''"
    by (simp_all add: line_command_def blank_def)
  have s: "strip ''Say hello to bitU'' = ''Say hello to bitU''"
    by code_simp
  have c: "plain_start (strip (command_cmd ?c))"
    unfolding cmd s by (simp add: plain_start_def quote_def backslash_def blank_def)
  have w: "map_of builtins ''Say'' = None"
    by (simp add: builtins_def)
  have h: "command_cmd ?c = [] @ ''Say hello to '' @ ''bitU'' @ []"
    "?re (command_cmd ?c) = Some (int (length []) + 13, length [] + 13 + length ''bitU'')"
    by (simp_all add: cmd)
  obtain app' where r: "exec_all E app [line_command ''load'' [''hello''], line_command ''load'' [''uptime''],
      line_command ''load'' [''cpuinfo'']] = Some (app', [None, None, None])"
    "bitu_app_exec_command E app' ?c =
      (if length (command_cmd ?c) < ?V (length (command_cmd ?c)) then Some (app', Some (''Hello '' @ ''bitU'' @ ''!''), TA_OK)
       else None)"
    "bitu_app_exec_command E app' (line_command ''uptime'' []) = (case Some ''up 3 days'' of None \<Rightarrow> Some (app', None, TA_OK)
      | Some printed \<Rightarrow> if length printed < 1024 then Some (app', Some (c_string printed), TA_OK) else None)"
    "bitu_app_exec_command E app' (line_command ''cpuinfo'' []) = (if Some example_proc_file = None then Some (app', None, TA_OK) else None)"
    using repository_plugins [OF app(2,3) E re blank_line line_command_is line_command_is line_command_is line_command_is w c h
        line_command_is cmd(2) line_command_is cmd(3)] by blast
  have "c_string ''up 3 days'' = ''up 3 days''"
    by (simp add: c_string_def NUL_def)
  moreover have "ae_dl E ''libcpuinfo.so'' = Some (cpuinfo_library True (\<lambda>s. s) (Some example_proc_file))"
    by (simp add: E repository_libraries_def)
  ultimately show "\<exists>E app app'. bitu_app_new = Some app \<and>
    ae_dl E ''libcpuinfo.so'' = Some (cpuinfo_library True (\<lambda>s. s) (Some example_proc_file)) \<and>
    exec_all E app [line_command ''load'' [''hello''], line_command ''load'' [''uptime''], line_command ''load'' [''cpuinfo'']] =
      Some (app', [None, None, None]) \<and>
    bitu_app_exec_command E app' ?c = (if exact then None else Some (app', Some ''Hello bitU!'', TA_OK)) \<and>
    bitu_app_exec_command E app' (line_command ''uptime'' []) = Some (app', Some ''up 3 days'', TA_OK) \<and>
    bitu_app_exec_command E app' (line_command ''cpuinfo'' []) = None"
    using app(1) r by (intro exI [of _ E] exI [of _ app] exI [of _ app']) (simp del: exec_all.simps)
qed

end
