(* ===== verification/Test_Programs.thy ===== *)
theory Test_Programs
  imports Shipped_Conf Plugin_Props
begin

text \<open>
  The small test programs of the repository, \<open>src/test-*.c\<close> and \<open>plugins/*/test.c\<close>, on the functions of the other
  theories. \<open>None\<close> is a program that has no defined result or does not end.
\<close>

text \<open>What a program prints, with its exit status; \<open>Aborted\<close> by a failed assertion.\<close>

datatype outcome = Exited bool string | Aborted

section \<open>\<open>src/test-util.c\<close>\<close>

definition test_strstrip :: "outcome option" where
  "test_strstrip = (let orig = '' to be stripped out! '' in do {
     stripped \<leftarrow> bitu_util_strstrip orig;
     Some (if stripped \<noteq> ''to be stripped out!'' then Aborted
           else Exited True (''Stripping message `'' @ orig @ [apostrophe] @ '': '' @ ''`'' @ stripped @ [apostrophe, newline])) })"

text \<open>
  \<open>if (bitu_util_extract_params (...))\<close>: \<open>TA_OK\<close> is 0, so that the parameters are printed only when there are
  none to print, from variables without a value.
\<close>

definition test_line :: string where
  "test_line = ''cmd param3 param4 '' @ [quote] @ ''single param with spaces'' @ [quote] @ '' blehxx''"

definition test_extract_params :: "allocator \<Rightarrow> outcome option" where
  "test_extract_params U = do {
     r \<leftarrow> bitu_util_extract_params (\<lambda>_. True) U test_line;
     case r of None \<Rightarrow> None
     | Some _ \<Rightarrow> Some (Exited True (''line: '' @ test_line @ [newline])) }"

definition test_util_main :: "allocator \<Rightarrow> outcome option" where
  "test_util_main U = do {
     first \<leftarrow> test_strstrip;
     case first of Aborted \<Rightarrow> Some Aborted
     | Exited ok out \<Rightarrow> do {
         second \<leftarrow> test_extract_params U;
         Some (case second of Aborted \<Rightarrow> Aborted | Exited ok out' \<Rightarrow> Exited True (out @ out')) } }"

section \<open>\<open>src/test-conf.c\<close>\<close>

text \<open>
  The loop over the parameters of a command stops at a null pointer, which
  \<open>bitu_util_extract_params\<close> does not store: it reads behind the array.
\<close>

fun conf_params_text :: "string list \<Rightarrow> string \<Rightarrow> string option" where
  "conf_params_text [] out = None"
| "conf_params_text (param # params) out = conf_params_text params (out @ '' * '' @ param @ [newline])"

fun conf_commands_text :: "bitu_command list \<Rightarrow> string \<Rightarrow> string option" where
  "conf_commands_text [] out = Some out"
| "conf_commands_text (command # conf) out = do {
     cmd \<leftarrow> bitu_command_get_name command;
     out \<leftarrow> conf_params_text (bitu_command_get_params command) (out @ ''Cmd: '' @ cmd @ [newline]);
     conf_commands_text conf out }"

definition test_conf_main ::
    "allocator \<Rightarrow> bitu_command ta_list_api \<Rightarrow> (string \<Rightarrow> string option) \<Rightarrow> outcome option" where
  "test_conf_main U T files = do {
     conf \<leftarrow> bitu_conf_read_from_file U T (files ''bitu.conf.dist'');
     if conf = [] then Some (Exited False (''Error!'' @ [newline]))
     else do {
       out \<leftarrow> conf_commands_text conf [];
       Some (Exited True out) } }"

section \<open>\<open>src/test-server.c\<close>\<close>

text \<open>There is no callback; the results of \<open>bitu_server_connect\<close> and \<open>bitu_server_run\<close> are ignored.\<close>

definition test_server_main :: "allocator \<Rightarrow> socket_env \<Rightarrow> accept_result list \<Rightarrow> outcome option" where
  "test_server_main U env events = do {
     server \<leftarrow> bitu_server_new ''/tmp/bleh.sock'' False;
     (server, _) \<leftarrow> bitu_server_connect env server;
     (server, _) \<leftarrow> bitu_server_run U (\<lambda>_ _ _ _. None :: unit option) server events ();
     _ \<leftarrow> bitu_server_free server;
     Some (Exited True []) }"

section \<open>\<open>src/test-plugin.c\<close>\<close>

text \<open>
  \<open>execute_null\<close> is what a plugin does with a null pointer for a command; the message is printed with \<open>%s\<close>.
\<close>

definition test_plugin_main ::
    "(string \<Rightarrow> dl_library option) \<Rightarrow> (bitu_plugin \<Rightarrow> string option option) \<Rightarrow> outcome option" where
  "test_plugin_main dl execute_null = do {
     ctx \<leftarrow> bitu_plugin_ctx_new;
     (ctx, _) \<leftarrow> bitu_plugin_ctx_load dl ctx ''libprocessor.so'';
     plugin \<leftarrow> bitu_plugin_ctx_find ctx ''processor-info'';
     out \<leftarrow> (case plugin of None \<Rightarrow> Some []
       | Some p \<Rightarrow> do {
           answer \<leftarrow> execute_null p;
           message \<leftarrow> answer;
           Some (''Name: '' @ bitu_plugin_name p @ '', message:'' @ [newline] @ message) });
     _ \<leftarrow> bitu_plugin_ctx_free ctx;
     Some (Exited True out) }"

section \<open>\<open>plugins/*/test.c\<close>\<close>

definition cpuinfo_test_main :: "bool \<Rightarrow> (string \<Rightarrow> string) \<Rightarrow> string option \<Rightarrow> outcome option" where
  "cpuinfo_test_main keeps show_clock proc_file = do {
     info \<leftarrow> cpuinfo_execute keeps show_clock proc_file;
     text \<leftarrow> info;
     Some (Exited True text) }"

definition hello_test_main :: "allocator \<Rightarrow> allocator \<Rightarrow> (string \<Rightarrow> (int \<times> nat) option) \<Rightarrow> outcome option" where
  "hello_test_main U V re = do {
     command \<leftarrow> bitu_command_new U None ''Say hello to john!'' None;
     info \<leftarrow> hello_execute V re command;
     text \<leftarrow> info;
     Some (Exited True (text @ [newline])) }"

definition uptime_test_main :: "string option \<Rightarrow> outcome option" where
  "uptime_test_main pipe = do {
     info \<leftarrow> uptime_execute pipe;
     text \<leftarrow> info;
     Some (Exited True text) }"

section \<open>\<open>src/test-transports.c\<close>\<close>

text \<open>
  \<open>a\<close> is the address of the transport, and \<open>store\<close> holds it: there is no manager, and the pointer of the
  transport to a queue has no value. The result of the main loop is ignored.
\<close>

definition connect_text :: "rc \<Rightarrow> string" where
  "connect_text rc =
     (if rc_ok rc then ''connect: Ok bro, we're in!'' @ [newline]
      else if rc = Conn STATUS_CONNECTION_FAILED then ''connect: Connection failed'' @ [newline]
      else if rc = Conn STATUS_ALREADY_RUNNING
        then ''connect: transport already running. Seems wrong, I know.'' @ [newline]
      else ''connect: I don't know what is the problem'')"

definition test_transports_main ::
    "bitu_command option ta_list_api \<Rightarrow> allocator \<Rightarrow> (string \<Rightarrow> iri option) \<Rightarrow> backend_env \<Rightarrow> ta_status \<Rightarrow>
     accept_result list \<Rightarrow> conn_manager \<Rightarrow> nat \<Rightarrow> string list \<Rightarrow> outcome option" where
  "test_transports_main T U parse env library events store a argv = (case argv of
       prname # uri # rest \<Rightarrow> do {
         new \<leftarrow> bitu_transport_new parse uri;
         case new of
           Inl e \<Rightarrow> Some (Exited False [])
         | Inr t \<Rightarrow> do {
             (t, rc) \<leftarrow> bitu_transport_connect env a t;
             _ \<leftarrow> bitu_transport_run T U env library events (store\<lparr>cm_heap := [a \<mapsto> t]\<rparr>) a;
             Some (Exited True (connect_text rc)) } }
     | _ \<Rightarrow> Some (Exited False []))"

section \<open>What they show\<close>

lemma test_util_run:
  "test_util_main glibc_alloc = Some (Exited True (
     ''Stripping message ` to be stripped out! '' @ [apostrophe] @ '': `to be stripped out!'' @ [apostrophe, newline] @
     ''line: '' @ test_line @ [newline]))"
  by code_simp

lemma conf_params_text_overrun: "conf_params_text params out = None"
  by (induction params arbitrary: out) simp_all

lemma conf_commands_text_overrun: "cs \<noteq> [] \<Longrightarrow> conf_commands_text cs out = None"
  by (cases cs) (simp_all add: conf_params_text_overrun)

text \<open>Without sessions that succeed, the server ends when \<open>accept\<close> fails after it was stopped.\<close>

lemma fresh_server_frees:
  assumes "sv_clients server = fresh_table hash_string False True" "sv_sock server = Some sock"
  shows "bitu_server_free server = Some []"
proof -
  have "hashtable_destroy (sv_clients server) = Some ([], [])"
    using hashtable_destroy_run [OF fresh_wf [of hash_string False True, where ?'b = bitu_client]] assms(1)
    by (simp add: fresh_entries) (simp add: fresh_table_def)
  then show ?thesis
    using assms(2) by (simp add: bitu_server_free_def)
qed

lemma hello_test_run:
  assumes "re ''Say hello to john!'' = Some (13, 17)" "18 < V 18"
  shows "hello_test_main glibc_alloc V re = Some (Exited True (''Hello john!'' @ [newline]))"
proof -
  have "bitu_command_new glibc_alloc None ''Say hello to john!'' None = Some \<lparr>command_transport = None, command_from = None,
      command_cmd = ''Say hello to john!'', command_name = Some ''Say'', command_params = [''hello'', ''to'', ''john!''],
      command_nparams = 3\<rparr>"
    by code_simp
  then show ?thesis
    using assms by (simp add: hello_test_main_def hello_execute_def snprintf_def numeral_eq_Suc)
qed

lemma test_conf_overrun:
  assumes "ta_list_ok T" "files ''bitu.conf.dist'' = Some (concat (map (\<lambda>l. l @ [newline]) bitu_conf_dist))"
  shows "test_conf_main glibc_alloc T files = None"
  using conf_loop_lines [OF shipped_fits assms(1), of glibc_alloc "[]"] assms(2)
  by (simp add: test_conf_main_def bitu_conf_read_from_file_def shipped_commands conf_commands_text_overrun)

text \<open>
  The test of the transports runs without a manager. When its transport is local and the first client sends a message, the
  program reads the pointer to a queue that nobody has stored in the transport.
\<close>

lemma message_without_queue:
  "cm_heap m a = Some t \<Longrightarrow> tr_commands t = No_value \<Longrightarrow> message_received T U env m a sender message = None"
  by (cases "bitu_command_new U (Some a) message (Some sender)")
    (simp_all add: message_received_def bitu_transport_queue_command_def)

lemma test_transports_message:
  assumes "parse uri = Some iri" "iri_scheme iri = Some ''file''" "iri_path iri = Some path" "length path < 108" "socket_ok env"
    and "length uuid = 36" "message_of glibc_alloc message text" "goodbye glibc_alloc last_events"
  shows "test_transports_main T glibc_alloc parse env library
    (Accepted sock uuid [message, last_events] # events) store a [prname, uri] = None"
proof -
  let ?t = "\<lparr>tr_uri = iri, tr_data = None, tr_logger = Logger, tr_callbacks = all_of Local, tr_commands = No_value\<rparr>"
  let ?server = "fresh_server a path (env_socket (be_sock env))"
  let ?t1 = "?t\<lparr>tr_data := Some (Data_server ?server), tr_logger := Logger\<rparr>"
  let ?store = "store\<lparr>cm_heap := [a \<mapsto> ?t1]\<rparr>"
  have new: "bitu_transport_new parse uri = Some (Inr ?t)"
    using assms(1,2) by (simp add: transport_new_eq)
  have connect: "bitu_transport_connect env a ?t = Some (?t1, Conn STATUS_OK)"
    using assms(3-5) by (intro local_connect_ok) (simp_all add: local_stopped_def)
  have handler: "local_message_received T glibc_alloc env st (?server\<lparr>sv_clients := c\<rparr>) uuid s =
      message_received T glibc_alloc env st a uuid s" for st c s
    by (simp add: local_message_received_def bitu_server_get_data_def)
  have "bitu_server_run glibc_alloc (local_message_received T glibc_alloc env) ?server
      (Accepted sock uuid ([message] @ [last_events]) # events) ?store = None"
    using serve_client [of ?server uuid "[message]" "[text]" last_events sock
        "local_message_received T glibc_alloc env" "\<lambda>m s. message_received T glibc_alloc env m a uuid s" events ?store]
      handler assms(6-8) message_without_queue [of ?store a ?t1]
    by (auto simp: fresh_entries)
  then have "local_run T glibc_alloc env ?store a (Accepted sock uuid [message, last_events] # events) = None"
    by (simp add: local_run_def)
  then show ?thesis
    by (simp add: test_transports_main_def new connect bitu_transport_run_def tr_log_def)
qed

end
