(* ===== verification/Spec2Isabelle.thy ===== *)
theory Spec2Isabelle
  imports Hashtable_Props Shell_Correct Sequential Sessions Irc_Props Xmpp_Props Transport_Commands Resources
    Dialogue Shipped_Conf Test_Programs
begin

text \<open>
  A verification library for bitU, a bot that executes commands which it receives over XMPP, IRC and a
  local socket.

  \<^bold>\<open>The program.\<close> The daemon \<open>bitud\<close> (\<open>src/main.c\<close>) reads configuration files (\<open>src/conf.c\<close>), whose
  lines are commands, and hands them to the application (\<open>src/app.c\<close>). The application has an
  environment, a table of built-in commands, a context of plugins (\<open>src/loader.c\<close>) and a connection
  manager (\<open>src/transport.c\<close>). Each transport of the manager (\<open>src/transport-local.c\<close>,
  \<open>transport-xmpp.c\<close>, \<open>transport-irc.c\<close>) runs its main loop in a thread of its own and turns
  messages into commands, which it adds to a bounded queue; one consumer thread takes them from the
  queue, has the application execute them, and sends the answer back through the transport. The local
  transport is a server on a Unix socket (\<open>src/server.c\<close>), whose client is \<open>bituctl\<close>
  (\<open>src/shell.c\<close>); the client escapes the words of its command line, and the parser of
  \<open>src/util.c\<close> splits the line again. Environment, commands, plugins, transports and clients are all
  kept in one kind of table, the hash table of \<open>src/hashtable.c\<close>. Three plugins are part of the
  repository (\<open>plugins/\<close>).

  \<^bold>\<open>How C is read.\<close> A C function is a HOL function into \<open>'a option\<close>; \<open>None\<close> is an execution without a
  defined result: a null or dangling pointer, an access outside of a block, an uninitialised variable,
  a loop that does not end, a call that waits for ever in a single thread. Error codes and null
  results are ordinary values. How many bytes of a block may be written is a parameter, an
  \<open>allocator\<close>: \<open>strict_alloc\<close> is the C standard, \<open>glibc_alloc\<close> the rounding of the GNU C library on
  64 bits, on which several functions rely. Strings are lists of characters without the terminating
  zero; where the code writes the zero, room for it is required. Integers are \<open>32 word\<close> where they wrap (the hash and
  the size of the table), and \<open>nat\<close> or \<open>int\<close> where they only count what is in memory. Answers of the
  system and of libraries (sockets, \<open>dlopen\<close>, files, regular expressions, iksemel, libircclient,
  taningia) are arguments; what is relied on is a named predicate: \<open>ta_list_ok\<close> for the lists of
  taningia (locale \<open>ta_list\<close>, satisfied by \<open>plain_list_api\<close>).

  \<^bold>\<open>The theories, by component.\<close>
  \<^item> \<open>Prelude\<close>: option monad, allocators, doubly linked nodes. \<open>TaList\<close>: the lists of taningia.
    \<open>Sockets\<close>: answers of \<open>select\<close>, \<open>recv\<close>, \<open>send\<close>.
  \<^item> \<open>Hashtable\<close>: \<open>src/hashtable.c\<close>, \<open>hashtable.h\<close>, \<open>hashtable-utils.c\<close>, on the code's own structure
    (one ring of nodes, buckets as pairs of pointers into it). \<open>Hashtable_Rep\<close> has the representation
    invariant, \<open>Hashtable_Correct\<close> what each operation does to the entries, \<open>Hashtable_Spec\<close> the
    abstraction \<open>ht_map\<close> to a finite map, \<open>Hashtable_Props\<close> the properties. \<open>Dictionary\<close> is the
    interface for the clients: the locales \<open>dictionary\<close> and \<open>iterable_dictionary\<close>, interpreted as \<open>ht\<close>;
    \<open>Iteration\<close> is the loop of the clients over a table, as a fold over its entries.
  \<^item> \<open>Util\<close>, \<open>Util_Correct\<close>: \<open>src/util.c\<close>; the parser with its buffers, and its refinement of the
    tokenizer \<open>tokens\<close>. \<open>Shell\<close>, \<open>Shell_Correct\<close>: \<open>src/shell.c\<close> and the round trip with the parser.
  \<^item> \<open>Queue\<close>: the queue of \<open>src/transport.c\<close>, sequentially and as a step relation \<open>qstep\<close> of any number of
    producers and the consumer, one step per operation on the mutex, the conditions and the list.
    \<open>Queue_Correct\<close> has the invariants and the measure, \<open>Queue_Props\<close> the properties; locale
    \<open>bounded_fifo\<close>. \<open>Sequential\<close> puts queue and application together.
  \<^item> \<open>Server\<close>, \<open>Server_Correct\<close>: \<open>src/server.c\<close>; locales \<open>roomy_alloc\<close> and \<open>message_handler\<close>.
  \<^item> \<open>Simulation\<close>: the locale \<open>simulation\<close> between the operations of a component and a specification of them, lifted to
    sequences; interpreted for the environment (\<open>env_map\<close>) and for the transports (\<open>tr_map\<close>).
  \<^item> \<open>Transport\<close>: the rest of \<open>src/transport.c\<close> and the three backends; transports are objects of a store,
    so that what the manager frees and what a thread still uses can be told apart. A transport has a field for each
    callback, which its backend fills in. The functions \<open>xmpp_connect_error\<close>, \<open>irc_connect_error\<close> and \<open>irc_run_error\<close>
    say which error of \<open>include/bitu/errors.h\<close> a call records.
    \<open>Transport_Correct\<close> has the invariant \<open>cm_inv\<close> and the abstraction \<open>lookup\<close> from URIs to transports,
    \<open>Transport_Props\<close>, \<open>Xmpp_Props\<close> and \<open>Irc_Props\<close> the properties.
  \<^item> \<open>Loader\<close>: \<open>src/loader.c\<close>. \<open>App\<close>: \<open>src/app.c\<close>; \<open>App_Correct\<close> has its invariant \<open>app_inv\<close> and the
    commands as operations on finite maps, \<open>App_Props\<close> the properties. \<open>Transport_Commands\<close> has the specification of
    the \<open>transport\<close> commands, a map from URIs to a backend and one of three states, and its refinement by
    transports of all three backends, \<open>Resources\<close> what the application owns.
  \<^item> \<open>Conf\<close>, \<open>Bitud\<close>, \<open>Bitud_Props\<close>: \<open>src/conf.c\<close> and \<open>src/main.c\<close>. \<open>Shipped_Conf\<close>: the program with
    \<open>src/bitu.conf.dist\<close>. \<open>Plugins\<close>, \<open>Plugin_Props\<close>: the plugins of the repository, alone and inside of the application.
    \<open>Test_Programs\<close>: \<open>src/test-*.c\<close> and \<open>plugins/*/test.c\<close>.
  \<^item> \<open>System\<close>: the way of a command from \<open>bituctl\<close> through all parts and of the answer back. \<open>Dialogue\<close>: an
    interactive session, line by line.
    \<open>Sessions\<close>: the two threads of a local transport as a step relation, from the first client on.

  \<^bold>\<open>What is shown.\<close> The numbered properties are stated in the theories above, each after a text that
  says what it means. The hash table implements a finite map, keeps its invariant, and frees what it
  owns exactly once; so does the application, for any sequence of commands. The queue excludes, is FIFO, has no deadlock and loses no command; every
  interleaving gives the application a sequential execution, and answers go to the client that asked. The parser splits what \<open>bituctl\<close> has
  built into the words that were given. The server puts messages together and serves its clients in
  order. The manager and the application keep their invariants; the environment is a map, the
  transports are a map to a backend and one of three states; a command finds the handler that the comments of the code promise, with the exceptions that are
  stated. Configuration files give the environment that was written into them. Of the plugins of the
  repository \<open>uptime\<close> answers; \<open>hello\<close> and \<open>cpuinfo\<close> have no defined result on the lines and files they were written for. Where the code has no
  defined result on an ordinary input, or does not do what its comments say, a property or a lemma says
  exactly when.

  \<^bold>\<open>Bounds and fuel.\<close> No function takes fuel. Loops over pointers and over included files are
  \<open>partial_function (option)\<close>, and that they end is part of the theorems about them; all others end
  by structural recursion or a measure. The table of primes ends at 1610612741 buckets, which is
  the bound \<open>ht_capacity\<close> on the number of entries in the theorems (\<open>cm_room\<close>, \<open>app_room\<close>). The
  queue has \<open>COMMAND_QUEUE_SIZE\<close> places. Lists of answers of the system (\<open>select_result\<close>,
  \<open>accept_result\<close>, \<open>send_result\<close>) are finite; a theorem about a session names the answers it is about.

  \<^bold>\<open>Not modelled.\<close> Log output, except where the text itself is used as a format or the logger has been
  freed, and the handler that writes it to the log file; what is written to the standard error output; the code of \<open>cmd_send\<close>, which is commented out; the release of single
  clients and of what the plugin cpuinfo has read, which only frees memory; the texts of the errors recorded for taningia; the
  failing allocations outside of the hash table and the parser; the main loops of the
  libraries, of which only the reported events count; data races between threads: on the queue every access to the common state is a step of its own, on the
  table of clients a whole call is, and other tables are used by one thread. How many references taningia keeps to a client is not
  known here: the client and its logger are taken to be gone when an XMPP transport has released its reference.
\<close>

end
